(* ===== verification/Prelude.thy ===== *)
theory Prelude
  imports Main "HOL-Library.List_Lexorder" "HOL-Library.Char_ord" "HOL-Library.Sublist"
begin

text \<open>
  The parts of the Go language and of its package \<^verbatim>\<open>strings\<close> that the daemon
  uses, and the generic facts about them that every component shares.

  A Go string is a byte sequence: \<^typ>\<open>string\<close>, a list of 8-bit characters, with the
  bytewise lexicographic order of \<open>List_Lexorder\<close> and \<open>Char_ord\<close>, which is the
  order of Go's \<open><\<close> on strings. A Go slice is a list; the \<open>nil\<close> slice and the empty
  one behave alike in every place modelled here and are both \<open>[]\<close>. A pair
  \<open>(value, error)\<close> is a sum with the error on the left.
\<close>

named_theorems gostr \<open>unfolding rules for Go's string functions\<close>

text \<open>An \<open>error\<close> is its message.\<close>

type_synonym goerr = string

type_synonym 'a result = "goerr + 'a"

subsection \<open>Prefixes, suffixes and trimming\<close>

definition has_prefix :: "string \<Rightarrow> string \<Rightarrow> bool" where
  "has_prefix s p \<longleftrightarrow> take (length p) s = p"

definition has_suffix :: "string \<Rightarrow> string \<Rightarrow> bool" where
  "has_suffix s p \<longleftrightarrow> has_prefix (rev s) (rev p)"

definition trim_prefix :: "string \<Rightarrow> string \<Rightarrow> string" where
  "trim_prefix s p = (if has_prefix s p then drop (length p) s else s)"

definition trim_suffix :: "string \<Rightarrow> string \<Rightarrow> string" where
  "trim_suffix s p = (if has_suffix s p then take (length s - length p) s else s)"

fun contains :: "string \<Rightarrow> string \<Rightarrow> bool" where
  "contains [] p = (p = [])"
| "contains (c # s) p = (has_prefix (c # s) p \<or> contains s p)"

text \<open>ASCII white space, as \<open>strings.TrimSpace\<close> removes it from both ends.\<close>

definition is_space :: "char \<Rightarrow> bool" where
  "is_space c \<longleftrightarrow> c \<in> {CHR '' '', CHR 0x09, CHR 0x0A, CHR 0x0B, CHR 0x0C, CHR 0x0D}"

definition trim_left_space :: "string \<Rightarrow> string" where
  "trim_left_space s = dropWhile is_space s"

definition trim_space :: "string \<Rightarrow> string" where
  "trim_space s = rev (dropWhile is_space (rev (dropWhile is_space s)))"

text \<open>
  \<open>strings.Split s sep\<close> for a one-byte separator: the pieces between the separators, always at
  least one. \<open>strings.Join\<close> puts them back together. \<open>strings.Cut\<close> splits at the
  first separator.
\<close>

fun split_on :: "char \<Rightarrow> string \<Rightarrow> string list" where
  "split_on c [] = [[]]"
| "split_on c (x # xs) =
     (if x = c then [] # split_on c xs
      else case split_on c xs of [] \<Rightarrow> [[x]] | p # ps \<Rightarrow> (x # p) # ps)"

fun join_with :: "string \<Rightarrow> string list \<Rightarrow> string" where
  "join_with sep [] = []"
| "join_with sep [p] = p"
| "join_with sep (p # q # ps) = p @ sep @ join_with sep (q # ps)"

definition cut_at :: "char \<Rightarrow> string \<Rightarrow> string \<times> string \<times> bool" where
  "cut_at c s =
     (if c \<in> set s
      then (takeWhile (\<lambda>x. x \<noteq> c) s, tl (dropWhile (\<lambda>x. x \<noteq> c) s), True)
      else (s, [], False))"

definition replace_char :: "char \<Rightarrow> char \<Rightarrow> string \<Rightarrow> string" where
  "replace_char a b s = map (\<lambda>x. if x = a then b else x) s"

definition count_char :: "char \<Rightarrow> string \<Rightarrow> nat" where
  "count_char c s = length (filter (\<lambda>x. x = c) s)"

subsection \<open>Letter case\<close>

definition upper_char :: "char \<Rightarrow> char" where
  "upper_char c =
     (let n = (of_char c :: nat) in if 97 \<le> n \<and> n \<le> 122 then char_of (n - 32) else c)"

definition lower_char :: "char \<Rightarrow> char" where
  "lower_char c =
     (let n = (of_char c :: nat) in if 65 \<le> n \<and> n \<le> 90 then char_of (n + 32) else c)"

text \<open>
  \<open>strings.ToLower\<close> works on runes. Besides the ASCII letters exactly two runes have an ASCII
  lower case: the Kelvin sign U+212A (bytes E2 84 AA) becomes \<open>k\<close> and U+0130 (bytes C4 B0)
  becomes \<open>i\<close>. The remaining runes stay outside ASCII, and every string the daemon looks for in
  a lowered text is ASCII, so they are left as they are.
\<close>

fun to_lower :: "string \<Rightarrow> string" where
  "to_lower [] = []"
| "to_lower (a # s) =
     (if a = CHR 0xE2 \<and> take 2 s = [CHR 0x84, CHR 0xAA] then CHR ''k'' # to_lower (drop 2 s)
      else if a = CHR 0xC4 \<and> take 1 s = [CHR 0xB0] then CHR ''i'' # to_lower (drop 1 s)
      else lower_char a # to_lower s)"

subsection \<open>Decimal numbers\<close>

definition is_digit :: "char \<Rightarrow> bool" where
  "is_digit c \<longleftrightarrow> 48 \<le> (of_char c :: nat) \<and> (of_char c :: nat) \<le> 57"

definition digit_val :: "char \<Rightarrow> nat" where
  "digit_val c = of_char c - 48"

fun nat_str :: "nat \<Rightarrow> string" where
  "nat_str n =
     (if n < 10 then [char_of (48 + n)] else nat_str (n div 10) @ [char_of (48 + n mod 10)])"

declare nat_str.simps [simp del]

definition int_str :: "int \<Rightarrow> string" where
  "int_str i = (if i < 0 then CHR ''-'' # nat_str (nat (- i)) else nat_str (nat i))"

definition dec_val :: "string \<Rightarrow> nat" where
  "dec_val s = foldl (\<lambda>a c. a * 10 + digit_val c) 0 s"

definition bool_str :: "bool \<Rightarrow> string" where
  "bool_str b = (if b then ''true'' else ''false'')"

text \<open>
  \<open>strconv.Atoi\<close>: an optional sign and at least one digit, within the 64-bit range.
\<close>

definition atoi :: "string \<Rightarrow> int option" where
  "atoi s =
     (let neg = has_prefix s ''-'';
          ds = (if has_prefix s ''-'' \<or> has_prefix s ''+'' then tl s else s)
      in if ds = [] \<or> \<not> list_all is_digit ds then None
         else let v = (if neg then - int (dec_val ds) else int (dec_val ds))
              in if - (2 ^ 63) \<le> v \<and> v < 2 ^ 63 then Some v else None)"

text \<open>\<open>fmt\<close>'s \<open>%q\<close> for the strings the messages quote; only its quotes matter here.\<close>

definition quoted :: "string \<Rightarrow> string" where
  "quoted s = [CHR 0x22] @ s @ [CHR 0x22]"

subsection \<open>Facts about strings\<close>

lemma has_prefix_prefix [gostr]: "has_prefix s p \<longleftrightarrow> prefix p s"
  unfolding has_prefix_def
  by (metis append_eq_conv_conj prefix_def)

lemma has_suffix_suffix [gostr]: "has_suffix s p \<longleftrightarrow> suffix p s"
  by (simp add: has_suffix_def has_prefix_prefix suffix_to_prefix)

lemma has_prefix_refl [simp]: "has_prefix s s"
  by (simp add: has_prefix_def)

lemma has_prefix_Nil [simp]: "has_prefix s []"
  by (simp add: has_prefix_def)

lemma has_prefix_append [simp]: "has_prefix (p @ s) p"
  by (simp add: has_prefix_def)

lemma trim_prefix_append [simp]: "trim_prefix (p @ s) p = s"
  by (simp add: trim_prefix_def)

lemma split_on_not_Nil [simp]: "split_on c s \<noteq> []"
  by (cases s) (auto split: list.splits)

lemma split_on_Cons_neq:
  assumes "x \<noteq> c"
  shows "split_on c (x # xs) = (x # hd (split_on c xs)) # tl (split_on c xs)"
  using assms by (cases "split_on c xs") simp_all

lemma split_on_no_sep: "q \<in> set (split_on c s) \<Longrightarrow> c \<notin> set q"
proof (induction s arbitrary: q)
  case Nil
  then show ?case by simp
next
  case (Cons x xs)
  obtain p ps where ps: "split_on c xs = p # ps"
    by (cases "split_on c xs") auto
  show ?case using Cons ps by (auto split: if_splits)
qed

lemma join_split_on: "join_with [c] (split_on c s) = s"
proof (induction s)
  case Nil
  then show ?case by simp
next
  case (Cons x xs)
  obtain p ps where ps: "split_on c xs = p # ps"
    by (cases "split_on c xs") auto
  show ?case using Cons ps by (cases ps) auto
qed

lemma split_on_free: "c \<notin> set s \<Longrightarrow> split_on c s = [s]"
  by (induction s) auto

lemma split_on_append: "split_on c (a @ c # b) = split_on c a @ split_on c b"
  by (induction a) (auto split: list.splits)

lemma split_on_append_sep: "c \<notin> set s \<Longrightarrow> split_on c (s @ c # t) = s # split_on c t"
  by (induction s) auto

lemma split_on_join:
  assumes "ps \<noteq> []" and "\<forall>p \<in> set ps. c \<notin> set p"
  shows "split_on c (join_with [c] ps) = ps"
  using assms
proof (induction "[c]" ps rule: join_with.induct)
  case (2 p)
  then show ?case by (simp add: split_on_free)
next
  case (3 p q ps)
  then show ?case by (simp add: split_on_append_sep)
qed simp

lemma length_split_on: "length (split_on c s) = Suc (count_char c s)"
proof (induction s)
  case (Cons x xs)
  then show ?case by (cases "split_on c xs") (auto simp: count_char_def)
qed (simp add: count_char_def)

lemma dec_val_snoc: "dec_val (s @ [c]) = dec_val s * 10 + digit_val c"
  by (simp add: dec_val_def)

lemma digit_val_char_of: "n < 10 \<Longrightarrow> digit_val (char_of (48 + n)) = n"
  by (simp add: digit_val_def)

lemma dec_val_nat_str [simp]: "dec_val (nat_str n) = n"
proof (induction n rule: nat_str.induct)
  case (1 n)
  show ?case
  proof (cases "n < 10")
    case True
    then show ?thesis
      by (simp add: nat_str.simps [of n] dec_val_def digit_val_char_of)
  next
    case False
    with 1 have "dec_val (nat_str (n div 10)) = n div 10" by simp
    then have "dec_val (nat_str n) = n div 10 * 10 + n mod 10"
      using False by (simp add: nat_str.simps [of n] dec_val_snoc digit_val_char_of)
    then show ?thesis by simp
  qed
qed

lemma nat_str_digits: "list_all is_digit (nat_str n)"
proof (induction n rule: nat_str.induct)
  case (1 n)
  have "n mod 10 \<le> 9" by linarith
  with 1 show ?case
    by (simp add: nat_str.simps [of n] is_digit_def)
qed

lemma nat_str_inj: "nat_str m = nat_str n \<Longrightarrow> m = n"
  by (metis dec_val_nat_str)

subsection \<open>Association lists as Go maps\<close>

text \<open>
  A Go map is an association list without repeated keys; Go leaves the iteration order open, and
  every place where the code ranges over a map and the order could show sorts first.
\<close>

definition map_put :: "'k \<Rightarrow> 'v \<Rightarrow> ('k \<times> 'v) list \<Rightarrow> ('k \<times> 'v) list" where
  "map_put k v m = (k, v) # filter (\<lambda>e. fst e \<noteq> k) m"

definition map_del :: "'k \<Rightarrow> ('k \<times> 'v) list \<Rightarrow> ('k \<times> 'v) list" where
  "map_del k m = filter (\<lambda>e. fst e \<noteq> k) m"

lemma map_of_map_put [simp]: "map_of (map_put k v m) = (map_of m)(k \<mapsto> v)"
proof
  fix x
  have "map_of (filter (\<lambda>e. fst e \<noteq> k) m) x = (if x = k then None else map_of m x)"
    by (induction m) auto
  then show "map_of (map_put k v m) x = ((map_of m)(k \<mapsto> v)) x"
    by (simp add: map_put_def)
qed

lemma map_of_map_del [simp]: "map_of (map_del k m) = (map_of m)(k := None)"
  by (rule ext) (induction m, auto simp: map_del_def)

lemma distinct_map_put: "distinct (map fst m) \<Longrightarrow> distinct (map fst (map_put k v m))"
  by (auto simp: map_put_def distinct_map_filter)

lemma distinct_map_del: "distinct (map fst m) \<Longrightarrow> distinct (map fst (map_del k m))"
  by (auto simp: map_del_def distinct_map_filter)

end
