(* ===== verification/GoPath.thy ===== *)
theory GoPath
  imports Prelude
begin

text \<open>
  Go's packages \<^verbatim>\<open>path/filepath\<close> and \<^verbatim>\<open>path\<close>, as far as the daemon uses them:
  \<open>Clean\<close>, \<open>Join\<close> and \<open>Split\<close> on slash-separated paths and the glob matcher
  \<open>path.Match\<close> with its errors for malformed patterns. The authorization checks of
  \<^verbatim>\<open>src/internal/config/sudo.go\<close> and \<^verbatim>\<open>src/internal/docker/allow.go\<close> rest on
  them. The lemmas give \<open>Clean\<close> its meaning (a normal form made of ordinary components) and
  bound what the glob's star can cover.
\<close>

subsection \<open>filepath.Clean\<close>

text \<open>
  The lexical normalisation keeps a stack of components: an empty component and \<open>.\<close> are
  dropped, \<open>..\<close> removes the component before it; at the root it is dropped, in a relative path
  with nothing left to remove it stays. The stack is held in reverse.
\<close>

fun clean_step :: "bool \<Rightarrow> string list \<Rightarrow> string \<Rightarrow> string list" where
  "clean_step rooted st c =
     (if c = [] \<or> c = ''.'' then st
      else if c = ''..''
      then (case st of
              [] \<Rightarrow> (if rooted then [] else [''..''])
            | t # st' \<Rightarrow> (if t = ''..'' then ''..'' # st else st'))
      else c # st)"

definition clean_comps :: "bool \<Rightarrow> string list \<Rightarrow> string list" where
  "clean_comps rooted cs = rev (foldl (clean_step rooted) [] cs)"

definition is_rooted :: "string \<Rightarrow> bool" where
  "is_rooted p \<longleftrightarrow> has_prefix p ''/''"

text \<open>The components that remain after cleaning, the meaning of a path.\<close>

definition path_comps :: "string \<Rightarrow> string list" where
  "path_comps p = clean_comps (is_rooted p) (split_on CHR ''/'' p)"

definition render_path :: "bool \<Rightarrow> string list \<Rightarrow> string" where
  "render_path rooted cs =
     (if rooted then CHR ''/'' # join_with ''/'' cs
      else if cs = [] then ''.'' else join_with ''/'' cs)"

definition clean :: "string \<Rightarrow> string" where
  "clean p = render_path (is_rooted p) (path_comps p)"

text \<open>\<open>filepath.Join\<close> of two elements, and \<open>filepath.Split\<close>.\<close>

definition join_path :: "string \<Rightarrow> string \<Rightarrow> string" where
  "join_path a b =
     (if a = [] \<and> b = [] then []
      else if a = [] then clean b
      else if b = [] then clean a
      else clean (a @ ''/'' @ b))"

definition split_path :: "string \<Rightarrow> string \<times> string" where
  "split_path p =
     (let name = rev (takeWhile (\<lambda>c. c \<noteq> CHR ''/'') (rev p))
      in (take (length p - length name) p, name))"

definition base_path :: "string \<Rightarrow> string" where
  "base_path p =
     (if p = [] then ''.''
      else let q = rev (dropWhile (\<lambda>c. c = CHR ''/'') (rev p))
           in if q = [] then ''/'' else snd (split_path q))"

subsection \<open>UTF-8 decoding\<close>

definition cont_byte :: "char \<Rightarrow> bool" where
  "cont_byte c \<longleftrightarrow> 128 \<le> (of_char c :: nat) \<and> (of_char c :: nat) < 192"

definition cont_val :: "char \<Rightarrow> nat" where
  "cont_val c = of_char c - 128"

text \<open>
  \<open>utf8.DecodeRuneInString\<close>: the first rune and its width; \<open>(0xFFFD, 0)\<close> for the empty
  string and \<open>(0xFFFD, 1)\<close> for bytes that are not UTF-8.
\<close>

definition decode_rune :: "string \<Rightarrow> nat \<times> nat" where
  "decode_rune s =
     (case s of
        [] \<Rightarrow> (0xFFFD, 0)
      | a # t \<Rightarrow>
          let x = (of_char a :: nat) in
          if x < 0x80 then (x, 1)
          else if 0xC2 \<le> x \<and> x < 0xE0 then
            (case t of
               b # _ \<Rightarrow> (if cont_byte b then ((x - 0xC0) * 64 + cont_val b, 2) else (0xFFFD, 1))
             | _ \<Rightarrow> (0xFFFD, 1))
          else if 0xE0 \<le> x \<and> x < 0xF0 then
            (case t of
               b # c # _ \<Rightarrow>
                 (let r = ((x - 0xE0) * 64 + cont_val b) * 64 + cont_val c
                  in if cont_byte b \<and> cont_byte c \<and> 0x800 \<le> r \<and> \<not> (0xD800 \<le> r \<and> r < 0xE000)
                     then (r, 3) else (0xFFFD, 1))
             | _ \<Rightarrow> (0xFFFD, 1))
          else if 0xF0 \<le> x \<and> x < 0xF5 then
            (case t of
               b # c # d # _ \<Rightarrow>
                 (let r = (((x - 0xF0) * 64 + cont_val b) * 64 + cont_val c) * 64 + cont_val d
                  in if cont_byte b \<and> cont_byte c \<and> cont_byte d \<and> 0x10000 \<le> r \<and> r < 0x110000
                     then (r, 4) else (0xFFFD, 1))
             | _ \<Rightarrow> (0xFFFD, 1))
          else (0xFFFD, 1))"

subsection \<open>path.Match\<close>

text \<open>
  \<open>None\<close> is \<open>ErrBadPattern\<close>. \<open>scan_chunk\<close> takes the leading stars and the
  following text up to the next star outside a character class.
\<close>

fun scan_lit :: "bool \<Rightarrow> string \<Rightarrow> string \<times> string" where
  "scan_lit inrange [] = ([], [])"
| "scan_lit inrange (c # p) =
     (if c = CHR 0x5C then
        (case p of
           [] \<Rightarrow> ([c], [])
         | d # p' \<Rightarrow> (let (a, r) = scan_lit inrange p' in (c # d # a, r)))
      else if c = CHR ''['' then (let (a, r) = scan_lit True p in (c # a, r))
      else if c = CHR '']'' then (let (a, r) = scan_lit False p in (c # a, r))
      else if c = CHR ''*'' \<and> \<not> inrange then ([], c # p)
      else (let (a, r) = scan_lit inrange p in (c # a, r)))"

definition scan_chunk :: "string \<Rightarrow> bool \<times> string \<times> string" where
  "scan_chunk p =
     (let q = dropWhile (\<lambda>c. c = CHR ''*'') p;
          (chunk, rest) = scan_lit False q
      in (has_prefix p ''*'', chunk, rest))"

text \<open>A possibly escaped character of a class: the rune and the rest, which must not be empty.\<close>

definition get_esc :: "string \<Rightarrow> (nat \<times> string) option" where
  "get_esc p =
     (case p of
        [] \<Rightarrow> None
      | c # p' \<Rightarrow>
          if c = CHR ''-'' \<or> c = CHR '']'' then None
          else let q = (if c = CHR 0x5C then p' else p) in
               if q = [] then None
               else let (r, n) = decode_rune q; rest = drop n q
                    in if r = 0xFFFD \<and> n = 1 then None
                       else if rest = [] then None else Some (r, rest))"

text \<open>
  The ranges of a class after \<open>[\<close> and \<open>^\<close>, up to the closing bracket; the class must
  hold at least one range. The result tells whether the rune is in one of them.
\<close>

text \<open>\<open>fuel\<close> bounds the number of ranges; the pattern's length is always enough.\<close>

fun match_ranges :: "nat \<Rightarrow> nat \<Rightarrow> bool \<Rightarrow> bool \<Rightarrow> string \<Rightarrow> (bool \<times> string) option" where
  "match_ranges 0 r m any p = None"
| "match_ranges (Suc fuel) r m any p =
     (if any \<and> has_prefix p '']'' then Some (m, tl p)
      else case get_esc p of
             None \<Rightarrow> None
           | Some (lo, q) \<Rightarrow>
               (if has_prefix q ''-'' then
                  (case get_esc (tl q) of
                     None \<Rightarrow> None
                   | Some (hi, q') \<Rightarrow> match_ranges fuel r (m \<or> (lo \<le> r \<and> r \<le> hi)) True q')
                else match_ranges fuel r (m \<or> lo = r) True q))"

text \<open>
  \<open>matchChunk\<close>: the chunk against the start of the name. After a mismatch
  (\<open>failed\<close>) the rest of the chunk is still checked for well-formedness. The result is the
  rest of the name, if the chunk matched.
\<close>

fun match_chunk :: "nat \<Rightarrow> bool \<Rightarrow> string \<Rightarrow> string \<Rightarrow> string option option" where
  "match_chunk fuel failed [] s = Some (if failed then None else Some s)"
| "match_chunk 0 failed (c # p) s = None"
| "match_chunk (Suc fuel) failed0 (c # p) s =
     (let failed = (failed0 \<or> s = []) in
      if c = CHR ''['' then
        (let (r, n) = (if failed then (0, 0) else decode_rune s);
             negated = has_prefix p ''^'';
             q = (if negated then tl p else p)
         in case match_ranges (Suc (length q)) r False False q of
              None \<Rightarrow> None
            | Some (m, q') \<Rightarrow> match_chunk fuel (failed \<or> m = negated) q' (drop n s))
      else if c = CHR ''?'' then
        match_chunk fuel (failed \<or> hd s = CHR ''/'') p
          (if failed then s else drop (snd (decode_rune s)) s)
      else if c = CHR 0x5C then
        (case p of
           [] \<Rightarrow> None
         | d # p' \<Rightarrow> match_chunk fuel (failed \<or> d \<noteq> hd s) p' (tl s))
      else match_chunk fuel (failed \<or> c \<noteq> hd s) p (tl s))"

definition matchChunk :: "string \<Rightarrow> string \<Rightarrow> string option option" where
  "matchChunk chunk s = match_chunk (length chunk) False chunk s"

text \<open>The syntax check of the pattern that remains after a mismatch.\<close>

fun check_rest :: "nat \<Rightarrow> string \<Rightarrow> bool" where
  "check_rest 0 p = True"
| "check_rest (Suc fuel) p =
     (if p = [] then True
      else let (star, chunk, rest) = scan_chunk p
           in matchChunk chunk [] \<noteq> None \<and> check_rest fuel rest)"

text \<open>
  The star's search: the chunk is tried after skipping one, two, \<dots> bytes of the name, never
  past a slash. \<open>None\<close> is a malformed chunk; \<open>Some None\<close> is no match.
\<close>

fun skip_search :: "string \<Rightarrow> bool \<Rightarrow> string \<Rightarrow> string option option" where
  "skip_search chunk final [] = Some None"
| "skip_search chunk final (c # name) =
     (if c = CHR ''/'' then Some None
      else case matchChunk chunk name of
             None \<Rightarrow> None
           | Some (Some t) \<Rightarrow>
               (if final \<and> t \<noteq> [] then skip_search chunk final name else Some (Some t))
           | Some None \<Rightarrow> skip_search chunk final name)"

fun match_fuel :: "nat \<Rightarrow> string \<Rightarrow> string \<Rightarrow> bool option" where
  "match_fuel 0 p name = None"
| "match_fuel (Suc fuel) p name =
     (if p = [] then Some (name = [])
      else let (star, chunk, rest) = scan_chunk p in
        if star \<and> chunk = [] then Some (CHR ''/'' \<notin> set name)
        else
          let stop = (if check_rest (length rest) rest then Some False else None) in
          case matchChunk chunk name of
            Some (Some t) \<Rightarrow>
              (if t = [] \<or> rest \<noteq> [] then match_fuel fuel rest t
               else if star then
                 (case skip_search chunk (rest = []) name of
                    None \<Rightarrow> None
                  | Some (Some t') \<Rightarrow> match_fuel fuel rest t'
                  | Some None \<Rightarrow> stop)
               else stop)
          | None \<Rightarrow> None
          | Some None \<Rightarrow>
              (if star then
                 (case skip_search chunk (rest = []) name of
                    None \<Rightarrow> None
                  | Some (Some t') \<Rightarrow> match_fuel fuel rest t'
                  | Some None \<Rightarrow> stop)
               else stop))"

text \<open>
  \<open>path.Match\<close>. Every round of its loop consumes at least one byte of the pattern, so the
  pattern's length plus one bounds the rounds.
\<close>

definition path_match :: "string \<Rightarrow> string \<Rightarrow> bool option" where
  "path_match pat name = match_fuel (Suc (length pat)) pat name"

subsection \<open>What cleaning guarantees\<close>

text \<open>An ordinary component: not empty, not a dot component, free of slashes.\<close>

definition plain_comp :: "string \<Rightarrow> bool" where
  "plain_comp c \<longleftrightarrow> c \<noteq> [] \<and> c \<noteq> ''.'' \<and> c \<noteq> ''..'' \<and> CHR ''/'' \<notin> set c"

lemma clean_step_rooted_plain:
  assumes "\<forall>c \<in> set st. plain_comp c" and "CHR ''/'' \<notin> set c"
  shows "\<forall>d \<in> set (clean_step True st c). plain_comp d"
  using assms by (cases st) (simp_all add: plain_comp_def)

lemma foldl_clean_rooted_plain:
  assumes "\<forall>c \<in> set st. plain_comp c" and "\<forall>c \<in> set cs. CHR ''/'' \<notin> set c"
  shows "\<forall>d \<in> set (foldl (clean_step True) st cs). plain_comp d"
  using assms
proof (induction cs arbitrary: st)
  case (Cons c cs)
  then have "\<forall>d \<in> set (clean_step True st c). plain_comp d"
    by (intro clean_step_rooted_plain) auto
  then show ?case using Cons by simp
qed simp

lemma path_comps_plain:
  assumes "is_rooted p" and "c \<in> set (path_comps p)"
  shows "plain_comp c"
  using assms foldl_clean_rooted_plain [of "[]" "split_on CHR ''/'' p"] split_on_no_sep
  by (auto simp: path_comps_def clean_comps_def)

lemma foldl_clean_id:
  "\<forall>c \<in> set cs. plain_comp c \<Longrightarrow> foldl (clean_step r) st cs = rev cs @ st"
  by (induction cs arbitrary: st) (auto simp: plain_comp_def)

lemma clean_comps_id: "\<forall>c \<in> set cs. plain_comp c \<Longrightarrow> clean_comps r cs = cs"
  by (simp add: clean_comps_def foldl_clean_id)

lemma is_rooted_Cons [simp]: "is_rooted (CHR ''/'' # p)"
  by (simp add: is_rooted_def has_prefix_def)

lemma is_rooted_clean [simp]: "is_rooted p \<Longrightarrow> is_rooted (clean p)"
  by (simp add: clean_def render_path_def)

lemma path_comps_render:
  assumes "\<forall>c \<in> set cs. plain_comp c"
  shows "path_comps (CHR ''/'' # join_with ''/'' cs) = cs"
proof (cases "cs = []")
  case True
  then show ?thesis by (simp add: path_comps_def clean_comps_def)
next
  case False
  with assms have "split_on CHR ''/'' (join_with ''/'' cs) = cs"
    by (intro split_on_join) (auto simp: plain_comp_def)
  then have "path_comps (CHR ''/'' # join_with ''/'' cs) = clean_comps True ([] # cs)"
    by (simp add: path_comps_def)
  also have "\<dots> = cs"
    using assms clean_comps_id [of cs True] by (simp add: clean_comps_def)
  finally show ?thesis .
qed

lemma clean_rooted_eq: "is_rooted p \<Longrightarrow> clean p = CHR ''/'' # join_with ''/'' (path_comps p)"
  by (simp add: clean_def render_path_def)

lemma path_comps_clean [simp]: "is_rooted p \<Longrightarrow> path_comps (clean p) = path_comps p"
  by (simp add: clean_rooted_eq path_comps_render path_comps_plain)

lemma clean_clean: "is_rooted p \<Longrightarrow> clean (clean p) = clean p"
  by (simp add: clean_rooted_eq path_comps_render path_comps_plain)

lemma join_with_append:
  "xs \<noteq> [] \<Longrightarrow> ys \<noteq> [] \<Longrightarrow> join_with s (xs @ ys) = join_with s xs @ s @ join_with s ys"
proof (induction s xs rule: join_with.induct)
  case (2 sep p)
  then show ?case by (cases ys) auto
qed auto

text \<open>
  The textual test of the allow list, on cleaned paths, is the prefix order on components: an
  allowed \<open>/tmp\<close> covers \<open>/tmp\<close> and \<open>/tmp/x\<close> but not \<open>/tmpfoo\<close>.
\<close>

lemma render_prefix_iff:
  assumes plain: "\<forall>c \<in> set xs. plain_comp c" "\<forall>c \<in> set ys. plain_comp c" and "xs \<noteq> []"
  shows "(join_with ''/'' ys = join_with ''/'' xs \<or>
          prefix (join_with ''/'' xs @ ''/'') (join_with ''/'' ys)) \<longleftrightarrow> prefix xs ys"
    (is "?L \<longleftrightarrow> ?R")
proof
  have split: "split_on CHR ''/'' (join_with ''/'' cs) = cs"
    if "\<forall>c \<in> set cs. plain_comp c" "cs \<noteq> []" for cs
    using that by (intro split_on_join) (auto simp: plain_comp_def)
  assume ?L
  then show ?R
  proof
    assume eq: "join_with ''/'' ys = join_with ''/'' xs"
    have "join_with ''/'' xs \<noteq> []"
      using plain(1) \<open>xs \<noteq> []\<close> by (cases xs rule: join_with.cases [of "(''/'', xs)" for xs])
        (auto simp: plain_comp_def)
    with eq have "ys \<noteq> []" by auto
    with eq show ?R using split plain \<open>xs \<noteq> []\<close> by (metis prefix_order.refl)
  next
    assume "prefix (join_with ''/'' xs @ ''/'') (join_with ''/'' ys)"
    then obtain z where z: "join_with ''/'' ys = join_with ''/'' xs @ CHR ''/'' # z"
      by (auto simp: prefix_def)
    then have "ys \<noteq> []" by auto
    have app: "split_on c (join_with [c] us @ c # z) = us @ split_on c z"
      if "us \<noteq> []" "\<forall>u \<in> set us. c \<notin> set u" for us c and z :: string
      using that
    proof (induction "[c]" us rule: join_with.induct)
      case (2 p)
      then show ?case by (simp add: split_on_append_sep)
    next
      case (3 p q ps)
      then show ?case by (simp add: split_on_append_sep)
    qed simp
    have "ys = split_on CHR ''/'' (join_with ''/'' xs @ CHR ''/'' # z)"
      using split [OF plain(2) \<open>ys \<noteq> []\<close>] z by simp
    also have "\<dots> = xs @ split_on CHR ''/'' z"
      using plain(1) \<open>xs \<noteq> []\<close> by (intro app) (auto simp: plain_comp_def)
    finally show ?R by (auto simp: prefix_def)
  qed
next
  assume ?R
  then obtain zs where ys: "ys = xs @ zs" by (auto simp: prefix_def)
  show ?L
  proof (cases "zs = []")
    case False
    then have "join_with ''/'' ys = join_with ''/'' xs @ ''/'' @ join_with ''/'' zs"
      using ys \<open>xs \<noteq> []\<close> by (simp add: join_with_append)
    then show ?thesis by (simp add: prefix_def)
  qed (use ys in simp)
qed

text \<open>The lexical containment test of the allow lists, over paths.\<close>

definition lies_within :: "string \<Rightarrow> string \<Rightarrow> bool" where
  "lies_within a p \<longleftrightarrow> prefix (path_comps a) (path_comps p)"

lemma clean_within_iff:
  assumes "is_rooted p" and "is_rooted a"
  shows "(clean a = ''/'' \<or> clean p = clean a \<or> has_prefix (clean p) (clean a @ ''/'')) \<longleftrightarrow> lies_within a p"
proof (cases "path_comps a = []")
  case True
  then show ?thesis using assms by (simp add: lies_within_def clean_rooted_eq)
next
  case False
  have ne: "join_with ''/'' (path_comps a) \<noteq> []"
    using False path_comps_plain [OF assms(2)]
    by (cases "(''/'', path_comps a)" rule: join_with.cases) (auto simp: plain_comp_def)
  have "(join_with ''/'' (path_comps p) = join_with ''/'' (path_comps a) \<or>
          prefix (join_with ''/'' (path_comps a) @ ''/'') (join_with ''/'' (path_comps p)))
        \<longleftrightarrow> prefix (path_comps a) (path_comps p)"
    using assms False by (intro render_prefix_iff) (auto simp: path_comps_plain)
  then show ?thesis using assms ne
    by (simp add: lies_within_def clean_rooted_eq gostr)
qed

subsection \<open>The glob matcher: enough fuel, and what a star covers\<close>

lemma decode_rune_width: "s \<noteq> [] \<Longrightarrow> 0 < snd (decode_rune s)"
  by (cases s) (auto simp: decode_rune_def Let_def split: list.splits)

lemma get_esc_shorter:
  assumes "get_esc p = Some (r, q)"
  shows "length q < length p"
proof -
  obtain c p' where p: "p = c # p'"
    using assms by (cases p) (auto simp: get_esc_def)
  define q0 where "q0 = (if c = CHR 0x5C then p' else p)"
  have "q0 \<noteq> []" and q: "q = drop (snd (decode_rune q0)) q0"
    using assms by (auto simp: get_esc_def p q0_def Let_def split: if_splits prod.splits)
  then have "length q < length q0"
    using decode_rune_width [of q0] by (simp add: diff_less)
  then show ?thesis by (auto simp: q0_def p split: if_splits)
qed

lemma match_ranges_fuel:
  "length p < fuel \<Longrightarrow> match_ranges (Suc fuel) r m a p = match_ranges fuel r m a p"
proof (induction fuel arbitrary: m a p)
  case (Suc fuel)
  have IH: "match_ranges (Suc fuel) r m' True q' = match_ranges fuel r m' True q'"
    if "length q' < length p" for m' q'
    using Suc.prems that by (intro Suc.IH) simp
  have shrink: "length q' < length p"
    if "get_esc p = Some (lo, q)" "get_esc (tl q) = Some (hi, q')" for lo q hi q'
    using get_esc_shorter [OF that(1)] get_esc_shorter [OF that(2)] by simp
  show ?case
    by (subst match_ranges.simps(2) [of "Suc fuel" r m a p],
        subst match_ranges.simps(2) [of fuel r m a p])
      (auto simp del: match_ranges.simps simp: IH shrink get_esc_shorter split: option.splits)
qed simp

lemma match_ranges_shorter:
  "match_ranges fuel r m a p = Some (b, q) \<Longrightarrow> length q < length p"
proof (induction fuel arbitrary: m a p)
  case (Suc fuel)
  show ?case
  proof (cases "a \<and> has_prefix p '']''")
    case True
    then have "p \<noteq> []" by (auto simp: has_prefix_def)
    then show ?thesis using Suc.prems True by auto
  next
    case False
    then obtain lo q1 where e: "get_esc p = Some (lo, q1)"
      using Suc.prems by (auto split: option.splits)
    have l1: "length q1 < length p" using get_esc_shorter [OF e] .
    show ?thesis
    proof (cases "has_prefix q1 ''-''")
      case True
      then obtain hi q2 where e2: "get_esc (tl q1) = Some (hi, q2)"
        using Suc.prems False e by (auto split: option.splits)
      have "length q < length q2" using Suc.prems False e e2 True by (auto dest: Suc.IH)
      moreover have "length q2 < length (tl q1)" using get_esc_shorter [OF e2] .
      ultimately show ?thesis using l1 by simp
    next
      case F: False
      have "length q < length q1" using Suc.prems False e F by (auto dest: Suc.IH)
      then show ?thesis using l1 by simp
    qed
  qed
qed simp

lemma match_chunk_fuel:
  "length p \<le> fuel \<Longrightarrow> match_chunk (Suc fuel) f p s = match_chunk fuel f p s"
proof (induction fuel arbitrary: f p s)
  case 0
  then show ?case by simp
next
  case (Suc fuel)
  show ?case
  proof (cases p)
    case (Cons c p')
    have IH: "match_chunk (Suc fuel) g q t = match_chunk fuel g q t"
      if "length q \<le> length p'" for g q t
      using Suc.prems that Cons by (intro Suc.IH) simp
    let ?n = "has_prefix p' ''^''"
    let ?q = "if ?n then tl p' else p'"
    have br: "length q' \<le> length p'"
      if "match_ranges (Suc (length ?q)) r False False ?q = Some (m, q')" for q' r m
      using match_ranges_shorter [OF that] by (simp split: if_splits)
    have cls: "(case match_ranges (Suc (length ?q)) r False False ?q of
          None \<Rightarrow> None | Some (m, q') \<Rightarrow> match_chunk (Suc fuel) (g m) q' t) =
        (case match_ranges (Suc (length ?q)) r False False ?q of
          None \<Rightarrow> None | Some (m, q') \<Rightarrow> match_chunk fuel (g m) q' t)" for r g t
      by (auto split: option.split simp del: match_chunk.simps simp: IH br)
    have esc: "(case p' of [] \<Rightarrow> None | d # q' \<Rightarrow> match_chunk (Suc fuel) (g d) q' t) =
        (case p' of [] \<Rightarrow> None | d # q' \<Rightarrow> match_chunk fuel (g d) q' t)" for g t
      by (auto split: list.split simp del: match_chunk.simps simp: IH)
    show ?thesis unfolding Cons
      by (subst match_chunk.simps(3) [of "Suc fuel" f c p' s],
          subst match_chunk.simps(3) [of fuel f c p' s])
        (simp only: Let_def split_beta, simp only: cls esc IH order_refl)
  qed simp
qed

lemma scan_lit_append: "scan_lit b p = (a, r) \<Longrightarrow> p = a @ r"
  by (induction b p arbitrary: a r rule: scan_lit.induct)
    (auto split: if_splits list.splits prod.splits)

lemma scan_chunk_append:
  assumes "scan_chunk p = (star, chunk, rest)"
  shows "p = takeWhile (\<lambda>c. c = CHR ''*'') p @ chunk @ rest"
proof -
  have "dropWhile (\<lambda>c. c = CHR ''*'') p = chunk @ rest"
    using assms by (auto simp: scan_chunk_def Let_def split: prod.splits dest: scan_lit_append)
  then show ?thesis by (metis takeWhile_dropWhile_id)
qed

lemma scan_chunk_star:
  assumes "scan_chunk p = (star, chunk, rest)"
  shows "star \<longleftrightarrow> takeWhile (\<lambda>c. c = CHR ''*'') p \<noteq> []"
  using assms by (cases p) (auto simp: scan_chunk_def has_prefix_def Let_def split: prod.splits)

lemma scan_chunk_progress:
  assumes "scan_chunk p = (star, chunk, rest)" and "p \<noteq> []"
  shows "length rest < length p"
proof (cases star)
  case True
  then have "takeWhile (\<lambda>c. c = CHR ''*'') p \<noteq> []"
    using scan_chunk_star [OF assms(1)] by simp
  then have "0 < length (takeWhile (\<lambda>c. c = CHR ''*'') p)" by simp
  moreover have "length p = length (takeWhile (\<lambda>c. c = CHR ''*'') p) + length chunk + length rest"
    using arg_cong [OF scan_chunk_append [OF assms(1)], of length] by simp
  ultimately show ?thesis by linarith
next
  case False
  then have tw: "takeWhile (\<lambda>c. c = CHR ''*'') p = []"
    using scan_chunk_star [OF assms(1)] by simp
  obtain c p' where p: "p = c # p'" using assms(2) by (cases p) auto
  have "c \<noteq> CHR ''*''" using tw p by auto
  then have "chunk \<noteq> []"
    using assms(1) by (auto simp: scan_chunk_def p Let_def split: if_splits list.splits prod.splits)
  moreover have "p = chunk @ rest" using scan_chunk_append [OF assms(1)] tw by simp
  ultimately show ?thesis by (cases chunk) auto
qed

lemma match_fuel_enough:
  "length p < fuel \<Longrightarrow> match_fuel (Suc fuel) p name = match_fuel fuel p name"
proof (induction fuel arbitrary: p name)
  case (Suc fuel)
  show ?case
  proof (cases "p = []")
    case False
    obtain star chunk rest where sc: "scan_chunk p = (star, chunk, rest)"
      by (cases "scan_chunk p")
    have "length rest < fuel"
      using scan_chunk_progress [OF sc False] Suc.prems by simp
    then have IH: "match_fuel (Suc fuel) rest t = match_fuel fuel rest t" for t
      by (rule Suc.IH)
    show ?thesis
      by (subst match_fuel.simps(2) [of "Suc fuel" p name],
          subst match_fuel.simps(2) [of fuel p name])
        (simp only: sc IH Let_def split_conv cong: option.case_cong)
  qed simp
qed simp

text \<open>
  A pattern of literals, \<open>*\<close> and \<open>?\<close> only (no class, no escape) matches a name with
  as many slashes as it has itself: a wildcard never spans a component. (A class may match a
  slash.)
\<close>

definition simple_glob :: "string \<Rightarrow> bool" where
  "simple_glob p \<longleftrightarrow> CHR ''['' \<notin> set p \<and> CHR 0x5C \<notin> set p"

lemma count_char_append [simp]: "count_char c (s @ t) = count_char c s + count_char c t"
  by (simp add: count_char_def)

lemma count_char_0_iff: "count_char c s = 0 \<longleftrightarrow> c \<notin> set s"
  by (auto simp: count_char_def filter_empty_conv)

lemma decode_rune_bytes:
  assumes "x \<in> set (take (snd (decode_rune s)) s)"
  shows "x = hd s \<or> cont_byte x"
proof (cases s)
  case (Cons a t)
  consider "t = []" | b where "t = [b]" | b c where "t = [b, c]" | b c d r where "t = b # c # d # r"
    by (metis list.exhaust)
  then show ?thesis
    using assms Cons
    by cases (auto simp: decode_rune_def Let_def split: if_splits)
qed (use assms in simp)

lemma decode_rune_no_slash:
  "hd s \<noteq> CHR ''/'' \<Longrightarrow> CHR ''/'' \<notin> set (take (snd (decode_rune s)) s)"
  using decode_rune_bytes [of "CHR ''/''" s] by (auto simp: cont_byte_def)

lemma match_chunk_failed: "match_chunk fuel True p s = Some r \<Longrightarrow> r = None"
proof (induction fuel arbitrary: p s)
  case 0
  then show ?case by (cases p) auto
next
  case (Suc fuel)
  show ?case
  proof (cases p)
    case (Cons c q)
    then show ?thesis
      using Suc.prems by (cases q) (auto simp: Let_def split: if_splits option.splits dest!: Suc.IH)
  qed (use Suc.prems in simp)
qed

lemma match_chunk_slashes:
  "match_chunk fuel f p s = Some (Some t) \<Longrightarrow> simple_glob p \<Longrightarrow>
   \<exists>u. s = u @ t \<and> count_char CHR ''/'' u = count_char CHR ''/'' p"
proof (induction fuel f p s rule: match_chunk.induct)
  case (1 fuel failed s)
  then show ?case by (auto simp: count_char_def split: if_splits)
next
  case (2 failed c p s)
  then show ?case by simp
next
  case (3 fuel failed0 c p s)
  have simple: "simple_glob p" "c \<noteq> CHR ''[''" "c \<noteq> CHR 0x5C"
    using "3.prems" by (auto simp: simple_glob_def)
  have live: "\<not> (failed0 \<or> s = [])"
    using "3.prems" simple match_chunk_failed
    by (fastforce simp: Let_def split: if_splits)
  show ?case
  proof (cases "c = CHR ''?''")
    case True
    let ?n = "snd (decode_rune s)"
    have no: "hd s \<noteq> CHR ''/''"
      using "3.prems" True live match_chunk_failed by (fastforce simp: Let_def split: if_splits)
    have "match_chunk fuel False p (drop ?n s) = Some (Some t)"
      using "3.prems"(1) True live no by (simp add: Let_def)
    then obtain u where u: "drop ?n s = u @ t" "count_char CHR ''/'' u = count_char CHR ''/'' p"
      using "3.IH"(2) [OF refl] simple True live no by auto
    have "s = (take ?n s @ u) @ t" using u(1) by (metis append_assoc append_take_drop_id)
    moreover have "count_char CHR ''/'' (take ?n s) = 0"
      using decode_rune_no_slash no by (simp add: count_char_0_iff)
    ultimately show ?thesis using u(2) True
      by (intro exI [of _ "take ?n s @ u"]) (simp add: count_char_def)
  next
    case False
    have eq: "c = hd s"
      using "3.prems" False simple live match_chunk_failed
      by (fastforce simp: Let_def split: if_splits)
    have "match_chunk fuel False p (tl s) = Some (Some t)"
      using "3.prems"(1) False simple live eq by (simp add: Let_def)
    then obtain u where u: "tl s = u @ t" "count_char CHR ''/'' u = count_char CHR ''/'' p"
      using "3.IH"(4) [OF refl] simple False live eq by auto
    have "s = (c # u) @ t" using u(1) live eq by (cases s) auto
    then show ?thesis using u(2) by (intro exI [of _ "c # u"]) (simp add: count_char_def)
  qed
qed

lemma skip_search_slashes:
  "skip_search chunk f name = Some (Some t) \<Longrightarrow> simple_glob chunk \<Longrightarrow>
   \<exists>u. name = u @ t \<and> count_char CHR ''/'' u = count_char CHR ''/'' chunk"
proof (induction name)
  case (Cons c name)
  have c: "c \<noteq> CHR ''/''" using Cons.prems by (auto split: if_splits)
  consider "matchChunk chunk name = Some (Some t)" | "skip_search chunk f name = Some (Some t)"
    using Cons.prems(1) c by (auto split: option.splits if_splits)
  then have "\<exists>u. name = u @ t \<and> count_char CHR ''/'' u = count_char CHR ''/'' chunk"
  proof cases
    case 1
    then show ?thesis using Cons.prems(2) match_chunk_slashes by (simp add: matchChunk_def)
  next
    case 2
    then show ?thesis using Cons.IH Cons.prems(2) by simp
  qed
  then obtain u where "name = u @ t" "count_char CHR ''/'' u = count_char CHR ''/'' chunk" by blast
  then show ?case using c by (intro exI [of _ "c # u"]) (simp add: count_char_def)
qed simp

lemma match_fuel_slashes:
  "match_fuel fuel p name = Some True \<Longrightarrow> simple_glob p \<Longrightarrow>
   count_char CHR ''/'' name = count_char CHR ''/'' p"
proof (induction fuel arbitrary: p name)
  case (Suc fuel)
  show ?case
  proof (cases "p = []")
    case False
    obtain star chunk rest where sc: "scan_chunk p = (star, chunk, rest)"
      by (cases "scan_chunk p")
    let ?tw = "takeWhile (\<lambda>c. c = CHR ''*'') p"
    have p: "p = ?tw @ chunk @ rest" by (rule scan_chunk_append [OF sc])
    have tw: "count_char CHR ''/'' ?tw = 0"
      by (auto simp: count_char_0_iff dest: set_takeWhileD)
    have cp: "count_char CHR ''/'' p = count_char CHR ''/'' chunk + count_char CHR ''/'' rest"
      using arg_cong [OF p, of "count_char CHR ''/''"] tw by simp
    have simple: "simple_glob chunk" "simple_glob rest"
      using Suc.prems(2) by (subst (asm) p, simp add: simple_glob_def)+
    show ?thesis
    proof (cases "star \<and> chunk = []")
      case True
      have "scan_lit False (dropWhile (\<lambda>c. c = CHR ''*'') p) = ([], rest)"
        using sc True by (auto simp: scan_chunk_def Let_def split: prod.splits)
      then have "rest = []"
        using dropWhile_eq_Cons_conv [of "\<lambda>c. c = CHR ''*''" p]
        by (cases "dropWhile (\<lambda>c. c = CHR ''*'') p")
          (auto split: if_splits list.splits prod.splits)
      moreover have "CHR ''/'' \<notin> set name" using Suc.prems(1) False True sc by (simp add: Let_def)
      moreover have "count_char CHR ''/'' chunk = 0" using True by (simp add: count_char_def)
      ultimately show ?thesis using cp by (auto simp: count_char_def filter_empty_conv)
    next
      case no: False
      then obtain t where t: "match_fuel fuel rest t = Some True"
        and "matchChunk chunk name = Some (Some t) \<or>
             skip_search chunk (rest = []) name = Some (Some t)"
        using Suc.prems(1) False sc by (auto simp: Let_def split: option.splits if_splits)
      then obtain u where "name = u @ t" "count_char CHR ''/'' u = count_char CHR ''/'' chunk"
        using simple(1) match_chunk_slashes skip_search_slashes unfolding matchChunk_def by blast
      then show ?thesis using Suc.IH [OF t simple(2)] cp by simp
    qed
  qed (use Suc.prems in \<open>simp add: count_char_def\<close>)
qed simp

lemma path_match_slashes:
  "path_match p name = Some True \<Longrightarrow> simple_glob p \<Longrightarrow>
   count_char CHR ''/'' name = count_char CHR ''/'' p"
  unfolding path_match_def by (rule match_fuel_slashes)

end
