(* ===== verification/GoNet.thy ===== *)
theory GoNet
  imports Prelude "HOL-Library.Word"
begin

unbundle bit_operations_syntax

text \<open>
  Go's package \<^verbatim>\<open>net\<close>, as far as the network policy uses it: addresses in the 4-byte and
  the 16-byte form, the text forms of IPv4 and IPv6 addresses and of CIDR blocks, membership in a
  block, the address classes and \<open>SplitHostPort\<close>.
\<close>

type_synonym byte = "8 word"

type_synonym ip = "byte list"

record ipnet =
  net_ip :: ip
  net_mask :: "byte list"

subsection \<open>Forms of an address\<close>

definition v4_prefix :: "byte list" where
  "v4_prefix = replicate 10 0 @ [0xFF, 0xFF]"

definition to4 :: "ip \<Rightarrow> ip option" where
  "to4 p =
     (if length p = 4 then Some p
      else if length p = 16 \<and> take 12 p = v4_prefix then Some (drop 12 p)
      else None)"

definition norm4 :: "ip \<Rightarrow> ip" where
  "norm4 p = (case to4 p of Some q \<Rightarrow> q | None \<Rightarrow> p)"

subsection \<open>Parsing\<close>

fun all_some :: "'a option list \<Rightarrow> 'a list option" where
  "all_some [] = Some []"
| "all_some (x # xs) =
     (case x of None \<Rightarrow> None | Some a \<Rightarrow> (case all_some xs of None \<Rightarrow> None | Some l \<Rightarrow> Some (a # l)))"

definition parse_octet :: "string \<Rightarrow> byte option" where
  "parse_octet s =
     (if s \<noteq> [] \<and> list_all is_digit s \<and> (length s = 1 \<or> hd s \<noteq> CHR ''0'') \<and> dec_val s \<le> 255
      then Some (of_nat (dec_val s)) else None)"

definition parse_ipv4 :: "string \<Rightarrow> ip option" where
  "parse_ipv4 s =
     (let fs = split_on CHR ''.'' s
      in if length fs = 4 then all_some (map parse_octet fs) else None)"

definition hex_val :: "char \<Rightarrow> nat option" where
  "hex_val c =
     (let n = (of_char c :: nat) in
      if 48 \<le> n \<and> n \<le> 57 then Some (n - 48)
      else if 97 \<le> n \<and> n \<le> 102 then Some (n - 87)
      else if 65 \<le> n \<and> n \<le> 70 then Some (n - 55)
      else None)"

definition is_hex :: "char \<Rightarrow> bool" where
  "is_hex c \<longleftrightarrow> hex_val c \<noteq> None"

definition hex_group :: "string \<Rightarrow> nat" where
  "hex_group s = foldl (\<lambda>a c. a * 16 + (case hex_val c of Some d \<Rightarrow> d | None \<Rightarrow> 0)) 0 s"

text \<open>
  The groups of an IPv6 address: the bytes read so far, the position of the double colon, the rest
  of the text. At most eight groups fit (\<open>fuel\<close>).
\<close>

fun parse_groups :: "nat \<Rightarrow> byte list \<Rightarrow> nat option \<Rightarrow> string \<Rightarrow> (byte list \<times> nat option \<times> string) option"
  where
  "parse_groups 0 bs ell s = Some (bs, ell, s)"
| "parse_groups (Suc fuel) bs ell s =
     (let ds = takeWhile is_hex s; rest = drop (length ds) s in
      if ds = [] \<or> 4 < length ds then None
      else if has_prefix rest ''.'' then
        (if ell = None \<and> length bs \<noteq> 12 \<or> 16 < length bs + 4 then None
         else case parse_ipv4 s of None \<Rightarrow> None | Some q \<Rightarrow> Some (bs @ q, ell, []))
      else
        let v = hex_group ds;
            bs' = bs @ [of_nat (v div 256), of_nat (v mod 256)] in
        case rest of
          [] \<Rightarrow> Some (bs', ell, [])
        | c # t \<Rightarrow>
            if c \<noteq> CHR '':'' \<or> t = [] then None
            else if has_prefix t '':'' then
              (if ell \<noteq> None then None
               else if tl t = [] then Some (bs', Some (length bs'), [])
               else parse_groups fuel bs' (Some (length bs')) (tl t))
            else parse_groups fuel bs' ell t)"

definition expand_ell :: "byte list \<times> nat option \<times> string \<Rightarrow> ip option" where
  "expand_ell r =
     (case r of (bs, ell, s) \<Rightarrow>
        if s \<noteq> [] then None
        else if length bs < 16 then
          (case ell of
             None \<Rightarrow> None
           | Some e \<Rightarrow> Some (take e bs @ replicate (16 - length bs) 0 @ drop e bs))
        else if ell \<noteq> None then None else Some bs)"

definition parse_ipv6 :: "string \<Rightarrow> ip option" where
  "parse_ipv6 s =
     (if CHR ''%'' \<in> set s then None
      else if has_prefix s ''::'' then
        (if drop 2 s = [] then Some (replicate 16 0)
         else case parse_groups 8 [] (Some 0) (drop 2 s) of None \<Rightarrow> None | Some r \<Rightarrow> expand_ell r)
      else case parse_groups 8 [] None s of None \<Rightarrow> None | Some r \<Rightarrow> expand_ell r)"

text \<open>
  \<open>netip.ParseAddr\<close> without zones: the 16-byte form and the number of bits of the written form.
\<close>

definition parse_addr :: "string \<Rightarrow> (ip \<times> nat) option" where
  "parse_addr s =
     (case find (\<lambda>c. c \<in> {CHR ''.'', CHR '':'', CHR ''%''}) s of
        Some c \<Rightarrow>
          (if c = CHR ''.'' then map_option (\<lambda>q. (v4_prefix @ q, 32)) (parse_ipv4 s)
           else if c = CHR '':'' then map_option (\<lambda>q. (q, 128)) (parse_ipv6 s)
           else None)
      | None \<Rightarrow> None)"

definition ParseIP :: "string \<Rightarrow> ip option" where
  "ParseIP s = map_option fst (parse_addr s)"

text \<open>\<open>CIDRMask(ones, bits)\<close>: the mask byte with \<open>j\<close> leading ones.\<close>

definition mask_byte :: "nat \<Rightarrow> byte" where
  "mask_byte j = (if 8 \<le> j then 0xFF else push_bit (8 - j) 0xFF)"

definition cidr_mask :: "nat \<Rightarrow> nat \<Rightarrow> byte list" where
  "cidr_mask ones bits = map (\<lambda>i. mask_byte (ones - 8 * i)) [0..<bits div 8]"

definition mask_ip :: "ip \<Rightarrow> byte list \<Rightarrow> ip" where
  "mask_ip p m =
     (let q = (if length m = 4 \<and> length p = 16 \<and> take 12 p = v4_prefix then drop 12 p else p)
      in map2 (AND) q m)"

definition ParseCIDR :: "string \<Rightarrow> ipnet option" where
  "ParseCIDR s =
     (case cut_at CHR ''/'' s of (addr, m, found) \<Rightarrow>
        if \<not> found then None
        else case parse_addr addr of
               None \<Rightarrow> None
             | Some (p, bits) \<Rightarrow>
                 (if m \<noteq> [] \<and> list_all is_digit m \<and> dec_val m \<le> bits
                  then Some \<lparr>net_ip = mask_ip p (cidr_mask (dec_val m) bits),
                             net_mask = cidr_mask (dec_val m) bits\<rparr>
                  else None))"

subsection \<open>Membership and address classes\<close>

definition network_number_and_mask :: "ipnet \<Rightarrow> ip \<times> byte list" where
  "network_number_and_mask n =
     (let p = norm4 (net_ip n); m = net_mask n in
      if length p \<noteq> 4 \<and> length p \<noteq> 16 then ([], [])
      else if length m = 4 then (if length p = 4 then (p, m) else ([], []))
      else if length m = 16 then (p, if length p = 4 then drop 12 m else m)
      else ([], []))"

definition ipnet_contains :: "ipnet \<Rightarrow> ip \<Rightarrow> bool" where
  "ipnet_contains n p =
     (case network_number_and_mask n of (nn, m) \<Rightarrow>
        let q = norm4 p in
        length q = length nn \<and> (\<forall>i < length q. nn ! i AND m ! i = q ! i AND m ! i))"

definition v6_loopback :: ip where
  "v6_loopback = replicate 15 0 @ [1]"

definition ip_equal :: "ip \<Rightarrow> ip \<Rightarrow> bool" where
  "ip_equal p q \<longleftrightarrow> norm4 p = norm4 q"

definition IsLoopback :: "ip \<Rightarrow> bool" where
  "IsLoopback p = (case to4 p of Some q \<Rightarrow> q ! 0 = 127 | None \<Rightarrow> p = v6_loopback)"

definition IsPrivateRange :: "ip \<Rightarrow> bool" where
  "IsPrivateRange p =
     (case to4 p of
        Some q \<Rightarrow> q ! 0 = 10 \<or> (q ! 0 = 172 \<and> q ! 1 AND 0xF0 = 16) \<or> (q ! 0 = 192 \<and> q ! 1 = 168)
      | None \<Rightarrow> length p = 16 \<and> p ! 0 AND 0xFE = 0xFC)"

definition IsLinkLocalUnicast :: "ip \<Rightarrow> bool" where
  "IsLinkLocalUnicast p =
     (case to4 p of
        Some q \<Rightarrow> q ! 0 = 169 \<and> q ! 1 = 254
      | None \<Rightarrow> length p = 16 \<and> p ! 0 = 0xFE \<and> p ! 1 AND 0xC0 = 0x80)"

definition IsLinkLocalMulticast :: "ip \<Rightarrow> bool" where
  "IsLinkLocalMulticast p =
     (case to4 p of
        Some q \<Rightarrow> q ! 0 = 224 \<and> q ! 1 = 0 \<and> q ! 2 = 0
      | None \<Rightarrow> length p = 16 \<and> p ! 0 = 0xFF \<and> p ! 1 AND 0x0F = 2)"

definition IsInterfaceLocalMulticast :: "ip \<Rightarrow> bool" where
  "IsInterfaceLocalMulticast p \<longleftrightarrow> length p = 16 \<and> p ! 0 = 0xFF \<and> p ! 1 AND 0x0F = 1"

definition IsMulticast :: "ip \<Rightarrow> bool" where
  "IsMulticast p =
     (case to4 p of
        Some q \<Rightarrow> q ! 0 AND 0xF0 = 0xE0
      | None \<Rightarrow> length p = 16 \<and> p ! 0 = 0xFF)"

definition IsUnspecified :: "ip \<Rightarrow> bool" where
  "IsUnspecified p \<longleftrightarrow> norm4 p = [0, 0, 0, 0] \<or> p = replicate 16 0"

subsection \<open>Host and port\<close>

definition last_index :: "char \<Rightarrow> string \<Rightarrow> nat option" where
  "last_index c s = (if c \<in> set s then Some (length s - 1 - length (takeWhile (\<lambda>x. x \<noteq> c) (rev s))) else None)"

definition SplitHostPort :: "string \<Rightarrow> (string \<times> string) result" where
  "SplitHostPort hp =
     (case last_index CHR '':'' hp of
        None \<Rightarrow> Inl ''missing port in address''
      | Some i \<Rightarrow>
          if has_prefix hp ''['' then
            (if CHR '']'' \<notin> set hp then Inl ''missing ']' in address''
             else let e = length (takeWhile (\<lambda>c. c \<noteq> CHR '']'') hp) in
                  if e + 1 = length hp then Inl ''missing port in address''
                  else if e + 1 \<noteq> i then
                    (if hp ! (e + 1) = CHR '':'' then Inl ''too many colons in address''
                     else Inl ''missing port in address'')
                  else if CHR ''['' \<in> set (drop 1 hp) then Inl ''unexpected '[' in address''
                  else if CHR '']'' \<in> set (drop (e + 1) hp) then Inl ''unexpected ']' in address''
                  else Inr (drop 1 (take e hp), drop (i + 1) hp))
          else if CHR '':'' \<in> set (take i hp) then Inl ''too many colons in address''
          else if CHR ''['' \<in> set hp then Inl ''unexpected '[' in address''
          else if CHR '']'' \<in> set hp then Inl ''unexpected ']' in address''
          else Inr (take i hp, drop (i + 1) hp))"

subsection \<open>Facts\<close>

lemma norm4_v4 [simp]: "length p = 4 \<Longrightarrow> norm4 p = p"
  by (simp add: norm4_def to4_def)

lemma norm4_mapped [simp]: "length p = 4 \<Longrightarrow> norm4 (v4_prefix @ p) = p"
  by (simp add: norm4_def to4_def v4_prefix_def)

lemma norm4_norm4 [simp]: "norm4 (norm4 p) = norm4 p"
  by (auto simp: norm4_def to4_def)

lemma to4_norm4: "to4 (norm4 p) = to4 p"
  by (auto simp: norm4_def to4_def)

lemma ipnet_contains_norm4: "ipnet_contains n (norm4 p) = ipnet_contains n p"
  by (simp add: ipnet_contains_def)

text \<open>A byte is one of 256 values.\<close>

lemma byte_unat_less: "unat (x :: byte) < 256"
  using unsigned_less [of x] by simp

lemma byte_cases: "(\<And>n. n < 256 \<Longrightarrow> P (of_nat n :: byte)) \<Longrightarrow> P (x :: byte)"
  using byte_unat_less [of x] by (metis of_nat_unat ucast_id)

lemma byte_all_list: "\<forall>n \<in> set [0..<256]. P (of_nat n :: byte) \<Longrightarrow> P x"
  by (rule byte_cases) simp

lemma byte_and_F0: "x AND 0xF0 = (0xE0 :: byte) \<longleftrightarrow> 224 \<le> unat x \<and> unat x \<le> 239"
  by (rule byte_all_list) code_simp

lemma byte_and_F0_16: "x AND 0xF0 = (16 :: byte) \<longleftrightarrow> 16 \<le> unat x \<and> unat x \<le> 31"
  by (rule byte_all_list) code_simp

lemma byte_and_C0_64: "x AND 0xC0 = (64 :: byte) \<longleftrightarrow> 64 \<le> unat x \<and> unat x \<le> 127"
  by (rule byte_all_list) code_simp

end
