(* ===== verification/NetPolicy.thy ===== *)
theory NetPolicy
  imports GoNet
begin

unbundle bit_operations_syntax

text \<open>
  \<^verbatim>\<open>src/internal/netpolicy/netpolicy.go\<close>: the per-user \<open>network:\<close> block that limits
  where \<open>network/curl\<close> and \<open>network/ping\<close> may connect. Name resolution and the dial itself
  are the operating system's: they are parameters of \<open>DialContext\<close>, which records every address it
  dials. The lemmas give the decision rule of \<open>Check\<close>, the meaning of \<open>IsPrivate\<close> on
  IPv4 addresses in either form, and that a dial only ever goes to an address the policy permits.
\<close>

record policy =
  DenyPrivate :: bool
  Allow :: "string list"
  Deny :: "string list"

record rule =
  cidr :: "ipnet option"
  host :: string
  wild :: string

definition empty_rule :: rule where
  "empty_rule = \<lparr>cidr = None, host = [], wild = []\<rparr>"

definition parseRule :: "string \<Rightarrow> rule result" where
  "parseRule r0 =
     (let r = to_lower (trim_space r0) in
      if r = [] then Inl ''empty network rule''
      else case ParseCIDR r of
        Some n \<Rightarrow> Inr (empty_rule\<lparr>cidr := Some n\<rparr>)
      | None \<Rightarrow>
          (case ParseIP r of
             Some p \<Rightarrow>
               (let bits = (if to4 p = None then 128 else 32)
                in Inr (empty_rule\<lparr>cidr := Some \<lparr>net_ip = p, net_mask = cidr_mask bits bits\<rparr>\<rparr>))
           | None \<Rightarrow>
               if has_prefix r ''*.'' then Inr (empty_rule\<lparr>wild := drop 1 r\<rparr>)
               else if CHR ''/'' \<in> set r \<or> CHR ''*'' \<in> set r \<or> CHR '' '' \<in> set r
               then Inl (''invalid network rule '' @ quoted r @
                         '': expected a CIDR, IP, hostname or *.domain'')
               else Inr (empty_rule\<lparr>host := trim_suffix r ''.''\<rparr>)))"

text \<open>\<open>Validate\<close> reports the first rule, of the allow list and then the deny list, that does not parse.\<close>

fun validate_rules :: "string list \<Rightarrow> unit result" where
  "validate_rules [] = Inr ()"
| "validate_rules (r # rs) =
     (case parseRule r of Inl e \<Rightarrow> Inl e | Inr _ \<Rightarrow> validate_rules rs)"

definition Validate :: "policy \<Rightarrow> unit result" where
  "Validate p = (case validate_rules (Allow p) of Inl e \<Rightarrow> Inl e | Inr _ \<Rightarrow> validate_rules (Deny p))"

text \<open>One rule against a destination: the body of the loop in \<open>matches\<close>.\<close>

definition rule_matches :: "rule \<Rightarrow> string \<Rightarrow> ip option \<Rightarrow> bool" where
  "rule_matches r h p =
     (case cidr r of
        Some n \<Rightarrow> (case p of Some q \<Rightarrow> ipnet_contains n q | None \<Rightarrow> False)
      | None \<Rightarrow>
          if wild r \<noteq> [] then has_suffix h (wild r)
          else if host r \<noteq> [] then h = host r
          else False)"

fun matches_loop :: "string list \<Rightarrow> string \<Rightarrow> ip option \<Rightarrow> bool" where
  "matches_loop [] h p = False"
| "matches_loop (s # rs) h p =
     (case parseRule s of
        Inl _ \<Rightarrow> matches_loop rs h p
      | Inr r \<Rightarrow> (if rule_matches r h p then True else matches_loop rs h p))"

definition matches :: "string list \<Rightarrow> string \<Rightarrow> ip option \<Rightarrow> bool" where
  "matches rules h p = matches_loop rules (trim_suffix (to_lower h) ''.'') p"

definition cgnat :: ipnet where
  "cgnat = \<lparr>net_ip = v4_prefix @ [100, 64, 0, 0], net_mask = cidr_mask 10 32\<rparr>"

definition IsPrivate :: "ip \<Rightarrow> bool" where
  "IsPrivate ip0 =
     (case to4 ip0 of
        Some v4 \<Rightarrow>
          v4 ! 0 = 0 \<or>
          IsLoopback v4 \<or> IsPrivateRange v4 \<or> IsLinkLocalUnicast v4 \<or> IsLinkLocalMulticast v4 \<or>
          IsInterfaceLocalMulticast v4 \<or> IsMulticast v4 \<or> IsUnspecified v4 \<or> ipnet_contains cgnat v4
      | None \<Rightarrow>
          IsLoopback ip0 \<or> IsPrivateRange ip0 \<or> IsLinkLocalUnicast ip0 \<or> IsLinkLocalMulticast ip0 \<or>
          IsInterfaceLocalMulticast ip0 \<or> IsMulticast ip0 \<or> IsUnspecified ip0 \<or>
          ipnet_contains cgnat ip0)"

definition Check :: "policy option \<Rightarrow> string \<Rightarrow> ip \<Rightarrow> unit result" where
  "Check po h p =
     (case po of
        None \<Rightarrow> Inr ()
      | Some pol \<Rightarrow>
          if matches (Deny pol) h (Some p)
          then Inl (''destination '' @ h @ '' is blocked by this user's network policy (deny list)'')
          else if matches (Allow pol) h (Some p) then Inr ()
          else if DenyPrivate pol \<and> IsPrivate p
          then Inl (''destination '' @ h @
                    '' is a private/internal address, blocked by this user's network policy (deny_private)'')
          else Inr ())"

text \<open>
  \<open>DialContext\<close>. \<open>lookup\<close> resolves a host name; \<open>dial p port\<close> connects to the address
  \<open>p\<close>; \<open>dial_host\<close> is the plain dial, by name, that a missing policy leaves in place. The
  second component lists the addresses dialled, in order.
\<close>

fun dial_loop ::
  "policy \<Rightarrow> string \<Rightarrow> (ip \<Rightarrow> 'c result) \<Rightarrow> goerr option \<Rightarrow> ip list \<Rightarrow> 'c result \<times> ip list" where
  "dial_loop pol h dial firstErr [] =
     (Inl (case firstErr of Some e \<Rightarrow> e | None \<Rightarrow> ''no addresses found for '' @ h), [])"
| "dial_loop pol h dial firstErr (p # ps) =
     (case Check (Some pol) h p of
        Inl e \<Rightarrow> dial_loop pol h dial (if firstErr = None then Some e else firstErr) ps
      | Inr _ \<Rightarrow>
          (case dial p of
             Inr c \<Rightarrow> (Inr c, [p])
           | Inl e \<Rightarrow>
               (let (r, ds) = dial_loop pol h dial (if firstErr = None then Some e else firstErr) ps
                in (r, p # ds))))"

definition DialContext ::
  "policy option \<Rightarrow> (string \<Rightarrow> ip list result) \<Rightarrow> (ip \<Rightarrow> string \<Rightarrow> 'c result) \<Rightarrow>
   (string \<Rightarrow> 'c result) \<Rightarrow> string \<Rightarrow> 'c result \<times> ip list" where
  "DialContext po lookup dial dial_host addr =
     (case po of
        None \<Rightarrow> (dial_host addr, [])
      | Some pol \<Rightarrow>
          (case SplitHostPort addr of
             Inl e \<Rightarrow> (Inl e, [])
           | Inr (h, port) \<Rightarrow>
               (case ParseIP h of
                  Some p \<Rightarrow> dial_loop pol h (\<lambda>q. dial q port) None [p]
                | None \<Rightarrow>
                    (case lookup h of
                       Inl e \<Rightarrow> (Inl e, [])
                     | Inr ps \<Rightarrow> dial_loop pol h (\<lambda>q. dial q port) None ps))))"

subsection \<open>Facts\<close>

lemma Check_ok_iff:
  "Check (Some pol) h p = Inr () \<longleftrightarrow>
   \<not> matches (Deny pol) h (Some p) \<and>
   (matches (Allow pol) h (Some p) \<or> \<not> (DenyPrivate pol \<and> IsPrivate p))"
  by (simp add: Check_def)

lemma matches_iff:
  "matches rules h p \<longleftrightarrow>
   (\<exists>s \<in> set rules. \<exists>r. parseRule s = Inr r \<and> rule_matches r (trim_suffix (to_lower h) ''.'') p)"
proof -
  have "matches_loop rules h' p \<longleftrightarrow> (\<exists>s \<in> set rules. \<exists>r. parseRule s = Inr r \<and> rule_matches r h' p)"
    for h' by (induction rules) (auto split: sum.splits)
  then show ?thesis by (simp add: matches_def)
qed

text \<open>The rule kinds are exclusive, and a parsed rule is never the empty one.\<close>

lemma trim_suffix_dot: "trim_suffix r ''.'' = [] \<Longrightarrow> r = [] \<or> r = ''.''"
  by (auto simp: trim_suffix_def gostr suffix_def split: if_splits)

lemma dial_loop_dialled:
  assumes "dial_loop pol h dial fe ps = (r, ds)" and "d \<in> set ds"
  shows "d \<in> set ps \<and> Check (Some pol) h d = Inr ()"
  using assms
proof (induction ps arbitrary: fe r ds)
  case (Cons p ps)
  show ?case
  proof (cases "Check (Some pol) h p")
    case (Inl e)
    then show ?thesis using Cons by auto
  next
    case (Inr u)
    show ?thesis
    proof (cases "dial p")
      case (Inl e)
      obtain r' ds' where rest: "dial_loop pol h dial (if fe = None then Some e else fe) ps = (r', ds')"
        by fastforce
      have "ds = p # ds'" using Cons.prems(1) Inl Inr rest by simp
      then show ?thesis using Cons.IH [OF rest] Cons.prems(2) Inr by auto
    qed (use Cons.prems Inr in auto)
  qed
qed simp

lemma dial_loop_connected:
  assumes "dial_loop pol h dial fe ps = (Inr c, ds)"
  shows "\<exists>d. ds \<noteq> [] \<and> last ds = d \<and> dial d = Inr c"
  using assms
proof (induction ps arbitrary: fe ds)
  case (Cons p ps)
  show ?case
  proof (cases "Check (Some pol) h p")
    case (Inl e)
    then show ?thesis using Cons by auto
  next
    case (Inr u)
    then show ?thesis using Cons by (cases "dial p") (fastforce split: prod.splits)+
  qed
qed simp

lemma mask_byte_10_32: "cidr_mask 10 32 = [0xFF, 0xC0, 0, 0]"
  by (simp add: cidr_mask_def mask_byte_def upt_rec)

lemma byte_and_FF [simp]: "(x :: byte) AND 0xFF = x"
  by (rule byte_all_list [where P = "\<lambda>x. x AND 0xFF = x"]) code_simp

lemma cgnat_contains:
  "ipnet_contains cgnat [a, b, c, d] \<longleftrightarrow> a = 100 \<and> 64 \<le> unat b \<and> unat b \<le> 127"
proof -
  have "network_number_and_mask cgnat = ([100, 64, 0, 0], [0xFF, 0xC0, 0, 0])"
    by (simp add: network_number_and_mask_def cgnat_def mask_byte_10_32)
  then have "ipnet_contains cgnat [a, b, c, d] \<longleftrightarrow> 100 = a \<and> 64 = b AND 0xC0"
    by (auto simp: ipnet_contains_def All_less_Suc numeral_eq_Suc)
  then show ?thesis using byte_and_C0_64 [of b] by auto
qed

text \<open>The non-public IPv4 ranges, written out.\<close>

definition nonpublic_v4 :: "ip \<Rightarrow> bool" where
  "nonpublic_v4 p =
     (let a = unat (p ! 0); b = unat (p ! 1) in
      a = 0 \<or> a = 10 \<or> a = 127 \<or> (a = 100 \<and> 64 \<le> b \<and> b \<le> 127) \<or> (a = 169 \<and> b = 254) \<or>
      (a = 172 \<and> 16 \<le> b \<and> b \<le> 31) \<or> (a = 192 \<and> b = 168) \<or> (224 \<le> a \<and> a \<le> 239))"

lemma byte_eq_iff: "(x :: byte) = y \<longleftrightarrow> unat x = unat y"
  by (simp add: word_unat_eq_iff)

lemma IsPrivate_v4_bytes:
  "IsPrivate [a, b, c, d] \<longleftrightarrow> nonpublic_v4 [a, b, c, d]"
proof -
  have t: "to4 [a, b, c, d] = Some [a, b, c, d]" by (simp add: to4_def)
  have un: "IsUnspecified [a, b, c, d] \<Longrightarrow> a = 0"
    by (auto simp: IsUnspecified_def norm4_def t dest: arg_cong [of _ _ length])
  have ll: "IsLinkLocalMulticast [a, b, c, d] \<Longrightarrow> 224 \<le> unat a \<and> unat a \<le> 239"
    by (simp add: IsLinkLocalMulticast_def t)
  have kinds:
    "IsLoopback [a, b, c, d] \<longleftrightarrow> unat a = 127"
    "IsPrivateRange [a, b, c, d] \<longleftrightarrow>
       unat a = 10 \<or> (unat a = 172 \<and> 16 \<le> unat b \<and> unat b \<le> 31) \<or> (unat a = 192 \<and> unat b = 168)"
    "IsLinkLocalUnicast [a, b, c, d] \<longleftrightarrow> unat a = 169 \<and> unat b = 254"
    "\<not> IsInterfaceLocalMulticast [a, b, c, d]"
    "IsMulticast [a, b, c, d] \<longleftrightarrow> 224 \<le> unat a \<and> unat a \<le> 239"
    using byte_and_F0 [of a] byte_and_F0_16 [of b]
    by (simp_all add: t IsLoopback_def IsPrivateRange_def IsLinkLocalUnicast_def byte_eq_iff
        IsInterfaceLocalMulticast_def IsMulticast_def)
  have "IsPrivate [a, b, c, d] \<longleftrightarrow>
      unat a = 0 \<or> IsLoopback [a, b, c, d] \<or> IsPrivateRange [a, b, c, d] \<or>
      IsLinkLocalUnicast [a, b, c, d] \<or> IsMulticast [a, b, c, d] \<or> ipnet_contains cgnat [a, b, c, d]"
    using un ll kinds(4,5) by (auto simp: IsPrivate_def t byte_eq_iff)
  then show ?thesis
    unfolding kinds cgnat_contains nonpublic_v4_def Let_def by (simp add: byte_eq_iff) blast
qed

text \<open>
  \<open>IsPrivate\<close> on an IPv4 address, written in four bytes or mapped into IPv6
  (\<open>::ffff:a.b.c.d\<close>), is exactly membership in the non-public ranges: 0.0.0.0/8, 10/8,
  100.64/10, 127/8, 169.254/16, 172.16/12, 192.168/16 and 224/4. The cloud metadata address
  169.254.169.254 is among them however it is written.
\<close>

lemma IsPrivate_v4:
  assumes "to4 p = Some q"
  shows "IsPrivate p \<longleftrightarrow> nonpublic_v4 q"
proof -
  have "length q = 4" using assms by (auto simp: to4_def split: if_splits)
  then obtain a b c d where q: "q = [a, b, c, d]"
    by (auto simp: numeral_eq_Suc length_Suc_conv)
  have "to4 q = Some q" by (simp add: q to4_def)
  then have "IsPrivate p = IsPrivate q" using assms by (simp add: IsPrivate_def)
  then show ?thesis using IsPrivate_v4_bytes by (simp add: q)
qed

text \<open>
  With a policy, every address the dialer connects to is one it obtained for this very call (the
  literal in the destination, or an answer of the one lookup) and one that \<open>Check\<close> permits
  under the name that was asked for; a connection it returns was made to the last address dialled.
  No second resolution happens between the check and the connection.
\<close>

lemma DialContext_only_permitted:
  assumes run: "DialContext (Some pol) lookup dial dial_host addr = (r, ds)" and d: "d \<in> set ds"
  shows "\<exists>h port. SplitHostPort addr = Inr (h, port) \<and>
           Check (Some pol) h d = Inr () \<and>
           (ParseIP h = Some d \<or> (\<exists>ps. lookup h = Inr ps \<and> d \<in> set ps)) \<and>
           (case r of Inr c \<Rightarrow> dial (last ds) port = Inr c | Inl _ \<Rightarrow> True)"
proof -
  obtain h port where hp: "SplitHostPort addr = Inr (h, port)"
    using run d by (auto simp: DialContext_def split: sum.splits)
  obtain ps where ps: "(\<exists>q. ParseIP h = Some q \<and> ps = [q]) \<or> lookup h = Inr ps"
    and loop: "dial_loop pol h (\<lambda>q. dial q port) None ps = (r, ds)"
    using run d hp
    by (auto simp: DialContext_def simp del: dial_loop.simps split: sum.splits option.splits)
  have "d \<in> set ps" "Check (Some pol) h d = Inr ()"
    using dial_loop_dialled [OF loop d] by auto
  moreover have "case r of Inr c \<Rightarrow> dial (last ds) port = Inr c | Inl _ \<Rightarrow> True"
    using dial_loop_connected loop by (fastforce split: sum.split)
  ultimately show ?thesis using hp ps by auto
qed

lemma ex_DialContext_only_permitted:
  "\<exists>h port. SplitHostPort ''8.8.8.8:53'' = Inr (h, port) \<and>
      Check (Some \<lparr>DenyPrivate = True, Allow = [], Deny = []\<rparr>) h (v4_prefix @ [8, 8, 8, 8]) = Inr ()"
proof -
  have run: "DialContext (Some \<lparr>DenyPrivate = True, Allow = [], Deny = []\<rparr>) (\<lambda>_. Inl [])
      (\<lambda>p port. Inr (p, port)) (\<lambda>_. Inl []) ''8.8.8.8:53'' =
    (Inr (v4_prefix @ [8, 8, 8, 8], ''53''), [v4_prefix @ [8, 8, 8, 8]])"
    by code_simp
  show ?thesis
    using DialContext_only_permitted [OF run, of "v4_prefix @ [8, 8, 8, 8]"] by auto
qed

text \<open>
  The decision of \<open>Check\<close>: the deny list wins over everything, then the allow list over
  \<open>deny_private\<close>, and what neither names is blocked exactly when \<open>deny_private\<close> is set
  and the address is not public. A list matches through any one of its rules; a rule that does not
  parse matches nothing.
\<close>

lemma Check_decision:
  "Check (Some pol) h p = Inr () \<longleftrightarrow>
   (let hit = (\<lambda>rules. \<exists>s r. s \<in> set rules \<and> parseRule s = Inr r \<and>
                  rule_matches r (trim_suffix (to_lower h) ''.'') (Some p))
    in \<not> hit (Deny pol) \<and> (hit (Allow pol) \<or> \<not> (DenyPrivate pol \<and> IsPrivate p)))"
  by (auto simp: Check_ok_iff matches_iff Let_def)

end
