(* ===== verification/DockerAllow.thy ===== *)
theory DockerAllow
  imports GoPath
begin

text \<open>
  \<^verbatim>\<open>src/internal/docker/allow.go\<close>: the whole boundary of the \<open>docker/*\<close> tools. The
  Engine's answer to \<open>GET /containers/{ref}/json\<close> is a parameter \<open>inspect\<close>. The lemmas
  show that an identifier that passes \<open>ValidIdentifier\<close> is one path segment, and that
  \<open>Authorize\<close> returns the identity of a container the allow list covers by its real name or ID.
\<close>

definition maxIdentifier :: nat where
  "maxIdentifier = 255"

definition alnum :: "char \<Rightarrow> bool" where
  "alnum c \<longleftrightarrow>
     (let n = (of_char c :: nat) in
      (97 \<le> n \<and> n \<le> 122) \<or> (65 \<le> n \<and> n \<le> 90) \<or> (48 \<le> n \<and> n \<le> 57))"

fun valid_id_chars :: "nat \<Rightarrow> string \<Rightarrow> char option" where
  "valid_id_chars i [] = None"
| "valid_id_chars i (c # s) =
     (if alnum c then valid_id_chars (Suc i) s
      else if 0 < i \<and> (c = CHR ''_'' \<or> c = CHR ''.'' \<or> c = CHR ''-'') then valid_id_chars (Suc i) s
      else Some c)"

definition ValidIdentifier :: "string \<Rightarrow> unit result" where
  "ValidIdentifier s =
     (if s = [] then Inl ''container name or ID is required''
      else if maxIdentifier < length s
      then Inl (''container identifier is too long ('' @ nat_str (length s) @ '' characters, maximum '' @
                nat_str maxIdentifier @ '')'')
      else case valid_id_chars 0 s of
             None \<Rightarrow> Inr ()
           | Some c \<Rightarrow> Inl (''invalid container identifier '' @ quoted s @
               '': Docker names and IDs match [a-zA-Z0-9][a-zA-Z0-9_.-]+, and '' @ quoted [c] @
               '' is refused rather than cleaned up''))"

definition image_char :: "char \<Rightarrow> bool" where
  "image_char c \<longleftrightarrow> alnum c \<or>
     c \<in> {CHR ''_'', CHR ''.'', CHR ''-'', CHR ''/'', CHR '':'', CHR ''@'', CHR ''+''}"

definition ValidImageRef :: "string \<Rightarrow> unit result" where
  "ValidImageRef s =
     (if s = [] then Inl ''image name or ID is required''
      else if maxIdentifier * 2 < length s
      then Inl (''image reference is too long ('' @ nat_str (length s) @ '' characters)'')
      else if has_prefix s ''/''
      then Inl (''invalid image reference '' @ quoted s @ '': must not start with /'')
      else case find (\<lambda>seg. seg = ''.'' \<or> seg = ''..'' \<or> seg = []) (split_on CHR ''/'' s) of
             Some seg \<Rightarrow> Inl (''invalid image reference '' @ quoted s @ '': path segments like '' @
                             quoted seg @ '' are refused'')
           | None \<Rightarrow>
               (case find (\<lambda>c. \<not> image_char c) s of
                  Some c \<Rightarrow> Inl (''invalid image reference '' @ quoted s @ '': character '' @
                                quoted [c] @ '' is not allowed'')
                | None \<Rightarrow> Inr ()))"

definition Allowed :: "string \<Rightarrow> string \<Rightarrow> string list \<Rightarrow> bool" where
  "Allowed name0 cid allow =
     (if allow = [] then False
      else let name = trim_prefix name0 ''/''; short = (if 12 < length cid then take 12 cid else cid) in
           list_ex (\<lambda>pat. list_ex (\<lambda>cand. cand \<noteq> [] \<and> path_match pat cand = Some True)
                            [name, cid, short]) allow)"

record container =
  ct_ID :: string
  ct_Name :: string

definition Resolve :: "(string \<Rightarrow> container result) \<Rightarrow> string \<Rightarrow> (string \<times> string) result" where
  "Resolve inspect ref =
     (case inspect ref of
        Inl e \<Rightarrow> Inl e
      | Inr ct \<Rightarrow>
          if ct_ID ct = [] then Inl (''container '' @ quoted ref @ '' could not be resolved'')
          else Inr (trim_prefix (ct_Name ct) ''/'', ct_ID ct))"

definition Authorize ::
  "(string \<Rightarrow> container result) \<Rightarrow> string \<Rightarrow> string list \<Rightarrow> (string \<times> string) result" where
  "Authorize inspect ref allow =
     (case ValidIdentifier ref of
        Inl e \<Rightarrow> Inl e
      | Inr _ \<Rightarrow>
          if allow = []
          then Inl ''not authorized: no containers: list in this tool's grant in mcp-sudo.yaml - list the containers it may touch, or containers: [*] for all of them''
          else case Resolve inspect ref of
                 Inl e \<Rightarrow> Inl e
               | Inr (name, cid) \<Rightarrow>
                   if \<not> Allowed name cid allow
                   then Inl (''not authorized to act on container '' @ name @ '' ('' @ take 12 cid @
                             ''): it is not in this tool's containers: list in mcp-sudo.yaml'')
                   else Inr (cid, name))"

definition PruneTargets :: "string list" where
  "PruneTargets = [''containers'', ''images'', ''volumes'', ''networks'', ''build-cache'']"

fun PruneAllowed :: "string \<Rightarrow> string list \<Rightarrow> bool" where
  "PruneAllowed t [] = False"
| "PruneAllowed t (a # as) = (if a = t then True else PruneAllowed t as)"

definition Structured :: "string \<Rightarrow> bool" where
  "Structured f \<longleftrightarrow> f \<in> set [''json'', ''yaml'', ''table'', ''wide'']"

subsection \<open>Facts\<close>

lemma PruneAllowed_iff [simp]: "PruneAllowed t as \<longleftrightarrow> t \<in> set as"
  by (induction as) auto

lemma valid_id_chars_None:
  "valid_id_chars i s = None \<Longrightarrow> c \<in> set s \<Longrightarrow> alnum c \<or> c \<in> {CHR ''_'', CHR ''.'', CHR ''-''}"
  by (induction i s rule: valid_id_chars.induct) (auto split: if_splits)

lemma valid_id_chars_head:
  "valid_id_chars 0 (c # s) = None \<Longrightarrow> alnum c"
  by (auto split: if_splits)

text \<open>
  An identifier that passes \<open>ValidIdentifier\<close> is a single, ordinary path segment: it has no
  slash and no percent sign, it is not a dot segment and it does not start with a dash. Put into the
  Engine's URL it can address nothing but the container it names.
\<close>

lemma ValidIdentifier_segment:
  assumes "ValidIdentifier s = Inr ()"
  shows "plain_comp s \<and> CHR ''%'' \<notin> set s \<and> hd s \<noteq> CHR ''-'' \<and>
    path_comps (''/containers/'' @ s @ ''/json'') = [''containers'', s, ''json'']"
proof -
  have ne: "s \<noteq> []" and chars: "valid_id_chars 0 s = None"
    using assms by (auto simp: ValidIdentifier_def split: if_splits option.splits)
  obtain c t where s: "s = c # t" using ne by (cases s) auto
  have head: "alnum c" using chars valid_id_chars_head by (simp add: s del: valid_id_chars.simps)
  have no: "x \<notin> set s" if "\<not> alnum x" "x \<notin> {CHR ''_'', CHR ''.'', CHR ''-''}" for x
    using valid_id_chars_None [OF chars] that by blast
  have "c \<noteq> CHR ''.''" "c \<noteq> CHR ''-''" using head by (auto simp: alnum_def)
  then have plain: "plain_comp s" and "hd s \<noteq> CHR ''-''"
    using no [of "CHR ''/''"] by (auto simp: plain_comp_def s alnum_def)
  moreover have "CHR ''%'' \<notin> set s" using no [of "CHR ''%''"] by (simp add: alnum_def)
  moreover have "path_comps (CHR ''/'' # join_with ''/'' [''containers'', s, ''json'']) =
      [''containers'', s, ''json'']"
    using plain by (intro path_comps_render) (auto simp: plain_comp_def)
  ultimately show ?thesis by simp
qed

text \<open>
  \<open>Authorize\<close> resolves first and checks then: what it returns is the identity the Engine
  gave for the reference, and one pattern of the allow list matches the container's own name, its
  full ID or its 12-character ID. An empty list, or a reference that is not an identifier, authorizes nothing
  whatever the Engine answers.
\<close>

lemma Authorize_sound:
  "Authorize inspect ref allow = Inr (cid, name) \<longleftrightarrow>
   ValidIdentifier ref = Inr () \<and>
   (\<exists>ct. inspect ref = Inr ct \<and> cid = ct_ID ct \<and> cid \<noteq> [] \<and> name = trim_prefix (ct_Name ct) ''/'') \<and>
   (\<exists>pat cand. pat \<in> set allow \<and> cand \<in> {trim_prefix name ''/'', cid, take 12 cid} \<and> cand \<noteq> [] \<and>
      path_match pat cand = Some True)"
proof -
  have short: "(if 12 < length cid then take 12 cid else cid) = take 12 cid" by simp
  have "Allowed name cid allow \<longleftrightarrow>
      (\<exists>pat cand. pat \<in> set allow \<and> cand \<in> {trim_prefix name ''/'', cid, take 12 cid} \<and> cand \<noteq> [] \<and>
        path_match pat cand = Some True)"
    unfolding Allowed_def Let_def short list_ex_iff by (auto simp del: take_eq_Nil split: if_splits) 
  moreover have "Authorize inspect ref allow = Inr (cid, name) \<longleftrightarrow>
      ValidIdentifier ref = Inr () \<and> allow \<noteq> [] \<and> Resolve inspect ref = Inr (name, cid) \<and>
      Allowed name cid allow"
    by (auto simp: Authorize_def split: sum.splits if_splits)
  moreover have "Resolve inspect ref = Inr (name, cid) \<longleftrightarrow>
      (\<exists>ct. inspect ref = Inr ct \<and> cid = ct_ID ct \<and> cid \<noteq> [] \<and> name = trim_prefix (ct_Name ct) ''/'')"
    by (auto simp: Resolve_def split: sum.splits if_splits)
  moreover have "Allowed name cid allow \<Longrightarrow> allow \<noteq> []" by (auto simp: Allowed_def)
  ultimately show ?thesis by blast
qed

end
