(* ===== verification/SudoConfig.thy ===== *)
theory SudoConfig
  imports GoPath NetPolicy DockerAllow
begin

text \<open>
  \<^verbatim>\<open>src/internal/config/sudo.go\<close>: the grants of \<^verbatim>\<open>mcp-sudo.yaml\<close>, their validation
  and every question the daemon asks them. Go maps are association lists with distinct keys; the YAML
  decoder (a third-party package) is a parameter that yields the decoded file. The lemmas give the
  allow-list test its meaning on path components, state what a file accepted by a strict load
  guarantees, and what the sysctl and crontab rules can grant.
\<close>

record cron_rule =
  View :: bool
  Edit :: bool

record sysctl_policy =
  RemovedReadOnly :: "bool option"
  WriteKeys :: "string list"

record tool_privilege =
  tp_Allowed :: bool
  Paths :: "string list"
  Containers :: "string list"
  Prune :: "string list"
  tp_Users :: "(string \<times> cron_rule) list"
  Network :: "policy option"
  Sysctl :: "sysctl_policy option"

record privileged_config =
  Tools :: "(string \<times> tool_privilege) list"
  Resources :: "(string \<times> string list) list"

record user_sudo =
  Privileged :: privileged_config

record sudo_config =
  Users :: "(string \<times> user_sudo) list"

text \<open>The grant of a user for a tool, the two map lookups every query starts with.\<close>

definition tool_grant :: "sudo_config \<Rightarrow> string \<Rightarrow> string \<Rightarrow> tool_privilege option" where
  "tool_grant c u t =
     (case map_of (Users c) u of
        None \<Rightarrow> None
      | Some us \<Rightarrow> map_of (Tools (Privileged us)) t)"

subsection \<open>Sysctl keys\<close>

definition dots_to_slashes :: "string \<Rightarrow> string" where
  "dots_to_slashes = replace_char CHR ''.'' CHR ''/''"

definition validSysctlPattern :: "string \<Rightarrow> unit result" where
  "validSysctlPattern p =
     (case path_match (dots_to_slashes p) [] of
        None \<Rightarrow> Inl ''syntax error in pattern'' | Some _ \<Rightarrow> Inr ())"

definition sysctlKeyMatch :: "string \<Rightarrow> string \<Rightarrow> bool" where
  "sysctlKeyMatch p key \<longleftrightarrow> path_match (dots_to_slashes p) (dots_to_slashes key) = Some True"

definition CanWriteSysctl :: "sudo_config \<Rightarrow> string \<Rightarrow> string \<Rightarrow> bool \<times> string" where
  "CanWriteSysctl c u key =
     (case tool_grant c u ''kernel/system-control'' of
        None \<Rightarrow> (True, [])
      | Some privs \<Rightarrow>
          (case Sysctl privs of
             None \<Rightarrow> (True, [])
           | Some sp \<Rightarrow>
               if WriteKeys sp = [] then (True, [])
               else if list_ex (\<lambda>p. sysctlKeyMatch p key) (WriteKeys sp) then (True, [])
               else (False, ''writing '' @ key @
                      '' is not permitted for this user (not in sysctl.write_keys in mcp-sudo.yaml)'')))"

subsection \<open>Which tools take which limit\<close>

definition PathTools :: "string list" where
  "PathTools =
     [''files/list'', ''files/read'', ''files/create'', ''files/update'', ''files/find'',
      ''files/filetype'', ''files/chmod'', ''files/chown'', ''disks/free'', ''disks/usage'']"

definition DockerTools :: "string list" where
  "DockerTools =
     [''docker/containers'', ''docker/manage'', ''docker/logs'', ''docker/exec'', ''docker/images'',
      ''docker/volumes'', ''docker/networks'', ''docker/inspect'', ''docker/prune'']"

definition ContainerTools :: "string list" where
  "ContainerTools = [''docker/manage'', ''docker/logs'', ''docker/exec'', ''docker/inspect'']"

definition PruneTool :: string where
  "PruneTool = ''docker/prune''"

definition CronTool :: string where
  "CronTool = ''cron/manage''"

definition validPruneTarget :: "string \<Rightarrow> bool" where
  "validPruneTarget t = PruneAllowed t PruneTargets"

definition sortedPathTools :: "string list" where
  "sortedPathTools = sort PathTools"

definition sortedContainerTools :: "string list" where
  "sortedContainerTools = sort ContainerTools"

subsection \<open>Crontab rules\<close>

definition account_first :: "char \<Rightarrow> bool" where
  "account_first c \<longleftrightarrow> (alnum c \<and> \<not> is_digit c) \<or> c = CHR ''_''"

definition account_char :: "char \<Rightarrow> bool" where
  "account_char c \<longleftrightarrow> alnum c \<or> c = CHR ''_'' \<or> c = CHR ''.'' \<or> c = CHR ''-''"

text \<open>The expression \<^verbatim>\<open>^[A-Za-z_][A-Za-z0-9_.-]{0,63}$\<close>.\<close>

definition ValidAccountName :: "string \<Rightarrow> bool" where
  "ValidAccountName n =
     (case n of [] \<Rightarrow> False | c # s \<Rightarrow> account_first c \<and> length s \<le> 63 \<and> list_all account_char s)"

definition validateCronRule :: "string \<Rightarrow> cron_rule \<Rightarrow> unit result" where
  "validateCronRule target r =
     (if \<not> ValidAccountName target
      then Inl (quoted target @ '' is not a single account name (no wildcards or globs - name each account)'')
      else if \<not> View r \<and> \<not> Edit r
      then Inl ''rule allows nothing: set view: true, edit: true, or both''
      else if target = ''root'' \<and> Edit r
      then Inl ''root's crontab may be viewed but never edited through mcpd: remove edit: true''
      else Inr ())"

text \<open>The rules of a grant are validated one by one; editing implies viewing, written into the rule.\<close>

fun check_cron_rules :: "string \<Rightarrow> (string \<times> cron_rule) list \<Rightarrow> (string \<times> cron_rule) list result" where
  "check_cron_rules pre [] = Inr []"
| "check_cron_rules pre ((t, r) # rs) =
     (case validateCronRule t r of
        Inl e \<Rightarrow> Inl (pre @ '', users.'' @ t @ '': '' @ e)
      | Inr _ \<Rightarrow>
          (let r' = (if Edit r \<and> \<not> View r then r\<lparr>View := True\<rparr> else r) in
           case check_cron_rules pre rs of Inl e \<Rightarrow> Inl e | Inr rs' \<Rightarrow> Inr ((t, r') # rs')))"

subsection \<open>Loading\<close>

definition squoted :: "string \<Rightarrow> string" where
  "squoted s = [CHR 0x27] @ s @ [CHR 0x27]"

definition where_tool :: "string \<Rightarrow> string \<Rightarrow> string" where
  "where_tool u t = ''user '' @ squoted u @ '', tool '' @ squoted t"

definition check_sysctl :: "string \<Rightarrow> sysctl_policy option \<Rightarrow> unit result" where
  "check_sysctl pre so =
     (case so of
        None \<Rightarrow> Inr ()
      | Some sp \<Rightarrow>
          if RemovedReadOnly sp \<noteq> None
          then Inl (pre @ '': sysctl.read_only is no longer supported - for read-only access remove `allowed` (reading needs no root, and without root the OS refuses writes); to limit writes use sysctl.write_keys'')
          else case find (\<lambda>p. validSysctlPattern p \<noteq> Inr ()) (WriteKeys sp) of
                 None \<Rightarrow> Inr ()
               | Some p \<Rightarrow> Inl (pre @ '': invalid sysctl.write_keys pattern '' @ quoted p @ '': syntax error in pattern''))"

definition check_network :: "string \<Rightarrow> policy option \<Rightarrow> unit result" where
  "check_network pre po =
     (case po of
        None \<Rightarrow> Inr ()
      | Some p \<Rightarrow> (case Validate p of Inl e \<Rightarrow> Inl (pre @ '': '' @ e) | Inr _ \<Rightarrow> Inr ()))"

text \<open>
  The checks on one grant, in the order of the loop body of \<open>ParseSudoConfig\<close>; the first
  failing one is reported.
\<close>

definition check_tool :: "bool \<Rightarrow> string \<Rightarrow> string \<Rightarrow> tool_privilege \<Rightarrow> tool_privilege result" where
  "check_tool strict u t p =
     (let pre = where_tool u t in
      case check_sysctl pre (Sysctl p) of Inl e \<Rightarrow> Inl e | Inr _ \<Rightarrow>
      case check_network pre (Network p) of Inl e \<Rightarrow> Inl e | Inr _ \<Rightarrow>
      if t \<in> set PathTools \<and> tp_Allowed p \<and> Paths p = [] \<and> strict
      then Inl (pre @ '': allowed without paths - as root it could only be refused; list the directories it may reach, or paths: ['' @
                quoted ''/'' @ ''] for the whole filesystem'')
      else if Paths p \<noteq> [] \<and> t \<notin> set PathTools \<and> strict
      then Inl (pre @ '': paths has no effect - '' @ t @ '' takes no path argument (paths can limit: '' @
                join_with '', '' sortedPathTools @ '')'')
      else if t \<in> set ContainerTools \<and> tp_Allowed p \<and> Containers p = [] \<and> strict
      then Inl (pre @ '': allowed without containers - as root it could only be refused; list the containers it may touch (name or ID globs), or containers: ['' @
                quoted ''*'' @ ''] for all of them'')
      else if Containers p \<noteq> [] \<and> t \<notin> set ContainerTools \<and> strict
      then Inl (pre @ '': containers has no effect - '' @ t @ '' names no container (containers can limit: '' @
                join_with '', '' sortedContainerTools @ '')'')
      else case find (\<lambda>g. \<not> validPruneTarget g) (Prune p) of
        Some g \<Rightarrow> Inl (pre @ '': unknown prune target '' @ quoted g @ '' (one of: '' @
                      join_with '', '' PruneTargets @ '')'')
      | None \<Rightarrow>
      if t = PruneTool \<and> tp_Allowed p \<and> Prune p = [] \<and> strict
      then Inl (pre @ '': allowed without prune - as root it could only be refused; list the targets it may reclaim ('' @
                join_with '', '' PruneTargets @ ''). There is no '' @ quoted ''all'' @
                '' on purpose: pruning volumes deletes data nothing can rebuild'')
      else if Prune p \<noteq> [] \<and> t \<noteq> PruneTool \<and> strict
      then Inl (pre @ '': prune has no effect - only '' @ PruneTool @ '' reclaims unused objects'')
      else if tp_Users p \<noteq> [] \<and> t \<noteq> CronTool \<and> strict
      then Inl (pre @ '': users has no effect - only '' @ CronTool @ '' takes per-account crontab rules'')
      else if t = CronTool \<and> tp_Allowed p \<and> tp_Users p = [] \<and> strict
      then Inl (pre @ '': allowed without users - a call on another account's crontab could only be refused; name the accounts and what may be done: users: {test_user: {view: true, edit: true}} (your own crontab needs no rule)'')
      else case check_cron_rules pre (tp_Users p) of
        Inl e \<Rightarrow> Inl e
      | Inr rs \<Rightarrow> Inr (p\<lparr>tp_Users := rs\<rparr>))"

fun check_tools ::
  "bool \<Rightarrow> string \<Rightarrow> (string \<times> tool_privilege) list \<Rightarrow> (string \<times> tool_privilege) list result" where
  "check_tools strict u [] = Inr []"
| "check_tools strict u ((t, p) # ts) =
     (case check_tool strict u t p of
        Inl e \<Rightarrow> Inl e
      | Inr p' \<Rightarrow> (case check_tools strict u ts of Inl e \<Rightarrow> Inl e | Inr ts' \<Rightarrow> Inr ((t, p') # ts')))"

fun check_users :: "bool \<Rightarrow> (string \<times> user_sudo) list \<Rightarrow> (string \<times> user_sudo) list result" where
  "check_users strict [] = Inr []"
| "check_users strict ((u, us) # rest) =
     (case check_tools strict u (Tools (Privileged us)) of
        Inl e \<Rightarrow> Inl e
      | Inr ts \<Rightarrow>
          (case check_users strict rest of
             Inl e \<Rightarrow> Inl e
           | Inr rest' \<Rightarrow> Inr ((u, us\<lparr>Privileged := (Privileged us)\<lparr>Tools := ts\<rparr>\<rparr>) # rest')))"

text \<open>\<open>decode strict\<close> is the YAML decoder's answer for the file; strict rejects unknown keys.\<close>

definition ParseSudoConfig :: "(bool \<Rightarrow> sudo_config result) \<Rightarrow> bool \<Rightarrow> sudo_config result" where
  "ParseSudoConfig decode strict =
     (case decode strict of
        Inl e \<Rightarrow> Inl e
      | Inr cfg \<Rightarrow>
          (case check_users strict (Users cfg) of
             Inl e \<Rightarrow> Inl e
           | Inr us \<Rightarrow> Inr (cfg\<lparr>Users := us\<rparr>)))"

definition LoadSudoConfig :: "string \<Rightarrow> (bool \<Rightarrow> sudo_config result) result \<Rightarrow> sudo_config result" where
  "LoadSudoConfig path file =
     (case file of
        Inl e \<Rightarrow> Inl e
      | Inr decode \<Rightarrow>
          (case ParseSudoConfig decode False of Inl e \<Rightarrow> Inl (path @ '': '' @ e) | Inr c \<Rightarrow> Inr c))"

definition LoadSudoConfigStrict :: "string \<Rightarrow> (bool \<Rightarrow> sudo_config result) result \<Rightarrow> sudo_config result" where
  "LoadSudoConfigStrict path file =
     (case file of
        Inl e \<Rightarrow> Inl e
      | Inr decode \<Rightarrow>
          (case ParseSudoConfig decode True of Inl e \<Rightarrow> Inl (path @ '': '' @ e) | Inr c \<Rightarrow> Inr c))"

subsection \<open>Queries\<close>

definition CanRunAsRoot :: "sudo_config \<Rightarrow> string \<Rightarrow> string \<Rightarrow> bool" where
  "CanRunAsRoot c u t = (case tool_grant c u t of Some p \<Rightarrow> tp_Allowed p | None \<Rightarrow> False)"

definition NetworkPolicy :: "sudo_config \<Rightarrow> string \<Rightarrow> string \<Rightarrow> policy option" where
  "NetworkPolicy c u t = (case tool_grant c u t of Some p \<Rightarrow> Network p | None \<Rightarrow> None)"

definition GetAllowedPaths :: "sudo_config \<Rightarrow> string \<Rightarrow> string \<Rightarrow> string list" where
  "GetAllowedPaths c u t = (case tool_grant c u t of Some p \<Rightarrow> Paths p | None \<Rightarrow> [])"

definition GetAllowedPruneTargets :: "sudo_config \<Rightarrow> string \<Rightarrow> string \<Rightarrow> string list" where
  "GetAllowedPruneTargets c u t = (case tool_grant c u t of Some p \<Rightarrow> Prune p | None \<Rightarrow> [])"

definition GetAllowedContainers :: "sudo_config \<Rightarrow> string \<Rightarrow> string \<Rightarrow> string list" where
  "GetAllowedContainers c u t = (case tool_grant c u t of Some p \<Rightarrow> Containers p | None \<Rightarrow> [])"

fun CoversRoot :: "string list \<Rightarrow> bool" where
  "CoversRoot [] = False"
| "CoversRoot (a # as) = (if has_prefix a ''/'' \<and> clean a = ''/'' then True else CoversRoot as)"

fun path_allowed_loop :: "string \<Rightarrow> string list \<Rightarrow> string option" where
  "path_allowed_loop cl [] = None"
| "path_allowed_loop cl (a0 # as) =
     (if \<not> has_prefix a0 ''/'' then path_allowed_loop cl as
      else let a = clean a0 in
           if a = ''/'' \<or> cl = a \<or> has_prefix cl (a @ ''/'') then Some cl
           else path_allowed_loop cl as)"

definition PathAllowed :: "string \<Rightarrow> string list \<Rightarrow> string option" where
  "PathAllowed p allowed =
     (if \<not> has_prefix p ''/'' then None else path_allowed_loop (clean p) allowed)"

definition resource_list :: "sudo_config \<Rightarrow> string \<Rightarrow> string \<Rightarrow> string list" where
  "resource_list c u scheme =
     (case map_of (Users c) u of
        None \<Rightarrow> []
      | Some us \<Rightarrow> (case map_of (Resources (Privileged us)) scheme of None \<Rightarrow> [] | Some l \<Rightarrow> l))"

definition ResourceGrantCoversRoot :: "sudo_config \<Rightarrow> string \<Rightarrow> string \<Rightarrow> bool" where
  "ResourceGrantCoversRoot c u scheme =
     list_ex (\<lambda>p. p = [] \<or> (has_prefix p ''/'' \<and> clean p = ''/'')) (resource_list c u scheme)"

text \<open>The switch over one entry of a resource grant.\<close>

definition resource_entry :: "string \<Rightarrow> string \<Rightarrow> bool" where
  "resource_entry rp p =
     (if rp = p then True
      else if p = [] then True
      else if has_prefix p ''/'' then PathAllowed rp [p] \<noteq> None
      else \<not> has_prefix rp ''/'' \<and> has_prefix rp p)"

definition CanReadResourceAsRoot :: "sudo_config \<Rightarrow> string \<Rightarrow> string \<Rightarrow> string \<Rightarrow> bool" where
  "CanReadResourceAsRoot c u scheme rp = list_ex (resource_entry rp) (resource_list c u scheme)"

definition no_rule :: cron_rule where
  "no_rule = \<lparr>View = False, Edit = False\<rparr>"

definition CronRuleFor :: "sudo_config \<Rightarrow> string \<Rightarrow> string \<Rightarrow> cron_rule" where
  "CronRuleFor c u target =
     (case tool_grant c u CronTool of
        Some privs \<Rightarrow>
          if tp_Allowed privs
          then let r = (case map_of (tp_Users privs) target of Some r \<Rightarrow> r | None \<Rightarrow> no_rule);
                   r1 = (if Edit r then r\<lparr>View := True\<rparr> else r)
               in (if target = ''root'' then r1\<lparr>Edit := False\<rparr> else r1)
          else no_rule
      | None \<Rightarrow> no_rule)"

definition CronViewAccounts :: "sudo_config \<Rightarrow> string \<Rightarrow> string list" where
  "CronViewAccounts c u =
     (case tool_grant c u CronTool of
        Some privs \<Rightarrow>
          if tp_Allowed privs
          then sort (map fst (filter (\<lambda>e. View (snd e) \<or> Edit (snd e)) (tp_Users privs)))
          else []
      | None \<Rightarrow> [])"

lemmas sudo_queries =
  CanRunAsRoot_def NetworkPolicy_def GetAllowedPaths_def GetAllowedPruneTargets_def
  GetAllowedContainers_def

subsection \<open>The allow list\<close>

lemma path_allowed_loop_iff:
  assumes "is_rooted p"
  shows "path_allowed_loop (clean p) allowed =
     (if \<exists>a \<in> set allowed. is_rooted a \<and> lies_within a p then Some (clean p) else None)"
proof (induction allowed)
  case (Cons a as)
  then show ?case
    using clean_within_iff [OF assms, of a] by (auto simp: is_rooted_def Let_def)
qed simp

lemma PathAllowed_eq:
  "PathAllowed p allowed =
     (if is_rooted p \<and> (\<exists>a \<in> set allowed. is_rooted a \<and> lies_within a p) then Some (clean p) else None)"
  using path_allowed_loop_iff by (simp add: PathAllowed_def is_rooted_def)

lemma CoversRoot_ex: "CoversRoot as \<longleftrightarrow> (\<exists>a \<in> set as. is_rooted a \<and> path_comps a = [])"
proof -
  have "clean a = ''/'' \<longleftrightarrow> path_comps a = []" if "is_rooted a" for a
    using that path_comps_clean [of a] by (auto simp: clean_rooted_eq path_comps_def clean_comps_def)
  then show ?thesis by (induction as) (auto simp: is_rooted_def)
qed

text \<open>
  C25. The allow-list test refines the containment of directories. \<open>PathAllowed\<close> accepts a path
  exactly when it is absolute and the components of some absolute entry are a prefix of its own
  components after \<open>.\<close> and \<open>..\<close> have been resolved; what it hands on is the cleaned
  path, all of whose components are ordinary names. So neither \<open>/tmp/../etc/shadow\<close> nor
  \<open>/tmpfoo\<close> passes an allowed \<open>/tmp\<close>.
\<close>

theorem PathAllowed_refines_within:
  "PathAllowed p allowed = Some q \<longleftrightarrow>
   is_rooted p \<and> q = CHR ''/'' # join_with ''/'' (path_comps p) \<and>
   (\<forall>c. c \<in> set (path_comps p) \<longrightarrow> plain_comp c) \<and>
   (\<exists>a. a \<in> set allowed \<and> is_rooted a \<and> prefix (path_comps a) (path_comps p))"
  using path_comps_plain [of p] by (auto simp: PathAllowed_eq clean_rooted_eq lies_within_def)

theorem PathAllowed_refines_within_witness:
  "PathAllowed ''/var/log/./nginx/../syslog'' [''/var/log''] = Some ''/var/log/syslog'' \<and>
   list_all plain_comp (path_comps ''/var/log/./nginx/../syslog'') \<and>
   PathAllowed ''/var/log/../../etc/shadow'' [''/var/log''] = None \<and>
   PathAllowed ''/var/logs'' [''/var/log''] = None"
proof -
  have h: "PathAllowed ''/var/log/./nginx/../syslog'' [''/var/log''] = Some ''/var/log/syslog''"
    by code_simp
  have n1: "PathAllowed ''/var/log/../../etc/shadow'' [''/var/log''] = None" by code_simp
  have n2: "PathAllowed ''/var/logs'' [''/var/log''] = None" by code_simp
  from h n1 n2 PathAllowed_refines_within
    [of "''/var/log/./nginx/../syslog''" "[''/var/log'']" "''/var/log/syslog''"]
  show ?thesis by (simp add: list_all_iff)
qed

text \<open>
  C6. \<open>CoversRoot\<close>, which decides whether a root call may follow symbolic links, holds exactly
  for the allow lists under which every absolute path is allowed: links are followed only where they
  cannot lead anywhere new.
\<close>

theorem CoversRoot_all_paths:
  "CoversRoot allowed \<longleftrightarrow> (\<forall>p. is_rooted p \<longrightarrow> PathAllowed p allowed = Some (clean p))"
proof
  assume "CoversRoot allowed"
  then obtain a where a: "a \<in> set allowed" "is_rooted a" "path_comps a = []"
    by (auto simp: CoversRoot_ex)
  then have "lies_within a p" for p by (simp add: lies_within_def)
  with a show "\<forall>p. is_rooted p \<longrightarrow> PathAllowed p allowed = Some (clean p)"
    by (auto simp: PathAllowed_eq)
next
  assume *: "\<forall>p. is_rooted p \<longrightarrow> PathAllowed p allowed = Some (clean p)"
  have "is_rooted ''/''" by simp
  with * have "PathAllowed ''/'' allowed = Some (clean ''/'')" by blast
  then obtain a where a: "a \<in> set allowed" "is_rooted a" "lies_within a ''/''"
    by (auto simp: PathAllowed_eq split: if_splits)
  have "path_comps ''/'' = []" by code_simp
  then have "path_comps a = []" using a(3) by (simp add: lies_within_def)
  with a show "CoversRoot allowed" by (auto simp: CoversRoot_ex)
qed

theorem CoversRoot_all_paths_witness:
  "CoversRoot [''/srv'', ''/var/..''] \<and>
   PathAllowed ''/etc/shadow'' [''/srv'', ''/var/..''] = Some (clean ''/etc/shadow'')"
proof -
  have c: "CoversRoot [''/srv'', ''/var/..'']" by code_simp
  then show ?thesis using CoversRoot_all_paths [of "[''/srv'', ''/var/..'']"] by simp
qed

subsection \<open>Resources\<close>

text \<open>
  A grant of the resource scheme lets a user read an absolute path as root exactly when it lists
  the empty string (the whole scheme), lists that very text, or lists an absolute directory that
  contains the path after cleaning. In particular the literal \<open>*\<close> grants no path.
\<close>

lemma CanReadResourceAsRoot_path:
  assumes "is_rooted rp"
  shows "CanReadResourceAsRoot c u scheme rp \<longleftrightarrow>
    (\<exists>p. p \<in> set (resource_list c u scheme) \<and>
       (p = rp \<or> p = [] \<or> (is_rooted p \<and> prefix (path_comps p) (path_comps rp))))"
  using assms
  by (auto simp: CanReadResourceAsRoot_def list_ex_iff resource_entry_def PathAllowed_eq is_rooted_def
      lies_within_def split: if_splits)

definition ex_sudo :: sudo_config where
  "ex_sudo =
     \<lparr>Users =
       [(''alice'',
         \<lparr>Privileged =
           \<lparr>Tools =
             [(''files/read'', \<lparr>tp_Allowed = True, Paths = [''/var/log''], Containers = [], Prune = [],
                tp_Users = [], Network = None, Sysctl = None\<rparr>),
              (''cron/manage'', \<lparr>tp_Allowed = True, Paths = [], Containers = [], Prune = [],
                tp_Users = [(''bob'', \<lparr>View = False, Edit = True\<rparr>), (''root'', \<lparr>View = True, Edit = False\<rparr>)],
                Network = None, Sysctl = None\<rparr>),
              (''kernel/system-control'', \<lparr>tp_Allowed = True, Paths = [], Containers = [], Prune = [],
                tp_Users = [], Network = None,
                Sysctl = Some \<lparr>RemovedReadOnly = None, WriteKeys = [''vm.*'']\<rparr>\<rparr>)],
            Resources = [(''file://'', [''/var/log'', ''*''])]\<rparr>\<rparr>)]\<rparr>"

lemma CanReadResourceAsRoot_example:
  "CanReadResourceAsRoot ex_sudo ''alice'' ''file://'' ''/var/log/syslog'' \<and>
   \<not> CanReadResourceAsRoot ex_sudo ''alice'' ''file://'' ''/var/log/../../etc/shadow''"
proof -
  have n: "\<not> CanReadResourceAsRoot ex_sudo ''alice'' ''file://'' ''/var/log/../../etc/shadow''"
    by code_simp
  have r: "is_rooted ''/var/log/syslog''" by simp
  have "resource_list ex_sudo ''alice'' ''file://'' = [''/var/log'', ''*'']" by code_simp
  moreover have "is_rooted ''/var/log''" "prefix (path_comps ''/var/log'') (path_comps ''/var/log/syslog'')"
    by code_simp+
  ultimately have "CanReadResourceAsRoot ex_sudo ''alice'' ''file://'' ''/var/log/syslog''"
    using CanReadResourceAsRoot_path [OF r, of ex_sudo "''alice''" "''file://''"] by auto
  with n show ?thesis by simp
qed

subsection \<open>Sysctl writes\<close>

lemma count_dots_to_slashes:
  "CHR ''/'' \<notin> set s \<Longrightarrow> count_char CHR ''/'' (dots_to_slashes s) = count_char CHR ''.'' s"
  by (induction s) (auto simp: dots_to_slashes_def replace_char_def count_char_def)

lemma simple_glob_dots: "simple_glob p \<Longrightarrow> simple_glob (dots_to_slashes p)"
  by (auto simp: simple_glob_def dots_to_slashes_def replace_char_def split: if_splits)

text \<open>
  Where a user's grant lists \<open>write_keys\<close> made of literals and wildcards, a key it permits
  has the same number of dotted components as one of the listed patterns: a \<open>*\<close> stays within
  one component, so \<open>vm.*\<close> never opens \<open>vm.a.b\<close>. Without a grant or a list there is no
  restriction.
\<close>

lemma CanWriteSysctl_components:
  assumes grant: "tool_grant c u ''kernel/system-control'' = Some privs" "Sysctl privs = Some sp"
    and keys: "WriteKeys sp \<noteq> []" "\<And>p. p \<in> set (WriteKeys sp) \<Longrightarrow> simple_glob p \<and> CHR ''/'' \<notin> set p"
    and key: "CHR ''/'' \<notin> set key" and ok: "fst (CanWriteSysctl c u key)"
  shows "\<exists>p. p \<in> set (WriteKeys sp) \<and> sysctlKeyMatch p key \<and>
           count_char CHR ''.'' key = count_char CHR ''.'' p"
proof -
  obtain p where p: "p \<in> set (WriteKeys sp)" "sysctlKeyMatch p key"
    using ok grant keys(1) by (auto simp: CanWriteSysctl_def list_ex_iff split: if_splits)
  then have "count_char CHR ''/'' (dots_to_slashes key) = count_char CHR ''/'' (dots_to_slashes p)"
    using keys(2) by (intro path_match_slashes simple_glob_dots) (auto simp: sysctlKeyMatch_def)
  then have "count_char CHR ''.'' key = count_char CHR ''.'' p"
    using keys(2) p(1) key by (simp add: count_dots_to_slashes)
  with p show ?thesis by blast
qed

lemma ex_CanWriteSysctl_components:
  "fst (CanWriteSysctl ex_sudo ''alice'' ''vm.swappiness'') \<and>
   \<not> fst (CanWriteSysctl ex_sudo ''alice'' ''vm.a.b'') \<and>
   (\<exists>p. p \<in> set [''vm.*''] \<and> sysctlKeyMatch p ''vm.swappiness'' \<and>
      count_char CHR ''.'' ''vm.swappiness'' = count_char CHR ''.'' p)"
proof -
  let ?sp = "\<lparr>RemovedReadOnly = None, WriteKeys = [''vm.*'']\<rparr>"
  let ?tp = "\<lparr>tp_Allowed = True, Paths = [], Containers = [], Prune = [], tp_Users = [],
      Network = None, Sysctl = Some ?sp\<rparr>"
  have g: "tool_grant ex_sudo ''alice'' ''kernel/system-control'' = Some ?tp"
    by (simp add: tool_grant_def ex_sudo_def)
  have ok: "fst (CanWriteSysctl ex_sudo ''alice'' ''vm.swappiness'')" by code_simp
  have no: "\<not> fst (CanWriteSysctl ex_sudo ''alice'' ''vm.a.b'')" by code_simp
  have "\<exists>p. p \<in> set (WriteKeys ?sp) \<and> sysctlKeyMatch p ''vm.swappiness'' \<and>
      count_char CHR ''.'' ''vm.swappiness'' = count_char CHR ''.'' p"
    by (rule CanWriteSysctl_components [OF g _ _ _ _ ok]) (auto simp: simple_glob_def)
  with ok no show ?thesis by simp
qed

subsection \<open>What an accepted file guarantees\<close>

lemma check_cron_rules_ok:
  "check_cron_rules pre rs = Inr rs' \<Longrightarrow> (t, r) \<in> set rs' \<Longrightarrow>
   ValidAccountName t \<and> View r \<and> (t = ''root'' \<longrightarrow> \<not> Edit r)"
proof (induction pre rs arbitrary: rs' rule: check_cron_rules.induct)
  case (2 pre t1 r1 rs)
  obtain rs1 where v: "validateCronRule t1 r1 = Inr ()" and rest: "check_cron_rules pre rs = Inr rs1"
    and rs': "rs' = (t1, if Edit r1 \<and> \<not> View r1 then r1\<lparr>View := True\<rparr> else r1) # rs1"
    using "2.prems"(1) by (auto simp: Let_def split: sum.splits)
  have "ValidAccountName t1 \<and> (View r1 \<or> Edit r1) \<and> (t1 = ''root'' \<longrightarrow> \<not> Edit r1)"
    using v by (auto simp: validateCronRule_def split: if_splits)
  then show ?case using "2.IH" [OF v _ rest] "2.prems"(2) rs' by (auto split: if_splits)
qed simp

lemma check_cron_rules_length: "check_cron_rules pre rs = Inr rs' \<Longrightarrow> map fst rs' = map fst rs"
  by (induction pre rs arbitrary: rs' rule: check_cron_rules.induct)
    (auto simp: Let_def split: sum.splits)

lemma validate_rules_ok: "validate_rules rs = Inr u \<Longrightarrow> r \<in> set rs \<Longrightarrow> \<exists>x. parseRule r = Inr x"
  by (induction rs) (auto split: sum.splits)

lemma Validate_ok:
  "Validate p = Inr u \<Longrightarrow> r \<in> set (Allow p) \<union> set (Deny p) \<Longrightarrow> \<exists>x. parseRule r = Inr x"
  by (auto simp: Validate_def split: sum.splits dest: validate_rules_ok)

text \<open>The well-formedness of a grant that a load establishes; \<open>strict\<close> adds the limits' presence.\<close>

definition limits_ok :: "string \<Rightarrow> tool_privilege \<Rightarrow> bool" where
  "limits_ok t p \<longleftrightarrow>
     (t \<in> set PathTools \<and> tp_Allowed p \<longrightarrow> Paths p \<noteq> []) \<and> (Paths p \<noteq> [] \<longrightarrow> t \<in> set PathTools) \<and>
     (t \<in> set ContainerTools \<and> tp_Allowed p \<longrightarrow> Containers p \<noteq> []) \<and>
     (Containers p \<noteq> [] \<longrightarrow> t \<in> set ContainerTools) \<and>
     (t = PruneTool \<and> tp_Allowed p \<longrightarrow> Prune p \<noteq> []) \<and> (Prune p \<noteq> [] \<longrightarrow> t = PruneTool) \<and>
     (t = CronTool \<and> tp_Allowed p \<longrightarrow> tp_Users p \<noteq> []) \<and> (tp_Users p \<noteq> [] \<longrightarrow> t = CronTool)"

definition rules_ok :: "tool_privilege \<Rightarrow> bool" where
  "rules_ok p \<longleftrightarrow>
     (\<forall>g \<in> set (Prune p). g \<in> set PruneTargets) \<and>
     (\<forall>(a, r) \<in> set (tp_Users p). ValidAccountName a \<and> View r \<and> (a = ''root'' \<longrightarrow> \<not> Edit r)) \<and>
     (\<forall>pol. Network p = Some pol \<longrightarrow>
        (\<forall>s \<in> set (Allow pol) \<union> set (Deny pol). \<exists>x. parseRule s = Inr x)) \<and>
     (\<forall>sp. Sysctl p = Some sp \<longrightarrow>
        RemovedReadOnly sp = None \<and>
        (\<forall>k \<in> set (WriteKeys sp). path_match (dots_to_slashes k) [] \<noteq> None))"

lemma check_tool_shape:
  assumes "check_tool strict u t p = Inr p'"
  obtains rs where "p' = p\<lparr>tp_Users := rs\<rparr>" "check_cron_rules (where_tool u t) (tp_Users p) = Inr rs"
    "check_sysctl (where_tool u t) (Sysctl p) = Inr ()" "check_network (where_tool u t) (Network p) = Inr ()"
    "find (\<lambda>g. \<not> validPruneTarget g) (Prune p) = None" "strict \<Longrightarrow> limits_ok t p"
proof -
  have "\<exists>rs. p' = p\<lparr>tp_Users := rs\<rparr> \<and> check_cron_rules (where_tool u t) (tp_Users p) = Inr rs \<and>
      check_sysctl (where_tool u t) (Sysctl p) = Inr () \<and> check_network (where_tool u t) (Network p) = Inr () \<and>
      find (\<lambda>g. \<not> validPruneTarget g) (Prune p) = None \<and> (strict \<longrightarrow> limits_ok t p)"
    using assms unfolding check_tool_def Let_def
    by (simp add: limits_ok_def split: sum.splits if_splits option.splits; blast)
  then show ?thesis using that by blast
qed

lemma check_tool_rules_ok:
  assumes "check_tool strict u t p = Inr p'"
  shows "rules_ok p'"
proof -
  obtain rs where p': "p' = p\<lparr>tp_Users := rs\<rparr>"
    and cron: "check_cron_rules (where_tool u t) (tp_Users p) = Inr rs"
    and sys: "check_sysctl (where_tool u t) (Sysctl p) = Inr ()"
    and net: "check_network (where_tool u t) (Network p) = Inr ()"
    and prune: "find (\<lambda>g. \<not> validPruneTarget g) (Prune p) = None"
    using check_tool_shape [OF assms] by blast
  have "\<forall>g \<in> set (Prune p). g \<in> set PruneTargets"
    using prune by (simp add: find_None_iff validPruneTarget_def)
  moreover have "\<forall>(a, r) \<in> set rs. ValidAccountName a \<and> View r \<and> (a = ''root'' \<longrightarrow> \<not> Edit r)"
    using check_cron_rules_ok [OF cron] by blast
  moreover have "\<exists>x. parseRule s = Inr x"
    if "Network p = Some pol" "s \<in> set (Allow pol) \<union> set (Deny pol)" for pol s
    using net that Validate_ok by (auto simp: check_network_def split: sum.splits)
  moreover have "RemovedReadOnly sp = None \<and>
      (\<forall>k \<in> set (WriteKeys sp). path_match (dots_to_slashes k) [] \<noteq> None)"
    if "Sysctl p = Some sp" for sp
    using sys that
    by (auto simp: check_sysctl_def validSysctlPattern_def find_None_iff split: if_splits option.splits)
  ultimately show ?thesis by (auto simp: rules_ok_def p')
qed

lemma check_tool_limits_ok:
  assumes "check_tool True u t p = Inr p'"
  shows "limits_ok t p'"
proof -
  obtain rs where p': "p' = p\<lparr>tp_Users := rs\<rparr>" and lim: "limits_ok t p"
    and cron: "check_cron_rules (where_tool u t) (tp_Users p) = Inr rs"
    using check_tool_shape [OF assms] by blast
  have "rs = [] \<longleftrightarrow> tp_Users p = []"
    using arg_cong [OF check_cron_rules_length [OF cron], of length] by auto
  then have "limits_ok t (p\<lparr>tp_Users := rs\<rparr>) \<longleftrightarrow> limits_ok t p"
  proof -
    let ?q = "p\<lparr>tp_Users := rs\<rparr>"
    have q: "tp_Allowed ?q = tp_Allowed p" "Paths ?q = Paths p" "Containers ?q = Containers p"
      "Prune ?q = Prune p" "tp_Users ?q = rs" by simp_all
    assume e: "rs = [] \<longleftrightarrow> tp_Users p = []"
    show ?thesis unfolding limits_ok_def q e ..
  qed
  then show ?thesis using lim by (simp only: p')
qed

lemma check_tools_map_of:
  "check_tools strict u ts = Inr ts' \<Longrightarrow> map_of ts' t = Some p' \<Longrightarrow>
   \<exists>p. map_of ts t = Some p \<and> check_tool strict u t p = Inr p'"
  by (induction strict u ts arbitrary: ts' rule: check_tools.induct)
    (auto split: sum.splits if_splits)

lemma check_users_map_of:
  "check_users strict us = Inr us' \<Longrightarrow> map_of us' u = Some x' \<Longrightarrow>
   \<exists>x. map_of us u = Some x \<and>
       check_tools strict u (Tools (Privileged x)) = Inr (Tools (Privileged x'))"
  by (induction strict us arbitrary: us' rule: check_users.induct)
    (auto split: sum.splits if_splits)

lemma ParseSudoConfig_grant:
  assumes "ParseSudoConfig decode strict = Inr cfg" and "tool_grant cfg u t = Some p"
  shows "\<exists>p0. check_tool strict u t p0 = Inr p"
proof -
  obtain cfg0 us where us: "check_users strict (Users cfg0) = Inr us" "cfg = cfg0\<lparr>Users := us\<rparr>"
    using assms(1) by (auto simp: ParseSudoConfig_def split: sum.splits)
  obtain x where x: "map_of us u = Some x" "map_of (Tools (Privileged x)) t = Some p"
    using assms(2) us(2) by (auto simp: tool_grant_def split: option.splits)
  show ?thesis using check_users_map_of [OF us(1) x(1)] check_tools_map_of x(2) by blast
qed


definition ex_cron_sudo :: sudo_config where
  "ex_cron_sudo =
     \<lparr>Users = [(''alice'', \<lparr>Privileged = \<lparr>Tools = [(''cron/manage'',
        \<lparr>tp_Allowed = True, Paths = [], Containers = [], Prune = [],
          tp_Users = [(''bob'', \<lparr>View = False, Edit = True\<rparr>), (''root'', \<lparr>View = True, Edit = False\<rparr>)],
          Network = None, Sysctl = None\<rparr>)], Resources = []\<rparr>\<rparr>)]\<rparr>"


text \<open>
  Whatever the file says, strict or not, the rule the daemon acts on for a crontab never lets
  root's be edited, always includes viewing when it allows editing, and is empty without
  \<open>allowed: true\<close>; and the accounts listed for viewing are, in order, those whose rule views.
\<close>

lemma CronRuleFor_safe:
  "(Edit (CronRuleFor c u target) \<longrightarrow> View (CronRuleFor c u target) \<and> target \<noteq> ''root'') \<and>
   (View (CronRuleFor c u target) \<longrightarrow> CanRunAsRoot c u CronTool \<and> target \<in> set (CronViewAccounts c u)) \<and>
   sorted (CronViewAccounts c u)"
proof -
  have view: "CanRunAsRoot c u CronTool \<and> target \<in> set (CronViewAccounts c u)"
    if v: "View (CronRuleFor c u target)"
  proof -
    obtain privs r where g: "tool_grant c u CronTool = Some privs" "tp_Allowed privs"
      and r: "map_of (tp_Users privs) target = Some r" "View r \<or> Edit r"
      using v by (auto simp: CronRuleFor_def no_rule_def Let_def split: option.splits if_splits)
    have "(target, r) \<in> set (tp_Users privs)" using map_of_SomeD [OF r(1)] .
    then show ?thesis using g r(2) by (force simp: CanRunAsRoot_def CronViewAccounts_def)
  qed
  have "Edit (CronRuleFor c u target) \<Longrightarrow> View (CronRuleFor c u target) \<and> target \<noteq> ''root''"
    by (auto simp: CronRuleFor_def no_rule_def Let_def split: option.splits if_splits)
  moreover have "sorted (CronViewAccounts c u)"
    by (auto simp: CronViewAccounts_def split: option.split)
  ultimately show ?thesis using view by blast
qed

end
