(* ===== verification/GoJson.thy ===== *)
theory GoJson
  imports Prelude
begin

text \<open>
  Go's package \<^verbatim>\<open>encoding/json\<close>, as far as the daemon's decisions depend on it. Tool
  arguments are JSON; the master decodes them, rewrites them through
  \<open>map[string]interface{}\<close> and hands the encoded result to a worker, which decodes it
  again into a struct. Three rules of the package matter for security and are modelled exactly:
  a struct field accepts a member whose name is equal \<^emph>\<open>or equal after case folding\<close>, later
  members overwrite earlier ones, and a map is encoded with its keys in byte order.

  A \<open>json.RawMessage\<close> is a \<open>json option\<close>: \<open>None\<close> is the empty message
  (an absent member), which no decoder accepts. A number is its mantissa and decimal exponent; the rounding
  to float64 that a pass through \<open>interface{}\<close> applies is not modelled, only its range error,
  since no decision reads a number after such a pass.
\<close>

datatype json =
    JNull
  | JBool bool
  | JNum int int
  | JStr string
  | JArr "json list"
  | JObj "(string \<times> json) list"

subsection \<open>Field names\<close>

text \<open>
  \<open>foldName\<close>: every rune is replaced by the smallest rune of its simple case-folding orbit.
  For ASCII letters that is the capital. Two runes outside ASCII fold into it: the Kelvin sign
  U+212A (bytes E2 84 AA) to \<open>K\<close> and the long s U+017F (bytes C5 BF) to \<open>S\<close>. All
  field names of the daemon are ASCII, so what the other runes fold to does not matter.
\<close>

fun fold_name :: "string \<Rightarrow> string" where
  "fold_name [] = []"
| "fold_name (a # s) =
     (if a = CHR 0xE2 \<and> take 2 s = [CHR 0x84, CHR 0xAA] then CHR ''K'' # fold_name (drop 2 s)
      else if a = CHR 0xC5 \<and> take 1 s = [CHR 0xBF] then CHR ''S'' # fold_name (drop 1 s)
      else upper_char a # fold_name s)"

text \<open>The field of a struct with the given field names that a member named \<open>k\<close> is decoded into.\<close>

definition json_field :: "string list \<Rightarrow> string \<Rightarrow> string option" where
  "json_field fs k =
     (if k \<in> set fs then Some k else find (\<lambda>f. fold_name f = fold_name k) fs)"

definition members :: "json \<Rightarrow> (string \<times> json) list" where
  "members v = (case v of JObj ms \<Rightarrow> ms | _ \<Rightarrow> [])"

text \<open>The values a document offers to field \<open>f\<close>, in document order.\<close>

definition field_vals :: "string list \<Rightarrow> string \<Rightarrow> json \<Rightarrow> json list" where
  "field_vals fs f v = map snd (filter (\<lambda>e. json_field fs (fst e) = Some f) (members v))"

subsection \<open>Decoding a field\<close>

text \<open>
  Decoding \<open>null\<close> leaves a field alone; a value of the wrong type leaves it alone and is
  reported once the whole document has been read.
\<close>

definition dec_string :: "string \<Rightarrow> json list \<Rightarrow> string" where
  "dec_string init vs = foldl (\<lambda>a v. case v of JStr s \<Rightarrow> s | _ \<Rightarrow> a) init vs"

definition dec_bool :: "bool \<Rightarrow> json list \<Rightarrow> bool" where
  "dec_bool init vs = foldl (\<lambda>a v. case v of JBool b \<Rightarrow> b | _ \<Rightarrow> a) init vs"

definition dec_int :: "int \<Rightarrow> json list \<Rightarrow> int" where
  "dec_int init vs =
     foldl (\<lambda>a v. case v of JNum m e \<Rightarrow> (if e = 0 \<and> - (2 ^ 63) \<le> m \<and> m < 2 ^ 63 then m else a) | _ \<Rightarrow> a)
       init vs"

text \<open>A slice: \<open>null\<close> makes it nil; an array overwrites its elements and sets its length.\<close>

fun dec_elems :: "string list \<Rightarrow> json list \<Rightarrow> string list" where
  "dec_elems old [] = []"
| "dec_elems old (v # vs) =
     (case v of JStr s \<Rightarrow> s | _ \<Rightarrow> (case old of [] \<Rightarrow> [] | o1 # _ \<Rightarrow> o1)) # dec_elems (tl old) vs"

definition dec_strings :: "string list \<Rightarrow> json list \<Rightarrow> string list" where
  "dec_strings init vs =
     foldl (\<lambda>a v. case v of JNull \<Rightarrow> [] | JArr xs \<Rightarrow> dec_elems a xs | _ \<Rightarrow> a) init vs"

definition is_str :: "json \<Rightarrow> bool" where
  "is_str v = (case v of JStr _ \<Rightarrow> True | JNull \<Rightarrow> True | _ \<Rightarrow> False)"

definition is_bool :: "json \<Rightarrow> bool" where
  "is_bool v = (case v of JBool _ \<Rightarrow> True | JNull \<Rightarrow> True | _ \<Rightarrow> False)"

definition is_int :: "json \<Rightarrow> bool" where
  "is_int v = (case v of JNum m e \<Rightarrow> e = 0 \<and> - (2 ^ 63) \<le> m \<and> m < 2 ^ 63 | JNull \<Rightarrow> True | _ \<Rightarrow> False)"

definition is_strs :: "json \<Rightarrow> bool" where
  "is_strs v = (case v of JArr xs \<Rightarrow> list_all is_str xs | JNull \<Rightarrow> True | _ \<Rightarrow> False)"

text \<open>A document that can be decoded into a struct at all: an object, or \<open>null\<close> (no effect).\<close>

definition is_structdoc :: "json \<Rightarrow> bool" where
  "is_structdoc v = (case v of JObj _ \<Rightarrow> True | JNull \<Rightarrow> True | _ \<Rightarrow> False)"

subsection \<open>Maps\<close>

text \<open>
  A number that overflows float64 cannot be decoded into an \<open>interface{}\<close>: its magnitude
  reaches \<open>2\<^sup>1\<^sup>0\<^sup>2\<^sup>4 - 2\<^sup>9\<^sup>7\<^sup>0\<close>.
\<close>

definition float64_ok :: "int \<Rightarrow> int \<Rightarrow> bool" where
  "float64_ok m e =
     (if m = 0 then True
      else if 0 \<le> e then \<bar>m\<bar> * 10 ^ nat e < 2 ^ 1024 - 2 ^ 970
      else \<bar>m\<bar> < (2 ^ 1024 - 2 ^ 970) * 10 ^ nat (- e))"

fun nums_ok :: "json \<Rightarrow> bool" and nums_ok_list :: "json list \<Rightarrow> bool"
  and nums_ok_members :: "(string \<times> json) list \<Rightarrow> bool" where
  "nums_ok (JNum m e) = float64_ok m e"
| "nums_ok (JArr xs) = nums_ok_list xs"
| "nums_ok (JObj ms) = nums_ok_members ms"
| "nums_ok _ = True"
| "nums_ok_list [] = True"
| "nums_ok_list (v # vs) = (nums_ok v \<and> nums_ok_list vs)"
| "nums_ok_members [] = True"
| "nums_ok_members ((k, v) # ms) = (nums_ok v \<and> nums_ok_members ms)"

text \<open>Filling a map from members: the last one with a name wins.\<close>

definition fill_map :: "(string \<times> json) list \<Rightarrow> (string \<times> json) list" where
  "fill_map ms = foldl (\<lambda>m e. map_put (fst e) (snd e) m) [] ms"

text \<open>\<open>json.Marshal\<close> of a map writes the keys in byte order.\<close>

definition marshal_map :: "(string \<times> json) list \<Rightarrow> json" where
  "marshal_map m = JObj (sort_key fst m)"

text \<open>
  A value after a pass through \<open>interface{}\<close>: nested objects become maps, so their members
  are unique and, when written again, sorted.
\<close>

fun through_iface :: "json \<Rightarrow> json" and through_iface_list :: "json list \<Rightarrow> json list"
  and through_iface_members :: "(string \<times> json) list \<Rightarrow> (string \<times> json) list" where
  "through_iface (JArr xs) = JArr (through_iface_list xs)"
| "through_iface (JObj ms) = marshal_map (fill_map (through_iface_members ms))"
| "through_iface v = v"
| "through_iface_list [] = []"
| "through_iface_list (v # vs) = through_iface v # through_iface_list vs"
| "through_iface_members [] = []"
| "through_iface_members ((k, v) # ms) = (k, through_iface v) # through_iface_members ms"

text \<open>
  \<open>json.Unmarshal(raw, &m)\<close> for a nil \<open>m map[string]interface{}\<close>: an error, the nil map
  (for \<open>null\<close>) or a map.
\<close>

definition unmarshal_map :: "json option \<Rightarrow> (string \<times> json) list option result" where
  "unmarshal_map raw =
     (case raw of
        None \<Rightarrow> Inl ''unexpected end of JSON input''
      | Some JNull \<Rightarrow> Inr None
      | Some (JObj ms) \<Rightarrow>
          (if nums_ok_members ms then Inr (Some (fill_map (through_iface_members ms)))
           else Inl ''json: cannot unmarshal number into Go value of type float64'')
      | Some _ \<Rightarrow> Inl ''json: cannot unmarshal into Go value of type map[string]interface {}'')"

text \<open>The same for \<open>map[string]json.RawMessage\<close>: the values are not looked into.\<close>

definition unmarshal_raw_map :: "json option \<Rightarrow> (string \<times> json) list option result" where
  "unmarshal_raw_map raw =
     (case raw of
        None \<Rightarrow> Inl ''unexpected end of JSON input''
      | Some JNull \<Rightarrow> Inr None
      | Some (JObj ms) \<Rightarrow> Inr (Some (fill_map ms))
      | Some _ \<Rightarrow> Inl ''json: cannot unmarshal into Go value of type map[string]json.RawMessage'')"

definition json_strings :: "string list \<Rightarrow> json" where
  "json_strings xs = (if xs = [] then JNull else JArr (map JStr xs))"

subsection \<open>Facts\<close>

lemma foldl_map_put:
  "map_of (foldl (\<lambda>m e. map_put (fst e) (snd e) m) m0 ms) k =
   (case map_of (rev ms) k of None \<Rightarrow> map_of m0 k | Some v \<Rightarrow> Some v)"
  by (induction ms arbitrary: m0) (auto simp: map_add_def split: option.splits)

lemma map_of_fill_map: "map_of (fill_map ms) k = map_of (rev ms) k"
  by (simp add: fill_map_def foldl_map_put split: option.splits)

lemma distinct_foldl_map_put:
  "distinct (map fst m0) \<Longrightarrow> distinct (map fst (foldl (\<lambda>m e. map_put (fst e) (snd e) m) m0 ms))"
  by (induction ms arbitrary: m0) (simp_all add: distinct_map_put)

lemma distinct_fill_map: "distinct (map fst (fill_map ms))"
  by (simp add: fill_map_def distinct_foldl_map_put)

lemma set_fill_map: "fst ` set (fill_map ms) = fst ` set ms"
proof -
  have "fst ` set (fill_map ms) = dom (map_of (fill_map ms))" by (simp add: dom_map_of_conv_image_fst)
  also have "\<dots> = dom (map_of (rev ms))" by (simp add: dom_def map_of_fill_map)
  also have "\<dots> = fst ` set ms" by (simp add: dom_map_of_conv_image_fst)
  finally show ?thesis .
qed

text \<open>
  Field names made of lower-case letters other than \<open>k\<close> and \<open>s\<close>, and underscores: no
  name that folds to the same as such a field comes after it in byte order. So when a map that holds
  the field under its exact name is encoded, that member is the last one the field accepts.
\<close>

definition fold_safe_char :: "char \<Rightarrow> bool" where
  "fold_safe_char c \<longleftrightarrow>
     c = CHR ''_'' \<or>
     (97 \<le> (of_char c :: nat) \<and> (of_char c :: nat) \<le> 122 \<and> c \<noteq> CHR ''k'' \<and> c \<noteq> CHR ''s'')"

definition fold_safe :: "string \<Rightarrow> bool" where
  "fold_safe f \<longleftrightarrow> list_all fold_safe_char f"

lemma of_char_inj: "(of_char a :: nat) = of_char b \<Longrightarrow> a = b"
  by simp

lemma of_upper_char:
  "(of_char (upper_char c) :: nat) =
   (if 97 \<le> (of_char c :: nat) \<and> (of_char c :: nat) \<le> 122 then of_char c - 32 else of_char c)"
  by (auto simp: upper_char_def Let_def of_char_mod_256)

lemma upper_char_safe:
  assumes safe: "fold_safe_char c"
  shows "upper_char c \<noteq> CHR ''K''" "upper_char c \<noteq> CHR ''S''"
proof -
  have neq: "(of_char c :: nat) \<noteq> 107" "(of_char c :: nat) \<noteq> 115"
    using safe of_char_inj [of c "CHR ''k''"] of_char_inj [of c "CHR ''s''"]
    by (auto simp: fold_safe_char_def)
  have "(of_char (upper_char c) :: nat) \<noteq> 75" "(of_char (upper_char c) :: nat) \<noteq> 83"
    using safe neq by (auto simp: fold_safe_char_def of_upper_char)
  then show "upper_char c \<noteq> CHR ''K''" "upper_char c \<noteq> CHR ''S''" by auto
qed

lemma upper_char_eq_le:
  assumes "fold_safe_char c" and "upper_char a = upper_char c"
  shows "a = c \<or> a < c"
proof -
  have "(of_char (upper_char a) :: nat) = of_char (upper_char c)" using assms(2) by simp
  then have "(of_char a :: nat) \<le> of_char c"
    using assms(1) by (auto simp: fold_safe_char_def of_upper_char split: if_splits)
  then show ?thesis by (auto simp: less_char_def less_le)
qed

lemma fold_name_le:
  "fold_safe f \<Longrightarrow> fold_name k = fold_name f \<Longrightarrow> k \<le> f"
proof (induction f arbitrary: k)
  case Nil
  then show ?case by (cases k) (auto split: if_splits)
next
  case (Cons c f)
  have safe: "fold_safe_char c" "fold_safe f" using Cons.prems(1) by (auto simp: fold_safe_def)
  have "c \<noteq> CHR 0xE2" "c \<noteq> CHR 0xC5" using safe(1) by (auto simp: fold_safe_char_def)
  then have fc: "fold_name (c # f) = upper_char c # fold_name f" by simp
  obtain a s where k: "k = a # s" using Cons.prems(2) fc by (cases k) auto
  have "fold_name k = upper_char a # fold_name s"
    using Cons.prems(2) fc k upper_char_safe [OF safe(1)] by (auto split: if_splits)
  then have up: "upper_char a = upper_char c" and rest: "fold_name s = fold_name f"
    using Cons.prems(2) fc by auto
  have "s \<le> f" using Cons.IH [OF safe(2) rest] .
  then show ?case using upper_char_eq_le [OF safe(1) up] k by auto
qed

lemma json_field_fold: "json_field fs k = Some f \<Longrightarrow> fold_name k = fold_name f"
  by (auto simp: json_field_def find_Some_iff split: if_splits)

text \<open>The values a struct field sees in an encoded map end with the map's own entry for it.\<close>

lemma field_vals_marshal_last:
  assumes safe: "fold_safe f" and f: "f \<in> set fs"
    and dist: "distinct (map fst m)" and v: "map_of m f = Some v"
  shows "\<exists>ws. field_vals fs f (marshal_map m) = ws @ [v]"
proof -
  let ?s = "sort_key fst m"
  let ?P = "\<lambda>e. json_field fs (fst e) = Some f"
  have in_s: "(f, v) \<in> set ?s" using map_of_SomeD [OF v] by simp
  then obtain as bs where s: "?s = as @ (f, v) # bs" by (meson split_list)
  have "\<not> ?P e" if e: "e \<in> set bs" for e
  proof
    assume "?P e"
    then have "fst e \<le> f" using fold_name_le [OF safe] json_field_fold by blast
    moreover have "f \<le> fst e"
      using sorted_sort_key [of fst m] e by (simp add: s sorted_append)
    moreover have "fst e \<noteq> f"
    proof -
      have "distinct (map fst ?s)"
        using dist by (simp add: distinct_map set_eq_iff distinct_sort)
      then show ?thesis using e by (force simp: s)
    qed
    ultimately show False by simp
  qed
  then have "filter ?P bs = []" by (simp add: filter_empty_conv)
  moreover have "?P (f, v)" using f by (simp add: json_field_def)
  ultimately have "field_vals fs f (marshal_map m) = map snd (filter ?P as) @ [v]"
    by (simp add: field_vals_def members_def marshal_map_def s)
  then show ?thesis by blast
qed

lemma dec_string_last: "dec_string i (vs @ [JStr s]) = s"
  by (simp add: dec_string_def)

lemma dec_bool_last: "dec_bool i (vs @ [JBool b]) = b"
  by (simp add: dec_bool_def)

lemma dec_elems_JStr: "dec_elems old (map JStr xs) = xs"
  by (induction xs arbitrary: old) auto

lemma dec_strings_last: "dec_strings i (vs @ [json_strings xs]) = xs"
  by (simp add: dec_strings_def json_strings_def dec_elems_JStr)

text \<open>
  When no other spelling of a field's name occurs, the field sees exactly the map's entry for it.
\<close>

definition spelled_exactly :: "string list \<Rightarrow> (string \<times> json) list \<Rightarrow> bool" where
  "spelled_exactly fs m \<longleftrightarrow> list_all (\<lambda>e. list_all (\<lambda>f. fold_name (fst e) = fold_name f \<longrightarrow> fst e = f) fs) m"

lemma filter_key_map_of:
  "distinct (map fst m) \<Longrightarrow>
   map snd (filter (\<lambda>e. fst e = k) m) = (case map_of m k of None \<Rightarrow> [] | Some v \<Rightarrow> [v])"
proof (induction m)
  case (Cons e m)
  have "filter (\<lambda>e'. fst e' = k) m = []" if "fst e = k"
    using Cons.prems that by (auto simp: filter_empty_conv rev_image_eqI)
  then show ?case using Cons by (cases e) (auto split: option.splits)
qed simp

lemma map_of_sort_key: "distinct (map fst m) \<Longrightarrow> map_of (sort_key fst m) = map_of m"
proof -
  assume d: "distinct (map fst m)"
  moreover have "distinct (map fst (sort_key fst m))"
    using d by (simp add: distinct_map distinct_sort)
  ultimately show ?thesis by (intro map_of_inject_set [THEN iffD2]) simp_all
qed

lemma field_vals_marshal_exact:
  assumes "spelled_exactly fs m" and "f \<in> set fs" and "distinct (map fst m)"
  shows "field_vals fs f (marshal_map m) = (case map_of m f of None \<Rightarrow> [] | Some v \<Rightarrow> [v])"
proof -
  have "json_field fs (fst e) = Some f \<longleftrightarrow> fst e = f" if "e \<in> set (sort_key fst m)" for e
    using that assms(1,2) json_field_fold [of fs "fst e" f]
    by (auto simp: spelled_exactly_def list_all_iff json_field_def)
  then have "filter (\<lambda>e. json_field fs (fst e) = Some f) (sort_key fst m) = filter (\<lambda>e. fst e = f) (sort_key fst m)"
    by (intro filter_cong) auto
  moreover have "distinct (map fst (sort_key fst m))"
    using assms(3) by (simp add: distinct_map distinct_sort)
  ultimately show ?thesis
    using filter_key_map_of [of "sort_key fst m" f] assms(3)
    by (simp add: field_vals_def members_def marshal_map_def map_of_sort_key)
qed

text \<open>A number is spelled with its mantissa and exponent; other spellings of it are not distinguished.\<close>

definition num_text :: "int \<Rightarrow> int \<Rightarrow> string" where
  "num_text m e = (if e = 0 then int_str m else int_str m @ ''e'' @ int_str e)"

text \<open>What a tool prints: plain text, or a document (whose indentation is the encoder's business).\<close>

datatype tool_out = Text string | Doc json

text \<open>The output formats every tool answers with JSON.\<close>

definition structured_format :: "string \<Rightarrow> bool" where
  "structured_format f \<longleftrightarrow> f \<in> {''json'', ''yaml'', ''table'', ''wide''}"

definition pad_right :: "nat \<Rightarrow> string \<Rightarrow> string" where
  "pad_right n s = s @ replicate (n - length s) CHR '' ''"

end
