(* ===== verification/KvStore.thy ===== *)
theory KvStore
  imports Prelude
begin

text \<open>
  The interface of a key-value store, which three parts of the program provide: the Go maps that the
  handlers fill and marshal, the YAML mapping nodes that user administration edits in place, and the
  response cache. The clients' facts (what a sequence of edits leaves behind) are proved once here.
\<close>

datatype ('k, 'v) edit = Put 'k 'v | Del 'k

fun edit_key :: "('k, 'v) edit \<Rightarrow> 'k" where
  "edit_key (Put k v) = k"
| "edit_key (Del k) = k"

text \<open>What the last edit of a key says about it; \<open>d\<close> when no edit names it.\<close>

fun edits_at :: "('k, 'v) edit list \<Rightarrow> 'k \<Rightarrow> 'v option \<Rightarrow> 'v option" where
  "edits_at [] k d = d"
| "edits_at (Put k' v # es) k d = edits_at es k (if k' = k then Some v else d)"
| "edits_at (Del k' # es) k d = edits_at es k (if k' = k then None else d)"

locale kv_store =
  fixes wf :: "'s \<Rightarrow> bool"
    and get :: "'s \<Rightarrow> 'k \<Rightarrow> 'v option"
    and put :: "'k \<Rightarrow> 'v \<Rightarrow> 's \<Rightarrow> 's"
    and del :: "'k \<Rightarrow> 's \<Rightarrow> 's"
  assumes wf_put: "wf s \<Longrightarrow> wf (put k v s)"
    and wf_del: "wf s \<Longrightarrow> wf (del k s)"
    and get_put: "wf s \<Longrightarrow> get (put k v s) k' = (if k' = k then Some v else get s k')"
    and get_del: "wf s \<Longrightarrow> get (del k s) k' = (if k' = k then None else get s k')"
begin

primrec edit :: "('k, 'v) edit \<Rightarrow> 's \<Rightarrow> 's" where
  "edit (Put k v) s = put k v s"
| "edit (Del k) s = del k s"

lemma wf_edit: "wf s \<Longrightarrow> wf (edit e s)"
  by (cases e) (simp_all add: wf_put wf_del)

lemma wf_edits: "wf s \<Longrightarrow> wf (fold edit es s)"
  by (induction es arbitrary: s) (simp_all add: wf_edit)

lemma get_edits: "wf s \<Longrightarrow> get (fold edit es s) k = edits_at es k (get s k)"
proof (induction es arbitrary: s)
  case (Cons e es)
  have "get (edit e s) k = edits_at [e] k (get s k)"
    using Cons.prems by (cases e) (auto simp: get_put get_del)
  then show ?case using Cons wf_edit [OF Cons.prems, of e] by (cases e) simp_all
qed simp

lemma untouched: "wf s \<Longrightarrow> k \<notin> edit_key ` set es \<Longrightarrow> get (fold edit es s) k = get s k"
proof -
  have "k \<notin> edit_key ` set es \<Longrightarrow> edits_at es k d = d" for d
    by (induction es k d rule: edits_at.induct) auto
  then show "wf s \<Longrightarrow> k \<notin> edit_key ` set es \<Longrightarrow> get (fold edit es s) k = get s k"
    by (simp add: get_edits)
qed

end

text \<open>The Go maps of the model, association lists read by \<^const>\<open>map_of\<close>, are such a store.\<close>

interpretation gomap: kv_store
  "\<lambda>m. distinct (map fst m)" "\<lambda>m k. map_of m k" map_put map_del
  by unfold_locales (simp_all add: distinct_map_put distinct_map_del)

end
