(* ===== verification/RpcPrepare.thy ===== *)
theory RpcPrepare
  imports SudoConfig GoJson KvStore
begin

text \<open>
  What the master does to a call's arguments before a worker sees them
  (\<^verbatim>\<open>internal/rpc/cron.go\<close>, \<^verbatim>\<open>internal/rpc/docker.go\<close> and the
  helpers of \<^verbatim>\<open>internal/rpc/tools.go\<close>): the redaction for the log, the removal and
  setting of the reserved \<open>_\<close> members, and the authorization of docker and crontab calls.
\<close>

subsection \<open>Redaction\<close>

definition sensitiveSubstrings :: "string list" where
  "sensitiveSubstrings = [''password'', ''token'', ''secret'', ''authorization'', ''cookie'', ''content'', ''body'',
     ''data'', ''header'', ''value'', ''key'']"

definition sensitive :: "string \<Rightarrow> bool" where
  "sensitive k \<longleftrightarrow> list_ex (\<lambda>s. contains (to_lower k) s) sensitiveSubstrings"

definition redacted :: json where
  "redacted = JStr ''<redacted>''"

fun redactValue :: "json \<Rightarrow> json" and redact_list :: "json list \<Rightarrow> json list"
  and redact_members :: "(string \<times> json) list \<Rightarrow> (string \<times> json) list" where
  "redactValue (JObj ms) = JObj (redact_members ms)"
| "redactValue (JArr xs) = JArr (redact_list xs)"
| "redactValue v = v"
| "redact_list [] = []"
| "redact_list (v # vs) = redactValue v # redact_list vs"
| "redact_members [] = []"
| "redact_members ((k, v) # ms) = (k, if sensitive k then redacted else redactValue v) # redact_members ms"

text \<open>\<open>None\<close> is the line \<^verbatim>\<open><unparseable arguments>\<close>.\<close>

definition redactArgs :: "json option \<Rightarrow> json option" where
  "redactArgs raw =
     (case raw of
        None \<Rightarrow> None
      | Some v \<Rightarrow> if nums_ok v then Some (redactValue (through_iface v)) else None)"

text \<open>Every member of a document, at any depth.\<close>

fun deep_members :: "json \<Rightarrow> (string \<times> json) list" and deep_list :: "json list \<Rightarrow> (string \<times> json) list"
  and deep_mems :: "(string \<times> json) list \<Rightarrow> (string \<times> json) list" where
  "deep_members (JObj ms) = deep_mems ms"
| "deep_members (JArr xs) = deep_list xs"
| "deep_members _ = []"
| "deep_list [] = []"
| "deep_list (v # vs) = deep_members v @ deep_list vs"
| "deep_mems [] = []"
| "deep_mems ((k, v) # ms) = (k, v) # deep_members v @ deep_mems ms"

lemma redact_deep:
  "(k, w) \<in> set (deep_members (redactValue v)) \<Longrightarrow> sensitive k \<Longrightarrow> w = redacted"
  "(k, w) \<in> set (deep_list (redact_list vs)) \<Longrightarrow> sensitive k \<Longrightarrow> w = redacted"
  "(k, w) \<in> set (deep_mems (redact_members ms)) \<Longrightarrow> sensitive k \<Longrightarrow> w = redacted"
  by (induction v and vs and ms rule: redactValue_redact_list_redact_members.induct)
    (auto simp: redacted_def split: if_splits)



subsection \<open>Removing a member\<close>

definition withoutKey :: "json option \<Rightarrow> string \<Rightarrow> json option" where
  "withoutKey args key =
     (case unmarshal_raw_map args of
        Inl _ \<Rightarrow> args
      | Inr mo \<Rightarrow>
          (let m = (case mo of None \<Rightarrow> [] | Some m \<Rightarrow> m)
           in if map_of m key = None then args else Some (marshal_map (map_del key m))))"

subsection \<open>Docker calls\<close>

text \<open>\<open>SocketPath\<close> is daemon.yaml's \<open>worker.docker_socket\<close>, empty for the default.\<close>

definition docker_args :: "string \<Rightarrow> sudo_config \<Rightarrow> string \<Rightarrow> string \<Rightarrow> (string \<times> json) list \<Rightarrow> (string \<times> json) list" where
  "docker_args SocketPath sudo user tool m0 =
     (let m1 = map_del ''_prune'' (map_del ''_containers'' (map_del ''_docker_socket'' m0));
          m2 = map_put ''privileged'' (JBool True) m1;
          m3 = (if SocketPath \<noteq> [] then map_put ''_docker_socket'' (JStr SocketPath) m2 else m2);
          m4 = (if tool \<in> set ContainerTools
                then map_put ''_containers'' (json_strings (GetAllowedContainers sudo user tool)) m3 else m3)
      in if tool = PruneTool
         then map_put ''_prune'' (json_strings (GetAllowedPruneTargets sudo user tool)) m4 else m4)"

definition prepareDockerCall ::
  "string \<Rightarrow> sudo_config \<Rightarrow> string \<Rightarrow> string \<Rightarrow> json option \<Rightarrow> goerr option \<times> json option" where
  "prepareDockerCall SocketPath sudo user tool args =
     (if \<not> CanRunAsRoot sudo user tool
      then (Some (''user '' @ user @ '' is not authorized to run '' @ tool @ '': the Docker socket is root-owned, so every docker/* tool needs `allowed: true` in its grant in mcp-sudo.yaml (and, for the tools naming one container, a `containers:` list)''), args)
      else
        (let m = (case unmarshal_map args of Inr (Some m) \<Rightarrow> m | _ \<Rightarrow> [])
         in (None, Some (marshal_map (docker_args SocketPath sudo user tool m)))))"

subsection \<open>Crontab calls\<close>

definition cronReserved :: "string list" where
  "cronReserved = [''_mode'', ''_target_user'', ''_target_uid'', ''_target_gid'', ''_target_groups'', ''_view_users'', ''_info'']"

record cron_plan =
  cp_Args :: json
  cp_Privileged :: bool
  cp_Write :: bool
  cp_Target :: string

text \<open>The caller's members without the reserved ones.\<close>

definition cron_members :: "json option \<Rightarrow> (string \<times> json) list result" where
  "cron_members raw =
     (case raw of
        None \<Rightarrow> Inr []
      | Some _ \<Rightarrow>
          (case unmarshal_map raw of
             Inl e \<Rightarrow> Inl (''invalid arguments: '' @ e)
           | Inr mo \<Rightarrow> Inr (fold map_del cronReserved (case mo of None \<Rightarrow> [] | Some m \<Rightarrow> m))))"

definition json_text :: "json option \<Rightarrow> string" where
  "json_text v = (case v of Some (JStr s) \<Rightarrow> s | _ \<Rightarrow> [])"

definition cron_list_plan :: "sudo_config \<Rightarrow> string \<Rightarrow> (string \<times> json) list \<Rightarrow> cron_plan result" where
  "cron_list_plan sudo caller m =
     (if \<not> CanRunAsRoot sudo caller CronTool
      then Inl (''user '' @ caller @ '' is not authorized to list crontabs: cron/manage needs `allowed: true` and a users: rule for each account in your grant in mcp-sudo.yaml'')
      else Inr \<lparr>cp_Args = marshal_map (map_put ''_view_users'' (json_strings (CronViewAccounts sudo caller @ [caller]))
                  (map_put ''_mode'' (JStr ''list'') m)),
                cp_Privileged = True, cp_Write = False, cp_Target = []\<rparr>)"

definition cron_self_plan :: "string \<Rightarrow> bool \<Rightarrow> bool \<Rightarrow> (string \<times> json) list \<Rightarrow> cron_plan" where
  "cron_self_plan caller write info m =
     \<lparr>cp_Args = marshal_map (map_put ''_info'' (JBool info) (map_put ''_target_user'' (JStr caller)
                  (map_put ''_mode'' (JStr ''self'') m))),
      cp_Privileged = False, cp_Write = write, cp_Target = caller\<rparr>"

definition possessive :: string where
  "possessive = [CHR 0x27, CHR ''s'']"

definition cron_other_plan ::
  "sudo_config \<Rightarrow> string \<Rightarrow> string \<Rightarrow> bool \<Rightarrow> bool \<Rightarrow> bool \<Rightarrow> (string \<times> json) list \<Rightarrow> cron_plan result" where
  "cron_other_plan sudo caller target priv write info m =
     (if \<not> priv
      then Inl (''another account's crontab needs privileged: true and a rule for '' @ target @
                '' in your cron/manage grant (users: {'' @ target @ '': {view: true}})'')
      else if \<not> CanRunAsRoot sudo caller CronTool
      then Inl (''user '' @ caller @ '' is not authorized to run cron/manage on another account: it needs `allowed: true` and a users: rule for '' @
                target @ '' in your grant in mcp-sudo.yaml'')
      else
        (let rule = CronRuleFor sudo caller target in
         if write \<and> \<not> Edit rule then
           (if View rule
            then Inl (''user '' @ caller @ '' may not edit '' @ target @ possessive @ '' crontab: the cron/manage grant gives '' @ target @ '' view only'')
            else Inl (''user '' @ caller @ '' may not edit '' @ target @ possessive @ '' crontab: no rule for it in the cron/manage grant (users:)''))
         else if \<not> write \<and> \<not> View rule
         then Inl (''user '' @ caller @ '' may not view '' @ target @ possessive @ '' crontab: no rule for it in the cron/manage grant (users:)'')
         else Inr \<lparr>cp_Args = marshal_map (map_put ''_info'' (JBool info) (map_put ''_target_user'' (JStr target)
                     (map_put ''_mode'' (JStr ''other'') m))),
                   cp_Privileged = True, cp_Write = write, cp_Target = target\<rparr>))"

definition prepareCronCall :: "sudo_config \<Rightarrow> string \<Rightarrow> json option \<Rightarrow> bool \<Rightarrow> cron_plan result" where
  "prepareCronCall sudo caller raw info =
     (case cron_members raw of
        Inl e \<Rightarrow> Inl e
      | Inr m \<Rightarrow>
          (let target = json_text (map_of m ''user'') in
           if (case map_of m ''user'' of None \<Rightarrow> False | Some v \<Rightarrow> \<not> is_str v) then Inl ''user must be a string''
           else if target \<noteq> [] \<and> \<not> ValidAccountName target then Inl (''invalid account name '' @ quoted target)
           else if (case map_of m ''content'' of None \<Rightarrow> False | Some v \<Rightarrow> (case v of JStr _ \<Rightarrow> False | _ \<Rightarrow> True))
           then Inl ''content must be a string (an empty string clears the crontab)''
           else
             (let priv = (map_of m ''privileged'' = Some (JBool True)); write = (map_of m ''content'' \<noteq> None) in
              if target = [] \<and> priv \<and> \<not> write \<and> \<not> info then cron_list_plan sudo caller m
              else if target = [] \<or> target = caller then Inr (cron_self_plan caller write info m)
              else cron_other_plan sudo caller target priv write info m)))"

text \<open>The attributes of a crontab write in the audit line; \<open>sha\<close> is SHA-256 in hexadecimal.\<close>

definition cronLines :: "string \<Rightarrow> nat" where
  "cronLines s = (if s = [] then 0 else count_char CHR 0x0A (trim_suffix s [CHR 0x0A]) + 1)"

record cron_audit =
  target_user :: string
  content_bytes :: nat
  content_lines :: nat
  content_sha256 :: string

definition dec_content :: "json list \<Rightarrow> string option" where
  "dec_content vs = foldl (\<lambda>a v. case v of JStr s \<Rightarrow> Some s | JNull \<Rightarrow> None | _ \<Rightarrow> a) None vs"

definition cronAuditAttrs :: "(string \<Rightarrow> string) \<Rightarrow> json \<Rightarrow> string \<Rightarrow> cron_audit option" where
  "cronAuditAttrs sha v target =
     (let vs = field_vals [''content''] ''content'' v in
      if \<not> is_structdoc v \<or> \<not> list_all is_str vs then None
      else map_option (\<lambda>c. \<lparr>target_user = target, content_bytes = length c, content_lines = cronLines c,
                            content_sha256 = sha c\<rparr>) (dec_content vs))"

subsection \<open>The one line a prune is audited with\<close>

text \<open>
  \<open>parse\<close> is the JSON decoder on the tool's output: target, count and bytes when it decodes.
\<close>

fun first_header :: "string list \<Rightarrow> string" where
  "first_header [] = []"
| "first_header (l # ls) = (if l = [] \<or> has_prefix l '' '' then first_header ls else trim_space l)"

definition pruneSummary :: "(string \<Rightarrow> (string \<times> int \<times> int) option) \<Rightarrow> string \<Rightarrow> string" where
  "pruneSummary parse resultText =
     (case (if has_prefix (trim_space resultText) ''{'' then parse resultText else None) of
        Some (target, count, reclaimed) \<Rightarrow> target @ '': '' @ int_str count @ '' removed, '' @ int_str reclaimed @ '' bytes''
      | None \<Rightarrow> first_header (split_on CHR 0x0A resultText))"

end
