(* ===== verification/DaemonConfig.thy ===== *)
theory DaemonConfig
  imports GoPath Complex_Main
begin

text \<open>
  The daemon's own configuration: \<^verbatim>\<open>internal/config/daemon.go\<close> (daemon.yaml and
  users.yaml: defaults, validation, the two places users may be listed) and the settings part of
  \<^verbatim>\<open>internal/logging/logging.go\<close>. YAML decoding is a library: the decoder's answer
  for a file's bytes is the parameter \<open>dec\<close>, as is the operating system's account table,
  \<open>lookup\<close>. A Go \<open>int\<close> read from YAML is an integer; rates are rationals.
\<close>

subsection \<open>Logging settings\<close>

record log_config =
  log_Level :: string
  log_Format :: string
  AccessLog :: "bool option"

datatype slog_level = LevelDebug | LevelInfo | LevelWarn | LevelError

definition parseLevel :: "string \<Rightarrow> slog_level result" where
  "parseLevel s =
     (let l = to_lower s in
      if l = '''' \<or> l = ''info'' then Inr LevelInfo
      else if l = ''debug'' then Inr LevelDebug
      else if l = ''warn'' \<or> l = ''warning'' then Inr LevelWarn
      else if l = ''error'' then Inr LevelError
      else Inl (''logging.level '' @ quoted s @ '': must be error, warn, info or debug''))"

definition log_Validate :: "log_config \<Rightarrow> unit result" where
  "log_Validate c =
     (case parseLevel (log_Level c) of
        Inl e \<Rightarrow> Inl e
      | Inr _ \<Rightarrow>
          if to_lower (log_Format c) \<in> {'''', ''text'', ''json''} then Inr ()
          else Inl (''logging.format '' @ quoted (log_Format c) @ '': must be text or json''))"

text \<open>The logger's state: threshold, access log switch, format name and whether the handler writes JSON.\<close>

record log_state =
  level :: slog_level
  accessOn :: bool
  format :: string
  json_handler :: "bool option"

definition Configure :: "log_config \<Rightarrow> log_state \<Rightarrow> log_state" where
  "Configure c s =
     (let lv = (case parseLevel (log_Level c) of Inl _ \<Rightarrow> LevelInfo | Inr l \<Rightarrow> l);
          s1 = s\<lparr>level := lv, accessOn := (AccessLog c \<noteq> Some False)\<rparr>;
          f = to_lower (log_Format c)
      in if format s = f \<and> json_handler s \<noteq> None then s1
         else s1\<lparr>format := f, json_handler := Some (f = ''json'')\<rparr>)"

fun severity :: "slog_level \<Rightarrow> int" where
  "severity LevelDebug = -4"
| "severity LevelInfo = 0"
| "severity LevelWarn = 4"
| "severity LevelError = 8"

definition log_Enabled :: "slog_level \<Rightarrow> log_state \<Rightarrow> bool" where
  "log_Enabled lv s \<longleftrightarrow> severity (level s) \<le> severity lv"

text \<open>The kinds of log line; \<open>Access\<close> and \<open>Audit\<close> bypass the level.\<close>

datatype log_line = Leveled slog_level string | Access_line | Audit_line string | Fatal_line string

fun logged :: "log_line \<Rightarrow> log_state \<Rightarrow> bool" where
  "logged (Leveled lv m) s = log_Enabled lv s"
| "logged Access_line s = accessOn s"
| "logged (Audit_line m) s = True"
| "logged (Fatal_line m) s = True"

subsection \<open>daemon.yaml and users.yaml\<close>

record tls_config =
  tls_Enabled :: bool
  tls_Port :: int
  CertFile :: string
  KeyFile :: string
  Generate :: bool
  Hosts :: "string list"

record http_config =
  http_Enabled :: bool
  http_Port :: int

record server_config =
  Port :: int
  TLS :: tls_config
  HTTP :: "http_config option"
  SSEKeepaliveSeconds :: int

record rate_limits =
  DefaultRPS :: rat
  DefaultBurst :: int

record worker_config =
  TimeoutSeconds :: int
  cfg_Containerized :: bool
  DockerSocket :: string

type_synonym tools_config = "(string \<times> int) list"

record daemon_user =
  Username :: string
  Token :: string
  TokenSalt :: string
  TokenHash :: string
  CreatedAt :: string
  PinnedUID :: string
  OSUID :: string

record daemon_config =
  Server :: server_config
  RateLimits :: rate_limits
  Worker :: worker_config
  dc_Tools :: tools_config
  Logging :: log_config
  dc_Users :: "daemon_user list"

text \<open>
  A duration is a signed 64-bit count of nanoseconds, so a huge number of seconds wraps around.
\<close>

definition wrap64 :: "int \<Rightarrow> int" where
  "wrap64 x = (x + 2 ^ 63) mod 2 ^ 64 - 2 ^ 63"

definition second :: int where
  "second = 1000000000"

definition DefaultSSEKeepalive :: int where
  "DefaultSSEKeepalive = 20 * second"

definition SSEKeepalive :: "daemon_config \<Rightarrow> int" where
  "SSEKeepalive d =
     (if 0 < SSEKeepaliveSeconds (Server d) then wrap64 (SSEKeepaliveSeconds (Server d) * second)
      else DefaultSSEKeepalive)"

definition DaemonFile :: string where "DaemonFile = ''daemon.yaml''"
definition UsersFile :: string where "UsersFile = ''users.yaml''"
definition SudoFile :: string where "SudoFile = ''mcp-sudo.yaml''"

record listener =
  l_Port :: int
  l_TLS :: bool

definition Listeners :: "daemon_config \<Rightarrow> listener list" where
  "Listeners c =
     (if tls_Enabled (TLS (Server c)) then [\<lparr>l_Port = tls_Port (TLS (Server c)), l_TLS = True\<rparr>] else []) @
     (case HTTP (Server c) of
        None \<Rightarrow> [\<lparr>l_Port = Port (Server c), l_TLS = False\<rparr>]
      | Some h \<Rightarrow> if http_Enabled h then [\<lparr>l_Port = http_Port h, l_TLS = False\<rparr>] else [])"

definition TLSFiles :: "daemon_config \<Rightarrow> string \<Rightarrow> string \<times> string" where
  "TLSFiles c configDir =
     (let abs = (\<lambda>p. if is_rooted p then p else join_path configDir p)
      in (abs (CertFile (TLS (Server c))), abs (KeyFile (TLS (Server c)))))"

text \<open>An account of the operating system, as \<open>user.Lookup\<close> returns it.\<close>

record os_user =
  Uid :: string
  Gid :: string
  os_Username :: string
  HomeDir :: string

type_synonym accounts = "string \<Rightarrow> os_user result"

fun validate_users_loop :: "accounts \<Rightarrow> string list \<Rightarrow> daemon_user list \<Rightarrow> unit result" where
  "validate_users_loop lookup seen [] = Inr ()"
| "validate_users_loop lookup seen (u # us) =
     (if Username u = [] then Inl ''a user has no username''
      else if Username u \<in> set seen then Inl (''user '' @ quoted (Username u) @ '' is listed twice'')
      else if Token u = [] \<and> TokenHash u = []
      then Inl (''user '' @ quoted (Username u) @ '' has no token (token_hash)'')
      else if TokenHash u \<noteq> [] \<and> TokenSalt u = []
      then Inl (''user '' @ quoted (Username u) @ '' has token_hash but no token_salt'')
      else if (case lookup (Username u) of Inl _ \<Rightarrow> False | Inr a \<Rightarrow> Uid a = ''0'')
      then Inl (''user '' @ quoted (Username u) @ '' is a root account (uid 0) on this host - MCP users must map to unprivileged OS accounts; grant root per tool in mcp-sudo.yaml instead'')
      else validate_users_loop lookup (Username u # seen) us)"

definition validateUsers :: "accounts \<Rightarrow> daemon_user list \<Rightarrow> unit result" where
  "validateUsers lookup us = validate_users_loop lookup [] us"

text \<open>The ports: defaults for the two layouts, and the settings that contradict each other.\<close>

definition default_ports :: "server_config \<Rightarrow> server_config result" where
  "default_ports s =
     (case HTTP s of
        None \<Rightarrow>
          (let s1 = (if Port s = 0 then s\<lparr>Port := 9091\<rparr> else s)
           in Inr (if tls_Enabled (TLS s1) \<and> tls_Port (TLS s1) = 0
                   then s1\<lparr>TLS := (TLS s1)\<lparr>tls_Port := 9443\<rparr>\<rparr> else s1))
      | Some h \<Rightarrow>
          if Port s \<noteq> 0
          then Inl ''server.port is the old plain-HTTP setting - with a server.http block, use http.port (and tls.port)''
          else
            (let s1 = (if tls_Port (TLS s) = 0 then s\<lparr>TLS := (TLS s)\<lparr>tls_Port := 9091\<rparr>\<rparr> else s)
             in Inr (if http_Port h = 0 then s1\<lparr>HTTP := Some (h\<lparr>http_Port := 9090\<rparr>)\<rparr> else s1)))"

definition default_cert :: "server_config \<Rightarrow> server_config" where
  "default_cert s =
     (if tls_Enabled (TLS s)
      then s\<lparr>TLS := (TLS s)
             \<lparr>CertFile := (if CertFile (TLS s) = [] then ''tls/mcpd.crt'' else CertFile (TLS s)),
              KeyFile := (if KeyFile (TLS s) = [] then ''tls/mcpd.key'' else KeyFile (TLS s))\<rparr>\<rparr>
      else s)"

definition default_limits :: "daemon_config \<Rightarrow> daemon_config" where
  "default_limits c =
     c\<lparr>Worker := (Worker c)\<lparr>TimeoutSeconds := (if TimeoutSeconds (Worker c) = 0 then 30 else TimeoutSeconds (Worker c))\<rparr>,
       RateLimits := \<lparr>DefaultRPS = (if DefaultRPS (RateLimits c) \<le> 0 then 50 else DefaultRPS (RateLimits c)),
                      DefaultBurst = (if DefaultBurst (RateLimits c) \<le> 0 then 100 else DefaultBurst (RateLimits c))\<rparr>\<rparr>"

text \<open>\<open>dec strict\<close> is the YAML decoder's answer for the file's bytes.\<close>

definition ParseDaemonConfig :: "accounts \<Rightarrow> (bool \<Rightarrow> daemon_config result) \<Rightarrow> bool \<Rightarrow> daemon_config result" where
  "ParseDaemonConfig lookup dec strict =
     (case dec strict of
        Inl e \<Rightarrow> Inl e
      | Inr c \<Rightarrow>
     (case default_ports (Server c) of
        Inl e \<Rightarrow> Inl e
      | Inr s \<Rightarrow>
          (let c1 = c\<lparr>Server := default_cert s\<rparr>; ls = Listeners c1 in
           if ls = [] then Inl ''no listener enabled: enable server.tls (or server.http)''
           else if length ls = 2 \<and> l_Port (ls ! 0) = l_Port (ls ! 1)
           then Inl (''TLS and plain HTTP are both set to port '' @ int_str (l_Port (ls ! 0)))
           else
             (let c2 = default_limits c1 in
              case log_Validate (Logging c2) of
                Inl e \<Rightarrow> Inl e
              | Inr _ \<Rightarrow> (case validateUsers lookup (dc_Users c2) of Inl e \<Rightarrow> Inl e | Inr _ \<Rightarrow> Inr c2)))))"

definition ParseUsersConfig :: "accounts \<Rightarrow> (bool \<Rightarrow> daemon_user list result) \<Rightarrow> bool \<Rightarrow> daemon_user list result" where
  "ParseUsersConfig lookup dec strict =
     (case dec strict of
        Inl e \<Rightarrow> Inl e
      | Inr us \<Rightarrow> (case validateUsers lookup us of Inl e \<Rightarrow> Inl e | Inr _ \<Rightarrow> Inr us))"

text \<open>What \<open>os.ReadFile\<close> says of a path; a file's content is given as its decoding.\<close>

datatype 'a file_read = NotExist | Unreadable goerr | Readable 'a

definition read_error :: "'a file_read \<Rightarrow> string \<Rightarrow> goerr" where
  "read_error f p = (case f of Unreadable e \<Rightarrow> e | _ \<Rightarrow> ''open '' @ p @ '': no such file or directory'')"

definition LoadDaemonConfig ::
  "accounts \<Rightarrow> (string \<Rightarrow> (bool \<Rightarrow> daemon_config result) file_read) \<Rightarrow> string \<Rightarrow> bool \<Rightarrow> daemon_config result" where
  "LoadDaemonConfig lookup files path strict =
     (case files path of
        Readable dec \<Rightarrow>
          (case ParseDaemonConfig lookup dec strict of Inl e \<Rightarrow> Inl (path @ '': '' @ e) | Inr c \<Rightarrow> Inr c)
      | f \<Rightarrow> Inl (read_error f path))"

definition LoadConfigDir ::
  "accounts \<Rightarrow> (string \<Rightarrow> (bool \<Rightarrow> daemon_config result) file_read) \<Rightarrow>
   (string \<Rightarrow> (bool \<Rightarrow> daemon_user list result) file_read) \<Rightarrow> string \<Rightarrow> bool \<Rightarrow> (daemon_config \<times> string) result" where
  "LoadConfigDir lookup files ufiles dir strict =
     (let daemonPath = join_path dir DaemonFile; usersPath = join_path dir UsersFile in
      case LoadDaemonConfig lookup files daemonPath strict of
        Inl e \<Rightarrow> Inl e
      | Inr c \<Rightarrow>
          (case ufiles usersPath of
             NotExist \<Rightarrow> Inr (c, daemonPath)
           | Unreadable e \<Rightarrow> Inl e
           | Readable dec \<Rightarrow>
               (case ParseUsersConfig lookup dec strict of
                  Inl e \<Rightarrow> Inl (usersPath @ '': '' @ e)
                | Inr us \<Rightarrow>
                    if dc_Users c \<noteq> []
                    then Inl (''users are listed in both '' @ daemonPath @ '' and '' @ usersPath @
                              '' - move any missing from '' @ UsersFile @ '' into it, then delete users: from '' @ DaemonFile)
                    else Inr (c\<lparr>dc_Users := us\<rparr>, usersPath))))"

subsection \<open>What validation guarantees\<close>

definition user_ok :: "accounts \<Rightarrow> daemon_user \<Rightarrow> bool" where
  "user_ok lookup u \<longleftrightarrow>
     Username u \<noteq> [] \<and> (Token u \<noteq> [] \<or> TokenHash u \<noteq> []) \<and> (TokenHash u \<noteq> [] \<longrightarrow> TokenSalt u \<noteq> []) \<and>
     (\<forall>a. lookup (Username u) = Inr a \<longrightarrow> Uid a \<noteq> ''0'')"

definition users_ok :: "accounts \<Rightarrow> daemon_user list \<Rightarrow> bool" where
  "users_ok lookup us \<longleftrightarrow> distinct (map Username us) \<and> (\<forall>u \<in> set us. user_ok lookup u)"

lemma validate_users_loop_iff:
  "validate_users_loop lookup seen us = Inr () \<longleftrightarrow>
   users_ok lookup us \<and> set (map Username us) \<inter> set seen = {}"
proof (induction lookup seen us rule: validate_users_loop.induct)
  case (2 lookup seen u us)
  show ?case
  proof (cases "user_ok lookup u \<and> Username u \<notin> set seen")
    case True
    then have "validate_users_loop lookup seen (u # us) = validate_users_loop lookup (Username u # seen) us"
      by (auto simp: user_ok_def split: sum.split)
    then show ?thesis using 2 True by (auto simp: users_ok_def user_ok_def split: sum.splits)
  next
    case False
    then have "validate_users_loop lookup seen (u # us) \<noteq> Inr ()"
      by (auto simp: user_ok_def split: sum.split)
    then show ?thesis using False by (auto simp: users_ok_def)
  qed
qed (simp add: users_ok_def)

lemma validateUsers_iff: "validateUsers lookup us = Inr () \<longleftrightarrow> users_ok lookup us"
  by (simp add: validateUsers_def validate_users_loop_iff)

definition daemon_ok :: "accounts \<Rightarrow> daemon_config \<Rightarrow> bool" where
  "daemon_ok lookup c \<longleftrightarrow>
     Listeners c \<noteq> [] \<and> distinct (map l_Port (Listeners c)) \<and> distinct (map l_TLS (Listeners c)) \<and>
     (\<forall>l \<in> set (Listeners c). l_Port l \<noteq> 0) \<and>
     (tls_Enabled (TLS (Server c)) \<longrightarrow> CertFile (TLS (Server c)) \<noteq> [] \<and> KeyFile (TLS (Server c)) \<noteq> []) \<and>
     0 < DefaultRPS (RateLimits c) \<and> 0 < DefaultBurst (RateLimits c) \<and> TimeoutSeconds (Worker c) \<noteq> 0 \<and>
     log_Validate (Logging c) = Inr () \<and> users_ok lookup (dc_Users c)"

lemma Server_default_limits [simp]: "Server (default_limits c) = Server c"
  by (simp add: default_limits_def)

lemma Listeners_default_limits [simp]: "Listeners (default_limits c) = Listeners c"
  by (simp only: Listeners_def Server_default_limits)

lemma default_ports_nonzero:
  assumes "default_ports s = Inr s'"
  shows "\<forall>l \<in> set (Listeners (c\<lparr>Server := default_cert s'\<rparr>)). l_Port l \<noteq> 0"
  using assms
  by (auto simp: default_ports_def default_cert_def Listeners_def Let_def split: option.splits if_splits)

lemma Listeners_shape:
  "Listeners c = [] \<or> (\<exists>l. Listeners c = [l]) \<or>
   (\<exists>p q. Listeners c = [\<lparr>l_Port = p, l_TLS = True\<rparr>, \<lparr>l_Port = q, l_TLS = False\<rparr>])"
  by (auto simp: Listeners_def split: option.split)

lemma ParseDaemonConfig_cases:
  assumes "ParseDaemonConfig lookup dec strict = Inr c"
  obtains c0 s where "default_ports (Server c0) = Inr s" "c = default_limits (c0\<lparr>Server := default_cert s\<rparr>)"
    "Listeners c \<noteq> []" "\<not> (length (Listeners c) = 2 \<and> l_Port (Listeners c ! 0) = l_Port (Listeners c ! 1))"
    "log_Validate (Logging c) = Inr ()" "users_ok lookup (dc_Users c)"
  using assms validateUsers_iff
  by (fastforce simp: ParseDaemonConfig_def Let_def split: sum.splits if_splits)


definition ex_daemon :: daemon_config where
  "ex_daemon =
     \<lparr>Server = \<lparr>Port = 0, TLS = \<lparr>tls_Enabled = True, tls_Port = 0, CertFile = [], KeyFile = [], Generate = True, Hosts = []\<rparr>,
        HTTP = Some \<lparr>http_Enabled = True, http_Port = 0\<rparr>, SSEKeepaliveSeconds = 0\<rparr>,
      RateLimits = \<lparr>DefaultRPS = 0, DefaultBurst = 0\<rparr>,
      Worker = \<lparr>TimeoutSeconds = 0, cfg_Containerized = False, DockerSocket = []\<rparr>,
      dc_Tools = [], Logging = \<lparr>log_Level = ''WARN'', log_Format = [], AccessLog = None\<rparr>,
      dc_Users = [\<lparr>Username = ''alice'', Token = [], TokenSalt = ''s'', TokenHash = ''h'', CreatedAt = [],
        PinnedUID = [], OSUID = []\<rparr>]\<rparr>"

definition ex_accounts :: accounts where
  "ex_accounts u =
     (if u = ''alice'' then Inr \<lparr>Uid = ''1000'', Gid = ''1000'', os_Username = u, HomeDir = ''/home/alice''\<rparr>
      else if u = ''root'' then Inr \<lparr>Uid = ''0'', Gid = ''0'', os_Username = u, HomeDir = ''/root''\<rparr>
      else Inl (''user: unknown user '' @ u))"


text \<open>
  The user list of a loaded configuration directory comes from exactly one file, the one named as
  the place to save UID pins: users.yaml when it exists, else daemon.yaml. It is an error when both
  list users. Either way the list has been validated.
\<close>

lemma LoadConfigDir_users:
  assumes "LoadConfigDir lookup files ufiles dir strict = Inr (c, usersPath)"
  shows "users_ok lookup (dc_Users c) \<and>
    ((usersPath = join_path dir DaemonFile \<and> ufiles (join_path dir UsersFile) = NotExist \<and>
      LoadDaemonConfig lookup files (join_path dir DaemonFile) strict = Inr c) \<or>
     (\<exists>c0 dec. usersPath = join_path dir UsersFile \<and> ufiles usersPath = Readable dec \<and>
        LoadDaemonConfig lookup files (join_path dir DaemonFile) strict = Inr c0 \<and> dc_Users c0 = [] \<and>
        dec strict = Inr (dc_Users c) \<and> c = c0\<lparr>dc_Users := dc_Users c\<rparr>))"
proof -
  have ld: "users_ok lookup (dc_Users c0)"
    if "LoadDaemonConfig lookup files p strict = Inr c0" for p c0
    using that ParseDaemonConfig_cases
    by (auto simp: LoadDaemonConfig_def split: file_read.splits sum.splits) metis
  show ?thesis
    using assms ld validateUsers_iff
    by (fastforce simp: LoadConfigDir_def Let_def ParseUsersConfig_def split: sum.splits file_read.splits if_splits)
qed

lemma ex_LoadConfigDir_users:
  "\<exists>c p. LoadConfigDir ex_accounts (\<lambda>_. Readable (\<lambda>_. Inr (ex_daemon\<lparr>dc_Users := []\<rparr>)))
       (\<lambda>_. Readable (\<lambda>_. Inr (dc_Users ex_daemon))) ''configs'' True = Inr (c, p) \<and>
     p = ''configs/users.yaml'' \<and> users_ok ex_accounts (dc_Users c)"
proof -
  have v: "log_Validate (Logging ex_daemon) = Inr ()" by code_simp
  have j: "join_path ''configs'' UsersFile = ''configs/users.yaml''" by code_simp
  have "\<exists>c. LoadConfigDir ex_accounts (\<lambda>_. Readable (\<lambda>_. Inr (ex_daemon\<lparr>dc_Users := []\<rparr>)))
       (\<lambda>_. Readable (\<lambda>_. Inr (dc_Users ex_daemon))) ''configs'' True = Inr (c, ''configs/users.yaml'')"
    using v j
    by (simp add: LoadConfigDir_def LoadDaemonConfig_def ParseUsersConfig_def ParseDaemonConfig_def ex_daemon_def
        default_ports_def default_cert_def default_limits_def Listeners_def validateUsers_def ex_accounts_def Let_def)
  then obtain c where c: "LoadConfigDir ex_accounts (\<lambda>_. Readable (\<lambda>_. Inr (ex_daemon\<lparr>dc_Users := []\<rparr>)))
       (\<lambda>_. Readable (\<lambda>_. Inr (dc_Users ex_daemon))) ''configs'' True = Inr (c, ''configs/users.yaml'')" by blast
  then show ?thesis using LoadConfigDir_users [OF c] by blast
qed

end
