(* ===== verification/Worker.thy ===== *)
theory Worker
  imports SudoConfig DaemonConfig GoJson "HOL-Library.Word"
begin

text \<open>
  Starting a worker (\<^verbatim>\<open>internal/worker/spawner.go\<close>), entering the host's mount
  namespace (\<^verbatim>\<open>internal/worker/hostns.go\<close>) and the worker's own entry point in
  \<^verbatim>\<open>cmd/mcpd/main.go\<close>. The operating system is a parameter: the account table, the
  daemon's effective uid and what a started process answers. What \<open>SpawnWorker\<close> decides is the
  \<open>process\<close> it starts, with the identity it runs under, at the kernel's 32-bit width.
\<close>

record worker_env =
  acct :: accounts
  group_ids :: "os_user \<Rightarrow> string list result"
  NoRoot :: bool
  Containerized :: bool
  executable :: "unit result"
  euid :: int

record process =
  proc_tool :: string
  proc_stdin :: "json option"
  host_root :: bool
  credential :: "(32 word \<times> 32 word \<times> 32 word list) option"
  timeout :: int

text \<open>How a process ended: its error, if any, and whether the deadline had passed.\<close>

datatype run_err = ExitCode int | OtherErr string

record run_result =
  deadline :: bool
  run_error :: "run_err option"
  stdout :: string
  stderr :: string

definition run_err_text :: "run_err \<Rightarrow> string" where
  "run_err_text e = (case e of ExitCode n \<Rightarrow> ''exit status '' @ int_str n | OtherErr s \<Rightarrow> s)"

text \<open>
  The number \<open>strconv.Atoi\<close> returns when its error is ignored: 0 for what is not a number, the
  nearest bound for one that does not fit.
\<close>

definition atoi_value :: "string \<Rightarrow> int" where
  "atoi_value s =
     (case atoi s of
        Some v \<Rightarrow> v
      | None \<Rightarrow>
          (let neg = has_prefix s ''-'';
               ds = (if has_prefix s ''-'' \<or> has_prefix s ''+'' then tl s else s)
           in if ds = [] \<or> \<not> list_all is_digit ds then 0 else if neg then - (2 ^ 63) else 2 ^ 63 - 1))"

definition ErrNoRoot :: goerr where
  "ErrNoRoot = ''privileged: true is not available when mcpd serves over stdio - it never runs anything as root. For root on specific tools, use the mcpd network daemon with a grant in mcp-sudo.yaml''"

definition target_groups :: "worker_env \<Rightarrow> os_user \<Rightarrow> 32 word list" where
  "target_groups env u =
     (case group_ids env u of
        Inl _ \<Rightarrow> []
      | Inr ids \<Rightarrow> map (\<lambda>n. word_of_int n) (List.map_filter atoi ids))"

text \<open>The identity a call runs under, or the refusal.\<close>

definition target_identity ::
  "worker_env \<Rightarrow> sudo_config option \<Rightarrow> string \<Rightarrow> string \<Rightarrow> bool \<Rightarrow> os_user \<Rightarrow>
   (32 word \<times> 32 word \<times> 32 word list) result" where
  "target_identity env sudo username toolName privileged u =
     (if atoi_value (Uid u) = 0
      then Inl (''MCP user '' @ quoted username @ '' is the OS account '' @ os_Username u @ '' with uid 0 (root) - refused: map MCP users to unprivileged accounts, and grant root per tool in mcp-sudo.yaml'')
      else if privileged \<and> NoRoot env then Inl ErrNoRoot
      else if privileged then
        (if has_prefix toolName ''read_'' then Inr (0, 0, [0])
         else if (case sudo of None \<Rightarrow> False | Some c \<Rightarrow> CanRunAsRoot c username toolName) then Inr (0, 0, [0])
         else Inl ''Permission denied. Hint: You are not authorized to use 'privileged: true' for this tool in mcp-sudo.yaml'')
      else Inr (word_of_int (atoi_value (Uid u)), word_of_int (atoi_value (Gid u)), target_groups env u))"

text \<open>Everything up to \<open>cmd.Run\<close>: the process that would be started.\<close>

definition spawn_process ::
  "worker_env \<Rightarrow> sudo_config option \<Rightarrow> string \<Rightarrow> string \<Rightarrow> json option \<Rightarrow> bool \<Rightarrow> int \<Rightarrow> process result" where
  "spawn_process env sudo username toolName toolArgs privileged timeoutSeconds =
     (case acct env username of
        Inl e \<Rightarrow> Inl (''failed to lookup OS user '' @ username @ '': '' @ e)
      | Inr u \<Rightarrow>
     (case target_identity env sudo username toolName privileged u of
        Inl e \<Rightarrow> Inl e
      | Inr (uid, gid, groups) \<Rightarrow>
     (case executable env of
        Inl e \<Rightarrow> Inl (''failed to determine executable: '' @ e)
      | Inr _ \<Rightarrow>
          if euid env \<noteq> 0 \<and> uid \<noteq> word_of_int (euid env)
          then Inl (''mcpd runs as uid '' @ int_str (euid env) @ '' and cannot start a worker as '' @ username @
                    '' (uid '' @ nat_str (unat uid) @ '')'')
          else Inr \<lparr>proc_tool = toolName, proc_stdin = toolArgs, host_root = (privileged \<and> Containerized env),
                    credential = (if euid env = 0 then Some (uid, gid, groups) else None),
                    timeout = timeoutSeconds\<rparr>)))"

definition looksLikePermissionError :: "string \<Rightarrow> bool" where
  "looksLikePermissionError msg \<longleftrightarrow>
     list_ex (\<lambda>s. contains (to_lower msg) s)
       [''permission denied'', ''operation not permitted'', ''insufficient permissions'', ''not permitted to'']"

definition newline :: string where
  "newline = [CHR 0x0A]"

text \<open>What the caller is told about a finished process.\<close>

definition spawn_answer ::
  "sudo_config option \<Rightarrow> string \<Rightarrow> string \<Rightarrow> bool \<Rightarrow> int \<Rightarrow> run_result \<Rightarrow> string result" where
  "spawn_answer sudo username toolName privileged timeoutSeconds r =
     (if deadline r then Inl (''timed out after '' @ int_str timeoutSeconds @ '' seconds - the call was stopped'')
      else case run_error r of
        None \<Rightarrow> Inr (stdout r)
      | Some e \<Rightarrow>
          (let msg = trim_space (stderr r) in
           if e = ExitCode 1 \<and> msg \<noteq> [] then
             (if \<not> privileged \<and> looksLikePermissionError msg \<and>
                 (case sudo of None \<Rightarrow> False | Some c \<Rightarrow> CanRunAsRoot c username toolName)
              then Inl (msg @ '' ('' @ toolName @ '' is granted to you as root in mcp-sudo.yaml: retry with privileged: true)'')
              else Inl msg)
           else if msg \<noteq> [] then Inl (''worker failed: '' @ run_err_text e @ '': '' @ msg)
           else Inl (''worker failed: '' @ run_err_text e)))"

text \<open>
  \<open>SpawnWorker\<close>: the processes it starts (none or one) and the answer; \<open>run p\<close> is what
  process \<open>p\<close> does.
\<close>

definition SpawnWorker ::
  "worker_env \<Rightarrow> (process \<Rightarrow> run_result) \<Rightarrow> string \<Rightarrow> string \<Rightarrow> json option \<Rightarrow> bool \<Rightarrow> sudo_config option \<Rightarrow> int \<Rightarrow>
   process list \<times> string result" where
  "SpawnWorker env run username toolName toolArgs privileged sudo timeoutSeconds =
     (case spawn_process env sudo username toolName toolArgs privileged timeoutSeconds of
        Inl e \<Rightarrow> ([], Inl e)
      | Inr p \<Rightarrow> ([p], spawn_answer sudo username toolName privileged timeoutSeconds (run p)))"

subsection \<open>Entering the host\<close>

text \<open>The system calls of \<open>JoinHostMountNamespace\<close>, in order; each may fail.\<close>

datatype ns_call = UnshareFS | OpenHostNs | SetnsMnt | ChdirHostRoot | ChrootDot | ChdirSlash

definition sameNamespace :: "(string \<Rightarrow> (nat \<times> nat) result) \<Rightarrow> string \<Rightarrow> string \<Rightarrow> bool result" where
  "sameNamespace stat a b =
     (case stat a of
        Inl e \<Rightarrow> Inl (''stat '' @ a @ '': '' @ e)
      | Inr x \<Rightarrow> (case stat b of Inl e \<Rightarrow> Inl (''stat '' @ b @ '': '' @ e) | Inr y \<Rightarrow> Inr (x = y)))"

definition IsContainerized :: "(string \<Rightarrow> (nat \<times> nat) result) \<Rightarrow> bool result" where
  "IsContainerized stat =
     (case sameNamespace stat ''/proc/self/ns/mnt'' ''/proc/1/ns/mnt'' of Inl e \<Rightarrow> Inl e | Inr same \<Rightarrow> Inr (\<not> same))"

fun ns_message :: "ns_call \<Rightarrow> string" where
  "ns_message UnshareFS = ''unshare(CLONE_FS): ''"
| "ns_message OpenHostNs = ''open host mount namespace: ''"
| "ns_message SetnsMnt = ''setns(CLONE_NEWNS): ''"
| "ns_message ChdirHostRoot = ''chdir to host root: ''"
| "ns_message ChrootDot = ''chroot to host root: ''"
| "ns_message ChdirSlash = []"

fun ns_run :: "(ns_call \<Rightarrow> unit result) \<Rightarrow> ns_call list \<Rightarrow> ns_call list \<times> unit result" where
  "ns_run sys [] = ([], Inr ())"
| "ns_run sys (c # cs) =
     (case sys c of
        Inl e \<Rightarrow> ([c], Inl (ns_message c @ e))
      | Inr _ \<Rightarrow> (let (done, r) = ns_run sys cs in (c # done, r)))"

definition ns_sequence :: "ns_call list" where
  "ns_sequence = [UnshareFS, OpenHostNs, SetnsMnt, ChdirHostRoot, ChrootDot, ChdirSlash]"

definition JoinHostMountNamespace ::
  "(string \<Rightarrow> (nat \<times> nat) result) \<Rightarrow> (ns_call \<Rightarrow> unit result) \<Rightarrow> ns_call list \<times> unit result" where
  "JoinHostMountNamespace stat sys =
     (if sameNamespace stat ''/proc/self/ns/mnt'' ''/proc/1/ns/mnt'' = Inr True
      then ([], Inl ''no host in view - PID 1 is in this process's own mount namespace; if mcpd runs directly on the host, set worker.containerized: false'')
      else ns_run sys ns_sequence)"

text \<open>
  The worker's entry point: enter the host when told to, look the tool up in the table of handlers, and
  report its answer as output and exit status. \<open>None\<close> for the tool is the fatal \<open>Unknown tool\<close>.
\<close>

definition worker_main ::
  "bool \<Rightarrow> unit result \<Rightarrow> (string \<Rightarrow> (json option \<Rightarrow> string result) option) \<Rightarrow> string \<Rightarrow> json option \<Rightarrow> run_result" where
  "worker_main hostRoot join handlers toolName toolArgs =
     (case (if hostRoot then join else Inr ()) of
        Inl e \<Rightarrow> \<lparr>deadline = False, run_error = Some (ExitCode 1), stdout = [],
                  stderr = ''cannot switch to the host's filesystem - is the mcpd container running with --privileged --pid host? ('' @ e @ '')'' @ newline\<rparr>
      | Inr _ \<Rightarrow>
          (case handlers toolName of
             None \<Rightarrow> \<lparr>deadline = False, run_error = Some (ExitCode 1), stdout = [], stderr = ''Unknown tool: '' @ toolName @ newline\<rparr>
           | Some handler \<Rightarrow>
               (case handler toolArgs of
                  Inl e \<Rightarrow> \<lparr>deadline = False, run_error = Some (ExitCode 1), stdout = [], stderr = e @ newline\<rparr>
                | Inr out \<Rightarrow> \<lparr>deadline = False, run_error = None, stdout = out, stderr = []\<rparr>)))"

subsection \<open>Who a worker runs as\<close>

definition run_uid :: "worker_env \<Rightarrow> process \<Rightarrow> 32 word" where
  "run_uid env p = (case credential p of Some (uid, _) \<Rightarrow> uid | None \<Rightarrow> word_of_int (euid env))"

text \<open>What the kernel guarantees of user ids: they fit 32 bits.\<close>

definition uids32 :: "worker_env \<Rightarrow> bool" where
  "uids32 env \<longleftrightarrow>
     0 \<le> euid env \<and> euid env < 2 ^ 32 \<and>
     (\<forall>n u. acct env n = Inr u \<longrightarrow> 0 \<le> atoi_value (Uid u) \<and> atoi_value (Uid u) < 2 ^ 32)"

lemma word32_of_int_0_iff: "0 \<le> n \<Longrightarrow> n < 2 ^ 32 \<Longrightarrow> (word_of_int n :: 32 word) = 0 \<longleftrightarrow> n = 0"
proof -
  assume "0 \<le> n" "n < 2 ^ 32"
  then have "uint (word_of_int n :: 32 word) = n" by (simp add: uint_word_of_int take_bit_int_eq_self)
  then show ?thesis by (metis uint_0_iff)
qed

lemma spawn_processD:
  assumes "spawn_process env sudo username toolName toolArgs privileged t = Inr p"
  obtains u uid gid groups where "acct env username = Inr u"
    "target_identity env sudo username toolName privileged u = Inr (uid, gid, groups)"
    "euid env \<noteq> 0 \<Longrightarrow> uid = word_of_int (euid env)"
    "credential p = (if euid env = 0 then Some (uid, gid, groups) else None)"
    "proc_tool p = toolName" "proc_stdin p = toolArgs" "host_root p = (privileged \<and> Containerized env)"
    "timeout p = t"
  using assms by (auto simp: spawn_process_def split: sum.splits if_splits prod.splits)

lemma target_identity_root:
  assumes "target_identity env sudo username toolName True u = Inr (uid, gid, groups)"
  shows "uid = 0 \<and> gid = 0 \<and> groups = [0] \<and> \<not> NoRoot env \<and>
    (has_prefix toolName ''read_'' \<or> (\<exists>c. sudo = Some c \<and> CanRunAsRoot c username toolName))"
  using assms by (auto simp: target_identity_def split: if_splits option.splits)

lemma target_identity_user:
  assumes "target_identity env sudo username toolName False u = Inr (uid, gid, groups)"
  shows "atoi_value (Uid u) \<noteq> 0 \<and> uid = word_of_int (atoi_value (Uid u)) \<and>
    gid = word_of_int (atoi_value (Gid u)) \<and> groups = target_groups env u"
  using assms by (auto simp: target_identity_def split: if_splits)

lemma SpawnWorker_started:
  "p \<in> set (fst (SpawnWorker env run username toolName toolArgs privileged sudo t)) \<longleftrightarrow>
   spawn_process env sudo username toolName toolArgs privileged t = Inr p"
  by (auto simp: SpawnWorker_def split: sum.split)


definition ex_env :: worker_env where
  "ex_env = \<lparr>acct = ex_accounts, group_ids = (\<lambda>_. Inr [''1000'', ''27'']), NoRoot = False, Containerized = True,
     executable = Inr (), euid = 0\<rparr>"

lemma ex_env_uids32: "uids32 ex_env"
proof -
  have "atoi_value ''1000'' = 1000" "atoi_value ''0'' = 0" by code_simp+
  then show ?thesis by (auto simp: uids32_def ex_env_def ex_accounts_def split: if_splits)
qed


subsection \<open>The host's namespaces\<close>

lemma ns_run_prefix: "prefix (fst (ns_run sys cs)) cs"
  by (induction sys cs rule: ns_run.induct) (auto split: sum.split prod.splits)

lemma ns_run_ok: "snd (ns_run sys cs) = Inr () \<longleftrightarrow> (\<forall>c \<in> set cs. \<exists>x. sys c = Inr x)"
  by (induction sys cs rule: ns_run.induct) (auto split: sum.split prod.splits)

lemma ns_run_all: "snd (ns_run sys cs) = Inr () \<Longrightarrow> fst (ns_run sys cs) = cs"
  by (induction sys cs rule: ns_run.induct) (auto split: sum.splits prod.splits)



end
