(* ===== verification/CronManage.thy ===== *)
theory CronManage
  imports RpcPrepare Worker
begin

text \<open>
  The worker behind \<open>cron/manage\<close> (\<^verbatim>\<open>internal/tools/cron/manage/manage.go\<close>):
  it decodes the arguments the master prepared and carries out one action with the \<open>crontab\<close>
  command. The command is a parameter, \<open>crontab_exec\<close>: given the credentials of the child
  (\<open>None\<close> for the worker's own), its input and its argument, it returns output, error output and
  exit status, and changes the spool. SHA-256 is the parameter \<open>sha\<close>.
\<close>

definition MaxContent :: nat where
  "MaxContent = 65536"

record cron_args =
  ca_User :: string
  ca_Content :: "string option"
  IfMatch :: string
  ca_OutputFormat :: string
  ca_Mode :: string
  TargetUser :: string
  ViewUsers :: "string list"
  Info :: bool

definition cron_fields :: "string list" where
  "cron_fields = [''user'', ''content'', ''if_match'', ''output_format'', ''_mode'', ''_target_user'', ''_view_users'', ''_info'']"

definition cron_decode :: "json \<Rightarrow> cron_args" where
  "cron_decode v =
     (let fv = (\<lambda>f. field_vals cron_fields f v) in
      \<lparr>ca_User = dec_string [] (fv ''user''), ca_Content = dec_content (fv ''content''),
       IfMatch = dec_string [] (fv ''if_match''), ca_OutputFormat = dec_string [] (fv ''output_format''),
       ca_Mode = dec_string [] (fv ''_mode''), TargetUser = dec_string [] (fv ''_target_user''),
       ViewUsers = dec_strings [] (fv ''_view_users''), Info = dec_bool False (fv ''_info'')\<rparr>)"

definition cron_types_ok :: "json \<Rightarrow> bool" where
  "cron_types_ok v \<longleftrightarrow>
     (let fv = (\<lambda>f. field_vals cron_fields f v) in
      is_structdoc v \<and>
      list_all (\<lambda>f. list_all is_str (fv f)) [''user'', ''content'', ''if_match'', ''output_format'', ''_mode'', ''_target_user''] \<and>
      list_all is_strs (fv ''_view_users'') \<and> list_all is_bool (fv ''_info''))"

definition cron_parse :: "json option \<Rightarrow> cron_args result" where
  "cron_parse raw =
     (case raw of
        None \<Rightarrow> Inr (cron_decode JNull)
      | Some v \<Rightarrow> if cron_types_ok v then Inr (cron_decode v) else Inl ''invalid arguments'')"

subsection \<open>Counting\<close>

definition countLines :: "string \<Rightarrow> nat" where
  "countLines s = (if s = [] then 0 else count_char CHR 0x0A (trim_suffix s [CHR 0x0A]) + 1)"

definition is_assignment :: "string \<Rightarrow> bool" where
  "is_assignment t \<longleftrightarrow>
     (let name = takeWhile (\<lambda>c. c \<noteq> CHR ''='') t
      in CHR ''='' \<in> set t \<and> name \<noteq> [] \<and> \<not> list_ex (\<lambda>c. c = CHR '' '' \<or> c = CHR 0x09) name)"

definition countJobs :: "string \<Rightarrow> nat" where
  "countJobs s =
     length (filter (\<lambda>l. let t = trim_space l in t \<noteq> [] \<and> \<not> has_prefix t ''#'' \<and> \<not> is_assignment t)
       (split_on CHR 0x0A s))"

text \<open>\<open>strings.SplitN s "\n" 4\<close> and its fourth part.\<close>

definition stripSpoolHeader :: "string \<Rightarrow> string" where
  "stripSpoolHeader s =
     (if \<not> has_prefix s ''# DO NOT EDIT THIS FILE'' then s
      else let parts = split_on CHR 0x0A s
           in if length parts < 4 then [] else join_with [CHR 0x0A] (drop 3 parts))"

subsection \<open>Running the command\<close>

type_synonym cred = "32 word \<times> 32 word \<times> 32 word list"

record 'sp cron_host =
  binary :: "unit result"
  worker_euid :: int
  host_acct :: accounts
  host_groups :: "os_user \<Rightarrow> string list result"
  crontab_exec :: "cred option \<Rightarrow> string option \<Rightarrow> string \<Rightarrow> 'sp \<Rightarrow> (string \<times> string \<times> (goerr + int)) \<times> 'sp"

definition parse_uint32 :: "string \<Rightarrow> nat option" where
  "parse_uint32 s = (if s = [] \<or> \<not> list_all is_digit s \<or> 2 ^ 32 \<le> dec_val s then None else Some (dec_val s))"

text \<open>\<open>Inr None\<close>: the command runs as root, which is for viewing only.\<close>

definition credentialFor :: "'sp cron_host \<Rightarrow> cron_args \<Rightarrow> cred option result" where
  "credentialFor h a =
     (if worker_euid h \<noteq> 0 then Inl ''acting on another account's crontab needs the root worker''
      else case host_acct h (TargetUser a) of
        Inl _ \<Rightarrow> Inl (''no account named '' @ TargetUser a @ '' on this host'')
      | Inr u \<Rightarrow>
          (case (parse_uint32 (Uid u), parse_uint32 (Gid u)) of
             (Some uid, Some gid) \<Rightarrow>
               if uid = 0 then
                 (if ca_Content a \<noteq> None then Inl ''root's crontab may be viewed but never edited through mcpd''
                  else Inr None)
               else Inr (Some (of_nat uid, of_nat gid,
                 (case host_groups h u of Inl _ \<Rightarrow> [] | Inr ids \<Rightarrow> map of_nat (List.map_filter parse_uint32 ids))))
           | _ \<Rightarrow> Inl (''account '' @ TargetUser a @ '' has no numeric ids'')))"

text \<open>Output, error output, exit code and error, and the spool afterwards.\<close>

definition cron_run ::
  "'sp cron_host \<Rightarrow> cron_args \<Rightarrow> string option \<Rightarrow> string \<Rightarrow> 'sp \<Rightarrow> (string \<times> string \<times> int \<times> goerr option) \<times> 'sp" where
  "cron_run h a input arg sp =
     (case binary h of
        Inl e \<Rightarrow> (([], [], 0, Some e), sp)
      | Inr _ \<Rightarrow>
          (case (if ca_Mode a = ''other'' then credentialFor h a else Inr None) of
             Inl e \<Rightarrow> (([], [], 0, Some e), sp)
           | Inr cred \<Rightarrow>
               (case crontab_exec h cred input arg sp of
                  ((out, err, Inl e), sp') \<Rightarrow> ((out, err, 0, Some e), sp')
                | ((out, err, Inr code), sp') \<Rightarrow> ((out, err, code, None), sp'))))"

definition crontabError :: "string \<Rightarrow> string \<Rightarrow> goerr option \<Rightarrow> goerr" where
  "crontabError what err e =
     (let msg = trim_space err
      in what @ '': '' @ (if msg = [] then (case e of Some m \<Rightarrow> m | None \<Rightarrow> []) else msg))"

definition cron_current :: "'sp cron_host \<Rightarrow> cron_args \<Rightarrow> 'sp \<Rightarrow> (string \<times> bool) result \<times> 'sp" where
  "cron_current h a sp =
     (case cron_run h a None ''-l'' sp of
        ((out, err, code, Some e), sp') \<Rightarrow> (Inl (crontabError ''reading the crontab'' err (Some e)), sp')
      | ((out, err, code, None), sp') \<Rightarrow>
          if code \<noteq> 0 then
            (if contains err ''no crontab for'' then (Inr ([], False), sp')
             else (Inl (crontabError ''reading the crontab'' err None), sp'))
          else (Inr (out, True), sp'))"

record crontab_result =
  cr_User :: string
  Exists :: bool
  Lines :: nat
  Jobs :: nat
  Bytes :: nat
  SHA256 :: string
  cr_Content :: string

definition describe :: "(string \<Rightarrow> string) \<Rightarrow> cron_args \<Rightarrow> string \<Rightarrow> bool \<Rightarrow> crontab_result" where
  "describe sha a content exists =
     \<lparr>cr_User = (if ca_Mode a = ''self'' \<or> TargetUser a = []
                then (if ca_User a = [] then TargetUser a else ca_User a) else TargetUser a),
      Exists = exists, Lines = countLines content, Jobs = countJobs content, Bytes = length content,
      SHA256 = sha content, cr_Content = content\<rparr>"

definition crontab_json :: "crontab_result \<Rightarrow> json" where
  "crontab_json r =
     JObj ([(''user'', JStr (cr_User r)), (''exists'', JBool (Exists r)), (''lines'', JNum (int (Lines r)) 0),
            (''jobs'', JNum (int (Jobs r)) 0), (''bytes'', JNum (int (Bytes r)) 0), (''sha256'', JStr (SHA256 r))] @
           (if cr_Content r = [] then [] else [(''content'', JStr (cr_Content r))]))"

definition cron_read :: "(string \<Rightarrow> string) \<Rightarrow> 'sp cron_host \<Rightarrow> cron_args \<Rightarrow> 'sp \<Rightarrow> tool_out result \<times> 'sp" where
  "cron_read sha h a sp =
     (case cron_current h a sp of
        (Inl e, sp') \<Rightarrow> (Inl e, sp')
      | (Inr (content, exists), sp') \<Rightarrow>
          (let res = describe sha a content exists in
           if Info a then (Inr (Doc (crontab_json (res\<lparr>cr_Content := []\<rparr>))), sp')
           else if structured_format (ca_OutputFormat a) then (Inr (Doc (crontab_json res)), sp')
           else (Inr (Text content), sp')))"

definition cron_write :: "(string \<Rightarrow> string) \<Rightarrow> 'sp cron_host \<Rightarrow> cron_args \<Rightarrow> string \<Rightarrow> 'sp \<Rightarrow> tool_out result \<times> 'sp" where
  "cron_write sha h a content0 sp =
     (if MaxContent < length content0
      then (Inl (''content is '' @ nat_str (length content0) @ '' bytes, the limit is '' @ nat_str MaxContent), sp)
      else if CHR 0x00 \<in> set content0 then (Inl ''content contains a NUL byte'', sp)
      else case cron_current h a sp of
        (Inl e, sp') \<Rightarrow> (Inl e, sp')
      | (Inr (prev, exists), sp') \<Rightarrow>
          if IfMatch a \<noteq> [] \<and> fold_name (IfMatch a) \<noteq> fold_name (sha prev)
          then (Inl (''the crontab changed since you read it (its sha256 is now '' @ sha prev @ '', you passed '' @
                     IfMatch a @ '') - read it again''), sp')
          else
            (let content = (if content0 \<noteq> [] \<and> \<not> has_suffix content0 [CHR 0x0A] then content0 @ [CHR 0x0A] else content0);
                 report = (let res = describe sha a content (content \<noteq> []) in
                   if structured_format (ca_OutputFormat a)
                   then Doc (JObj [(''jobs'', JNum (int (Jobs res)) 0), (''lines'', JNum (int (Lines res)) 0),
                                   (''previous_sha256'', JStr (sha prev)), (''sha256'', JStr (SHA256 res)),
                                   (''user'', JStr (cr_User res))])
                   else Text (''Crontab of '' @ cr_User res @ '' replaced: '' @ nat_str (Lines res) @ '' lines, sha256 '' @
                              SHA256 res @ '' (was '' @ sha prev @ '')''))
             in if content = [] \<and> \<not> exists then (Inr report, sp')
                else if content = [] then
                  (case cron_run h a None ''-r'' sp' of
                     ((out, err, code, e), sp2) \<Rightarrow>
                       if e \<noteq> None \<or> code \<noteq> 0 then (Inl (crontabError ''clearing the crontab'' err e), sp2)
                       else (Inr report, sp2))
                else
                  (case cron_run h a (Some content) ''-'' sp' of
                     ((out, err, code, e), sp2) \<Rightarrow>
                       if e \<noteq> None \<or> code \<noteq> 0
                       then (Inl (crontabError ''crontab rejected the file - the old crontab is unchanged'' err e), sp2)
                       else (Inr report, sp2))))"

text \<open>The spool directory as the list sees it: per name whether \<open>lstat\<close> says a regular file, its text and its time.\<close>

record spool_entry =
  sp_name :: string
  regular :: bool
  sp_text :: "string result"
  modified :: string

definition cron_rows :: "cron_args \<Rightarrow> spool_entry list \<Rightarrow> (string \<times> nat \<times> string) list" where
  "cron_rows a entries =
     sort_key fst (concat (map (\<lambda>e.
       if sp_name e \<in> set (ViewUsers a) \<and> ValidAccountName (sp_name e) \<and> regular e
       then (case sp_text e of Inl _ \<Rightarrow> [] | Inr d \<Rightarrow> [(sp_name e, countLines (stripSpoolHeader d), modified e)])
       else []) entries))"

definition cron_list :: "(string \<times> spool_entry list result) option \<Rightarrow> cron_args \<Rightarrow> tool_out result" where
  "cron_list spool a =
     (case spool of
        None \<Rightarrow> Inl ''no crontab spool directory on this host (cron is not installed?)''
      | Some (dir, Inl e) \<Rightarrow> Inl (''reading '' @ dir @ '': '' @ e)
      | Some (dir, Inr entries) \<Rightarrow>
          (let rows = cron_rows a entries in
           if structured_format (ca_OutputFormat a)
           then Inr (Doc (JArr (map (\<lambda>(u, n, t). JObj [(''user'', JStr u), (''lines'', JNum (int n) 0), (''modified'', JStr t)]) rows)))
           else if rows = [] then Inr (Text ''No crontabs found for the accounts you may view.'')
           else Inr (Text (concat (map (\<lambda>(u, n, t). pad_right 16 u @ '' '' @ pad_right 6 n @ '' '' @ t @ newline)
                  ((''USER'', ''LINES'', ''MODIFIED'') # map (\<lambda>(u, n, t). (u, nat_str n, t)) rows))))))"

definition Manage ::
  "(string \<Rightarrow> string) \<Rightarrow> 'sp cron_host \<Rightarrow> (string \<times> spool_entry list result) option \<Rightarrow> json option \<Rightarrow> 'sp \<Rightarrow>
   tool_out result \<times> 'sp" where
  "Manage sha h spool raw sp =
     (case cron_parse raw of
        Inl e \<Rightarrow> (Inl e, sp)
      | Inr a \<Rightarrow>
          if ca_Mode a = ''list'' then (cron_list spool a, sp)
          else if ca_Mode a = ''self'' \<or> ca_Mode a = ''other'' then
            (if ca_Mode a = ''other'' \<and> \<not> ValidAccountName (TargetUser a)
             then (Inl (''invalid account name '' @ quoted (TargetUser a)), sp)
             else case ca_Content a of
                    Some c \<Rightarrow> cron_write sha h a c sp
                  | None \<Rightarrow> cron_read sha h a sp)
          else (Inl ''cron/manage was not prepared by the daemon (no mode)'', sp))"

subsection \<open>What the master lets through\<close>

lemma distinct_fold_map_del: "distinct (map fst m) \<Longrightarrow> distinct (map fst (fold map_del ks m))"
  by (induction ks arbitrary: m) (simp_all add: distinct_map_del)

lemma cron_members_distinct:
  assumes "cron_members raw = Inr m"
  shows "distinct (map fst m)"
  using assms distinct_fill_map
  by (auto simp: cron_members_def unmarshal_map_def intro!: distinct_fold_map_del
      split: option.splits json.splits sum.splits if_splits)

lemma mode_names: "fold_safe ''_mode''" "''_mode'' \<in> set cron_fields" "fold_safe ''_info''" "''_info'' \<in> set cron_fields"
  by (simp_all add: fold_safe_def fold_safe_char_def cron_fields_def)

lemma decoded_mode:
  assumes "distinct (map fst m)" and "map_of m ''_mode'' = Some (JStr s)"
  shows "ca_Mode (cron_decode (marshal_map m)) = s"
proof -
  obtain ws where "field_vals cron_fields ''_mode'' (marshal_map m) = ws @ [JStr s]"
    using field_vals_marshal_last [OF mode_names(1,2) assms] by blast
  then show ?thesis by (simp add: cron_decode_def Let_def dec_string_last)
qed

lemma prepareCronCall_plan:
  assumes "prepareCronCall sudo caller raw info = Inr plan"
  obtains m where "cron_members raw = Inr m"
    "cron_list_plan sudo caller m = Inr plan" "map_of m ''content'' = None"
  | m where "cron_members raw = Inr m" "plan = cron_self_plan caller (map_of m ''content'' \<noteq> None) info m"
  | m target where "cron_members raw = Inr m" "target \<noteq> caller" "target \<noteq> []"
    "map_of m ''user'' = Some (JStr target)" "ValidAccountName target"
    "cron_other_plan sudo caller target True (map_of m ''content'' \<noteq> None) info m = Inr plan"
proof -
  obtain m where m: "cron_members raw = Inr m" using assms by (auto simp: prepareCronCall_def split: sum.splits)
  let ?t = "json_text (map_of m ''user'')"
  have t: "?t \<noteq> [] \<Longrightarrow> map_of m ''user'' = Some (JStr ?t)"
    by (auto simp: json_text_def split: option.splits json.splits)
  let ?priv = "map_of m ''privileged'' = Some (JBool True)" and ?wr = "map_of m ''content'' \<noteq> None"
  have ok: "?t = [] \<or> ValidAccountName ?t"
    and cont: "(if ?t = [] \<and> ?priv \<and> \<not> ?wr \<and> \<not> info then cron_list_plan sudo caller m
      else if ?t = [] \<or> ?t = caller then Inr (cron_self_plan caller ?wr info m)
      else cron_other_plan sudo caller ?t ?priv ?wr info m) = Inr plan"
    using assms unfolding prepareCronCall_def m sum.case Let_def by (simp_all only: split: if_splits) simp_all
  show ?thesis
  proof (cases "?t = [] \<and> ?priv \<and> \<not> ?wr \<and> \<not> info")
    case True
    then show ?thesis using cont that(1) [OF m] by simp
  next
    case nl: False
    show ?thesis
    proof (cases "?t = [] \<or> ?t = caller")
      case True
      then have "plan = cron_self_plan caller ?wr info m" using cont nl by (simp only: if_False if_True sum.inject)
      then show ?thesis using that(2) [OF m] by blast
    next
      case False
      then have o: "cron_other_plan sudo caller ?t ?priv ?wr info m = Inr plan"
        using cont nl by (simp only: if_False)
      then have "?priv" by (simp add: cron_other_plan_def split: if_splits)
      then have "cron_other_plan sudo caller ?t True ?wr info m = Inr plan" using o by simp
      then show ?thesis using that(3) [OF m _ _ t] False ok by blast
    qed
  qed
qed

lemma cron_other_plan_ok:
  assumes "cron_other_plan sudo caller target priv write info m = Inr plan"
  shows "cp_Privileged plan \<and> cp_Write plan = write \<and> cp_Target plan = target \<and> priv \<and>
    CanRunAsRoot sudo caller CronTool \<and> (write \<longrightarrow> Edit (CronRuleFor sudo caller target)) \<and>
    (\<not> write \<longrightarrow> View (CronRuleFor sudo caller target)) \<and>
    cp_Args plan = marshal_map (map_put ''_info'' (JBool info) (map_put ''_target_user'' (JStr target)
                     (map_put ''_mode'' (JStr ''other'') m)))"
  using assms by (auto simp: cron_other_plan_def Let_def split: if_splits)

lemma cron_list_plan_ok:
  assumes "cron_list_plan sudo caller m = Inr plan"
  shows "cp_Privileged plan \<and> \<not> cp_Write plan \<and> cp_Target plan = [] \<and> CanRunAsRoot sudo caller CronTool \<and>
    cp_Args plan = marshal_map (map_put ''_view_users'' (json_strings (CronViewAccounts sudo caller @ [caller]))
                  (map_put ''_mode'' (JStr ''list'') m))"
  using assms by (auto simp: cron_list_plan_def split: if_splits)

lemma CronRuleFor_root: "\<not> Edit (CronRuleFor c u ''root'')"
  by (auto simp: CronRuleFor_def no_rule_def Let_def split: option.splits if_splits)

lemma plan_modes:
  assumes "cron_members raw = Inr m"
  shows "ca_Mode (cron_decode (marshal_map (map_put ''_info'' x (map_put ''_target_user'' y
      (map_put ''_mode'' (JStr s) m))))) = s"
    and "ca_Mode (cron_decode (marshal_map (map_put ''_view_users'' y (map_put ''_mode'' (JStr s) m)))) = s"
  using cron_members_distinct [OF assms] by (intro decoded_mode; simp add: distinct_map_put)+

text \<open>
  C29. A prepared crontab call is of one of three kinds, and the worker is told which: the caller's own
  crontab, never as root; the list, as root, for a caller who may run the tool as root, and read-only;
  or another account's, as root, for which the caller's grant has a rule that includes viewing, and
  editing when the call is a write, which for root's crontab is never the case.
\<close>

theorem prepareCronCall_authorized:
  assumes "prepareCronCall sudo caller raw info = Inr plan"
  shows "(ca_Mode (cron_decode (cp_Args plan)) = ''self'' \<and> cp_Target plan = caller \<and> \<not> cp_Privileged plan) \<or>
    (ca_Mode (cron_decode (cp_Args plan)) = ''list'' \<and> cp_Target plan = [] \<and> cp_Privileged plan \<and> \<not> cp_Write plan \<and>
       CanRunAsRoot sudo caller CronTool) \<or>
    (ca_Mode (cron_decode (cp_Args plan)) = ''other'' \<and> cp_Target plan \<noteq> caller \<and> cp_Privileged plan \<and>
       ValidAccountName (cp_Target plan) \<and> CanRunAsRoot sudo caller CronTool \<and>
       (if cp_Write plan then Edit (CronRuleFor sudo caller (cp_Target plan)) \<and> cp_Target plan \<noteq> ''root''
        else View (CronRuleFor sudo caller (cp_Target plan))))"
  using assms
proof (cases rule: prepareCronCall_plan)
  case (1 m)
  then show ?thesis
    using cron_list_plan_ok [OF 1(2)] plan_modes(2) [OF 1(1)] by auto
next
  case (2 m)
  then show ?thesis
    using plan_modes(1) [OF 2(1)] by (simp add: cron_self_plan_def)
next
  case (3 m target)
  then show ?thesis
    using cron_other_plan_ok [OF 3(6)] plan_modes(1) [OF 3(1)] CronRuleFor_root [of sudo caller]
    by (cases "cp_Write plan"; cases "target = ''root''") auto
qed

theorem prepareCronCall_authorized_witness:
  "\<exists>plan. prepareCronCall ex_sudo ''alice''
       (Some (JObj [(''user'', JStr ''bob''), (''privileged'', JBool True), (''content'', JStr ''@daily /bin/true'')])) False
       = Inr plan \<and> cp_Write plan \<and> Edit (CronRuleFor ex_sudo ''alice'' (cp_Target plan))"
proof -
  let ?raw = "Some (JObj [(''user'', JStr ''bob''), (''privileged'', JBool True), (''content'', JStr ''@daily /bin/true'')])"
  let ?m = "[(''content'', JStr ''@daily /bin/true''), (''privileged'', JBool True), (''user'', JStr ''bob'')]"
  have m: "cron_members ?raw = Inr ?m" by code_simp
  have v: "ValidAccountName ''bob''" "CanRunAsRoot ex_sudo ''alice'' CronTool" "Edit (CronRuleFor ex_sudo ''alice'' ''bob'')"
    by code_simp+
  obtain plan where p: "prepareCronCall ex_sudo ''alice'' ?raw False = Inr plan" "cp_Write plan" "cp_Target plan = ''bob''"
    using m v by (simp add: prepareCronCall_def Let_def json_text_def is_str_def cron_other_plan_def)
  show ?thesis using p prepareCronCall_authorized [OF p(1)] by auto
qed

text \<open>
  C30. End to end, for arguments that spell the worker's field names exactly: what the worker decodes is
  what the master authorized. It writes only when the master saw a write, on the account the master
  checked, and in the list it shows only the accounts the caller's rules let them view.
\<close>

theorem cron_worker_agrees:
  assumes "prepareCronCall sudo caller raw info = Inr plan" and "cron_members raw = Inr m"
    and "spelled_exactly cron_fields m"
  shows "(ca_Content (cron_decode (cp_Args plan)) \<noteq> None \<longleftrightarrow> cp_Write plan) \<and>
    (if cp_Privileged plan \<and> cp_Target plan = []
     then ViewUsers (cron_decode (cp_Args plan)) = CronViewAccounts sudo caller @ [caller]
     else TargetUser (cron_decode (cp_Args plan)) = cp_Target plan)"
proof -
  have d: "distinct (map fst m)" using cron_members_distinct [OF assms(2)] .
  have str: "map_of m ''content'' = Some v \<Longrightarrow> \<exists>s. v = JStr s" for v
    using assms(1,2) by (auto simp: prepareCronCall_def Let_def split: if_splits json.splits)
  have put: "spelled_exactly cron_fields (map_put k v m')"
    if "spelled_exactly cron_fields m'" "k \<in> {''_mode'', ''_target_user'', ''_view_users'', ''_info''}" for k v m'
  proof -
    have "list_all (\<lambda>f. fold_name k = fold_name f \<longrightarrow> k = f) cron_fields"
      using that(2) by (elim insertE emptyE; hypsubst; code_simp)
    then show ?thesis using that(1) by (auto simp: spelled_exactly_def map_put_def list_all_iff)
  qed
  have dec: "dec_content (field_vals cron_fields ''content'' (marshal_map m')) \<noteq> None \<longleftrightarrow> map_of m ''content'' \<noteq> None"
    if "spelled_exactly cron_fields m'" "distinct (map fst m')" "map_of m' ''content'' = map_of m ''content''" for m'
    using field_vals_marshal_exact [OF that(1) _ that(2), of "''content''"] that(3) str
    by (cases "map_of m ''content''") (auto simp: cron_fields_def dec_content_def)
  show ?thesis
    using assms(1)
  proof (cases rule: prepareCronCall_plan)
    case (1 m1)
    have m1: "m1 = m" using 1(1) assms(2) by simp
    let ?m = "map_put ''_view_users'' (json_strings (CronViewAccounts sudo caller @ [caller]))
                  (map_put ''_mode'' (JStr ''list'') m)"
    have s: "spelled_exactly cron_fields ?m" "distinct (map fst ?m)"
      using assms(3) d by (auto intro!: put distinct_map_put)
    have "field_vals cron_fields ''_view_users'' (marshal_map ?m) = [json_strings (CronViewAccounts sudo caller @ [caller])]"
      using field_vals_marshal_exact [OF s(1) _ s(2), of "''_view_users''"] by (simp add: cron_fields_def)
    then have "ViewUsers (cron_decode (marshal_map ?m)) = CronViewAccounts sudo caller @ [caller]"
      using dec_strings_last [of "[]" "[]"] by (simp add: cron_decode_def Let_def)
    moreover have "ca_Content (cron_decode (marshal_map ?m)) \<noteq> None \<longleftrightarrow> map_of m ''content'' \<noteq> None"
      using dec [OF s] by (simp add: cron_decode_def Let_def)
    ultimately show ?thesis using cron_list_plan_ok [OF 1(2)] 1(3) m1 by simp
  next
    case (2 m1)
    have m1: "m1 = m" using 2(1) assms(2) by simp
    let ?m = "map_put ''_info'' (JBool info) (map_put ''_target_user'' (JStr caller) (map_put ''_mode'' (JStr ''self'') m))"
    have s: "spelled_exactly cron_fields ?m" "distinct (map fst ?m)"
      using assms(3) d by (auto intro!: put distinct_map_put)
    have "TargetUser (cron_decode (marshal_map ?m)) = caller"
      using field_vals_marshal_exact [OF s(1) _ s(2), of "''_target_user''"]
      by (simp add: cron_fields_def cron_decode_def Let_def dec_string_def)
    moreover have "ca_Content (cron_decode (marshal_map ?m)) \<noteq> None \<longleftrightarrow> map_of m ''content'' \<noteq> None"
      using dec [OF s] by (simp add: cron_decode_def Let_def)
    ultimately show ?thesis using 2(2) m1 by (simp add: cron_self_plan_def)
  next
    case (3 m1 target)
    have m1: "m1 = m" using 3(1) assms(2) by simp
    let ?m = "map_put ''_info'' (JBool info) (map_put ''_target_user'' (JStr target) (map_put ''_mode'' (JStr ''other'') m))"
    have s: "spelled_exactly cron_fields ?m" "distinct (map fst ?m)"
      using assms(3) d by (auto intro!: put distinct_map_put)
    have "TargetUser (cron_decode (marshal_map ?m)) = target"
      using field_vals_marshal_exact [OF s(1) _ s(2), of "''_target_user''"]
      by (simp add: cron_fields_def cron_decode_def Let_def dec_string_def)
    moreover have "ca_Content (cron_decode (marshal_map ?m)) \<noteq> None \<longleftrightarrow> map_of m ''content'' \<noteq> None"
      using dec [OF s] by (simp add: cron_decode_def Let_def)
    ultimately show ?thesis using cron_other_plan_ok [OF 3(6)] 3(3) m1 by simp
  qed
qed

theorem cron_worker_agrees_witness:
  "\<exists>plan. prepareCronCall ex_sudo ''alice'' (Some (JObj [(''user'', JStr ''bob''), (''privileged'', JBool True)])) False = Inr plan \<and>
     TargetUser (cron_decode (cp_Args plan)) = ''bob'' \<and> ca_Content (cron_decode (cp_Args plan)) = None"
proof -
  let ?raw = "Some (JObj [(''user'', JStr ''bob''), (''privileged'', JBool True)])"
  let ?m = "[(''privileged'', JBool True), (''user'', JStr ''bob'')]"
  have m: "cron_members ?raw = Inr ?m" by code_simp
  have v: "ValidAccountName ''bob''" "CanRunAsRoot ex_sudo ''alice'' CronTool" "View (CronRuleFor ex_sudo ''alice'' ''bob'')"
    by code_simp+
  have s: "spelled_exactly cron_fields ?m" by code_simp
  obtain plan where p: "prepareCronCall ex_sudo ''alice'' ?raw False = Inr plan" "\<not> cp_Write plan" "cp_Target plan = ''bob''"
    using m v by (simp add: prepareCronCall_def Let_def json_text_def is_str_def cron_other_plan_def)
  show ?thesis using p cron_worker_agrees [OF p(1) m s] by simp
qed

subsection \<open>Spellings the master does not see\<close>

lemma cron_json_field [simp]:
  "json_field cron_fields ''user'' = Some ''user''" "json_field cron_fields ''content'' = Some ''content''"
  "json_field cron_fields ''Content'' = Some ''content''" "json_field cron_fields ''_mode'' = Some ''_mode''"
  "json_field cron_fields ''_target_user'' = Some ''_target_user''" "json_field cron_fields ''_info'' = Some ''_info''"
  "json_field cron_fields ''privileged'' = None"
  by code_simp+

lemmas cron_parse_defs = cron_parse_def cron_types_ok_def cron_decode_def field_vals_def members_def dec_string_def
  dec_content_def dec_strings_def dec_bool_def is_structdoc_def is_str_def is_bool_def is_strs_def

definition ex_view_sudo :: sudo_config where
  "ex_view_sudo =
     \<lparr>Users = [(''alice'', \<lparr>Privileged = \<lparr>Tools = [(''cron/manage'',
        \<lparr>tp_Allowed = True, Paths = [], Containers = [], Prune = [],
          tp_Users = [(''bob'', \<lparr>View = True, Edit = False\<rparr>)], Network = None, Sysctl = None\<rparr>)], Resources = []\<rparr>\<rparr>)]\<rparr>"

text \<open>A host whose \<open>crontab\<close> command records who ran it with what.\<close>

definition ex_cron_host :: "(cred option \<times> string option \<times> string) list cron_host" where
  "ex_cron_host =
     \<lparr>binary = Inr (), worker_euid = 0,
      host_acct = (\<lambda>n. if n = ''bob'' then Inr \<lparr>Uid = ''1001'', Gid = ''1001'', os_Username = n, HomeDir = ''/home/bob''\<rparr>
                       else if n = ''root'' then Inr \<lparr>Uid = ''0'', Gid = ''0'', os_Username = n, HomeDir = ''/root''\<rparr>
                       else Inl ''unknown''),
      host_groups = (\<lambda>_. Inr []),
      crontab_exec = (\<lambda>cred input arg sp. (([], [], Inr 0), sp @ [(cred, input, arg)]))\<rparr>"

text \<open>
  A grant that lets a user only view an account's crontab lets them replace it: the master looks for
  the member \<open>content\<close> by its exact name, the worker's decoder also takes \<open>Content\<close>. The
  call passes as a read, and the worker installs the caller's text as that account's crontab, without
  the audit line of a write.
\<close>

lemma cron_view_grant_writes:
  "\<exists>plan. prepareCronCall ex_view_sudo ''alice''
       (Some (JObj [(''user'', JStr ''bob''), (''privileged'', JBool True), (''Content'', JStr ''@daily evil'')])) False = Inr plan \<and>
     \<not> Edit (CronRuleFor ex_view_sudo ''alice'' ''bob'') \<and> \<not> cp_Write plan \<and> cp_Privileged plan \<and>
     snd (Manage (\<lambda>_. []) ex_cron_host None (Some (cp_Args plan)) []) =
       [(Some (1001, 1001, []), None, ''-l''), (Some (1001, 1001, []), Some (''@daily evil'' @ [CHR 0x0A]), ''-'')]"
proof -
  let ?raw = "Some (JObj [(''user'', JStr ''bob''), (''privileged'', JBool True), (''Content'', JStr ''@daily evil'')])"
  let ?m = "[(''Content'', JStr ''@daily evil''), (''privileged'', JBool True), (''user'', JStr ''bob'')]"
  let ?doc = "JObj [(''Content'', JStr ''@daily evil''), (''_info'', JBool False), (''_mode'', JStr ''other''),
      (''_target_user'', JStr ''bob''), (''privileged'', JBool True), (''user'', JStr ''bob'')]"
  let ?plan = "\<lparr>cp_Args = ?doc, cp_Privileged = True, cp_Write = False, cp_Target = ''bob''\<rparr>"
  have m: "cron_members ?raw = Inr ?m" by code_simp
  have v: "ValidAccountName ''bob''" "CanRunAsRoot ex_view_sudo ''alice'' CronTool" "View (CronRuleFor ex_view_sudo ''alice'' ''bob'')"
    "\<not> Edit (CronRuleFor ex_view_sudo ''alice'' ''bob'')"
    by code_simp+
  have doc: "marshal_map (map_put ''_info'' (JBool False) (map_put ''_target_user'' (JStr ''bob'')
      (map_put ''_mode'' (JStr ''other'') ?m))) = ?doc" by code_simp
  have p: "prepareCronCall ex_view_sudo ''alice'' ?raw False = Inr ?plan"
    using m v doc by (simp add: prepareCronCall_def Let_def json_text_def is_str_def cron_other_plan_def)
  let ?a = "\<lparr>ca_User = ''bob'', ca_Content = Some ''@daily evil'', IfMatch = [], ca_OutputFormat = [], ca_Mode = ''other'',
      TargetUser = ''bob'', ViewUsers = [], Info = False\<rparr>"
  have d: "cron_parse (Some ?doc) = Inr ?a" by (simp add: cron_parse_defs)
  have u: "parse_uint32 ''1001'' = Some 1001" by (simp add: parse_uint32_def dec_val_def is_digit_def digit_val_def)
  have "snd (Manage (\<lambda>_. []) ex_cron_host None (Some ?doc) []) =
       [(Some (1001, 1001, []), None, ''-l''), (Some (1001, 1001, []), Some (''@daily evil'' @ [CHR 0x0A]), ''-'')]"
    using d u v(1)
    by (simp add: Manage_def cron_write_def MaxContent_def cron_current_def cron_run_def credentialFor_def
        ex_cron_host_def has_suffix_def has_prefix_def List.map_filter_def Let_def)
  then show ?thesis using p v(4) by (intro exI [of _ ?plan]) simp
qed

text \<open>
  C31. The worker's own last line of defence holds whatever the arguments spell: a write to an account
  whose uid is 0, under any name, fails and runs no command.
\<close>

theorem Manage_never_writes_root:
  assumes "cron_parse raw = Inr a" and "ca_Mode a = ''other''" and "ca_Content a \<noteq> None"
    and "host_acct h (TargetUser a) = Inr u" and "parse_uint32 (Uid u) = Some 0"
  shows "snd (Manage sha h spool raw sp) = sp \<and> isl (fst (Manage sha h spool raw sp))"
proof -
  obtain c where c: "ca_Content a = Some c" using assms(3) by auto
  have "\<exists>e. credentialFor h a = Inl e"
    using assms(4,5) c by (auto simp: credentialFor_def split: option.split)
  then have "\<exists>e. cron_run h a input arg sp = (([], [], 0, Some e), sp)" for input arg
    using assms(2) by (auto simp: cron_run_def split: sum.split)
  then obtain e where "cron_run h a None ''-l'' sp = (([], [], 0, Some e), sp)" by blast
  then have "\<exists>e. cron_current h a sp = (Inl e, sp)" by (simp add: cron_current_def)
  then have "snd (cron_write sha h a c sp) = sp \<and> isl (fst (cron_write sha h a c sp))"
    by (auto simp: cron_write_def)
  then show ?thesis using assms(1,2) c by (simp add: Manage_def)
qed

theorem Manage_never_writes_root_witness:
  "snd (Manage (\<lambda>_. []) ex_cron_host None (Some (JObj [(''content'', JStr ''x''), (''_mode'', JStr ''other''), (''_target_user'', JStr ''root'')])) []) = []"
proof -
  let ?raw = "Some (JObj [(''content'', JStr ''x''), (''_mode'', JStr ''other''), (''_target_user'', JStr ''root'')])"
  let ?a = "\<lparr>ca_User = [], ca_Content = Some ''x'', IfMatch = [], ca_OutputFormat = [], ca_Mode = ''other'',
      TargetUser = ''root'', ViewUsers = [], Info = False\<rparr>"
  let ?u = "\<lparr>Uid = ''0'', Gid = ''0'', os_Username = ''root'', HomeDir = ''/root''\<rparr>"
  have a: "cron_parse ?raw = Inr ?a" by (simp add: cron_parse_defs)
  have z: "parse_uint32 ''0'' = Some 0" by (simp add: parse_uint32_def dec_val_def is_digit_def digit_val_def)
  have "host_acct ex_cron_host (TargetUser ?a) = Inr ?u" by (simp add: ex_cron_host_def)
  then show ?thesis using Manage_never_writes_root [OF a, of ex_cron_host ?u "\<lambda>_. []" None "[]"] z by simp
qed

end
