(* ===== verification/SysctlTool.thy ===== *)
theory SysctlTool
  imports SudoConfig GoJson
begin

text \<open>
  The tool \<open>kernel/system-control\<close>
  (\<^verbatim>\<open>internal/tools/kernel/system-control/\<close>), whose argument parser and key normaliser
  the daemon's write check shares with the worker. \<open>/proc/sys\<close> is a list of parameter files; what
  the kernel makes of a written value is a parameter.
\<close>

record sysctl_args =
  sc_Key :: string
  sc_Value :: string
  ReadAll :: bool
  sc_Privileged :: bool

definition sysctl_fields :: "string list" where
  "sysctl_fields = [''key'', ''value'', ''read_all'', ''privileged'']"

text \<open>\<open>Value.UnmarshalJSON\<close>: strings, numbers and booleans; \<open>null\<close> gives the empty value.\<close>

definition sysctl_value :: "json \<Rightarrow> string result" where
  "sysctl_value v =
     (case v of
        JStr s \<Rightarrow> Inr s
      | JNull \<Rightarrow> Inr []
      | JNum m e \<Rightarrow> Inr (num_text m e)
      | JBool b \<Rightarrow> Inr (if b then ''1'' else ''0'')
      | _ \<Rightarrow> Inl ''value must be a string, number or boolean'')"

definition dec_sysctl_value :: "json list \<Rightarrow> string" where
  "dec_sysctl_value vs = foldl (\<lambda>a v. case sysctl_value v of Inr s \<Rightarrow> s | Inl _ \<Rightarrow> a) [] vs"

definition ParseArgs :: "json option \<Rightarrow> sysctl_args result" where
  "ParseArgs raw =
     (case raw of
        None \<Rightarrow> Inr \<lparr>sc_Key = [], sc_Value = [], ReadAll = False, sc_Privileged = False\<rparr>
      | Some v \<Rightarrow>
          (let fv = (\<lambda>f. field_vals sysctl_fields f v) in
           if is_structdoc v \<and> list_all is_str (fv ''key'') \<and>
              list_all (\<lambda>w. \<not> isl (sysctl_value w)) (fv ''value'') \<and>
              list_all is_bool (fv ''read_all'') \<and> list_all is_bool (fv ''privileged'')
           then Inr \<lparr>sc_Key = dec_string [] (fv ''key''), sc_Value = dec_sysctl_value (fv ''value''),
                     ReadAll = dec_bool False (fv ''read_all''), sc_Privileged = dec_bool False (fv ''privileged'')\<rparr>
           else Inl ''invalid arguments''))"

definition procSys :: string where
  "procSys = ''/proc/sys''"

text \<open>The regular expression \<^verbatim>\<open>^[A-Za-z0-9_][A-Za-z0-9_.\-/]*$\<close>.\<close>

definition word_char :: "char \<Rightarrow> bool" where
  "word_char c \<longleftrightarrow>
     (let n = (of_char c :: nat)
      in (48 \<le> n \<and> n \<le> 57) \<or> (65 \<le> n \<and> n \<le> 90) \<or> (97 \<le> n \<and> n \<le> 122) \<or> c = CHR ''_'')"

definition validKey :: "string \<Rightarrow> bool" where
  "validKey key \<longleftrightarrow>
     (case key of
        [] \<Rightarrow> False
      | c # cs \<Rightarrow> word_char c \<and> list_all (\<lambda>x. word_char x \<or> x \<in> {CHR ''.'', CHR ''-'', CHR ''/''}) cs)"

definition trim_dots :: "string \<Rightarrow> string" where
  "trim_dots s = rev (dropWhile (\<lambda>c. c = CHR ''.'') (rev (dropWhile (\<lambda>c. c = CHR ''.'') s)))"

definition NormalizeKey :: "string \<Rightarrow> string" where
  "NormalizeKey key = trim_dots (replace_char CHR ''/'' CHR ''.'' key)"

definition KeyPath :: "string \<Rightarrow> string result" where
  "KeyPath key =
     (if \<not> validKey key \<or> contains key ''..''
      then Inl (''invalid key '' @ quoted key @ '': expected a sysctl name like net.ipv4.ip_forward'')
      else
        (let rel = (if contains key ''/'' then key else dots_to_slashes key);
             path = join_path procSys (clean (''/'' @ rel))
         in if path \<noteq> procSys \<and> \<not> has_prefix path (procSys @ ''/'')
            then Inl (''invalid key '' @ quoted key) else Inr path))"

text \<open>The tree: a parameter's path, its text, and whether this process may read it.\<close>

type_synonym proc_tree = "(string \<times> string \<times> bool) list"

definition trim_newlines :: "string \<Rightarrow> string" where
  "trim_newlines s = rev (dropWhile (\<lambda>c. c = CHR 0x0A) (rev s))"

definition readValue :: "proc_tree \<Rightarrow> string \<Rightarrow> string result" where
  "readValue t path =
     (case map_of t path of
        None \<Rightarrow> Inl (''open '' @ path @ '': no such file or directory'')
      | Some (v, readable) \<Rightarrow> if readable then Inr (trim_newlines v) else Inl (''open '' @ path @ '': permission denied''))"

definition is_tree_dir :: "proc_tree \<Rightarrow> string \<Rightarrow> bool" where
  "is_tree_dir t path \<longleftrightarrow> list_ex (\<lambda>e. has_prefix (fst e) (path @ ''/'')) t"

text \<open>
  \<open>filepath.Rel(procSys, path)\<close> of a path inside the tree, dotted.
\<close>

definition dotted_key :: "string \<Rightarrow> string" where
  "dotted_key path = replace_char CHR ''/'' CHR ''.'' (trim_prefix path (procSys @ ''/''))"

definition tree_lines :: "proc_tree \<Rightarrow> string \<Rightarrow> string list" where
  "tree_lines t dir =
     concat (map (\<lambda>(path, v, readable).
       if (has_prefix path (dir @ ''/'') \<or> path = dir) \<and> readable
       then map (\<lambda>l. dotted_key path @ '' = '' @ l) (split_on CHR 0x0A (trim_newlines v))
       else []) t)"

definition readTree :: "proc_tree \<Rightarrow> string \<Rightarrow> string result" where
  "readTree t dir =
     (let lines = sort (tree_lines t dir)
      in Inr (if lines = [] then [] else join_with [CHR 0x0A] lines @ [CHR 0x0A]))"

text \<open>
  The worker: \<open>kwrite path value t\<close> opens and writes one existing parameter file; it returns the
  tree the kernel leaves. The result is the tree and the answer.
\<close>

definition SystemControl ::
  "(string \<Rightarrow> string \<Rightarrow> proc_tree \<Rightarrow> proc_tree result) \<Rightarrow> proc_tree \<Rightarrow> json option \<Rightarrow> proc_tree \<times> string result" where
  "SystemControl kwrite t raw =
     (case ParseArgs raw of
        Inl e \<Rightarrow> (t, Inl e)
      | Inr args \<Rightarrow>
          if sc_Key args = [] then
            (if \<not> ReadAll args then (t, Inl ''key argument is required unless read_all is true'')
             else (t, readTree t procSys))
          else case KeyPath (sc_Key args) of
            Inl e \<Rightarrow> (t, Inl e)
          | Inr path \<Rightarrow>
              (let report = (\<lambda>t'.
                 if map_of t' path = None \<and> \<not> is_tree_dir t' path
                 then (t', Inl (''cannot stat '' @ NormalizeKey (sc_Key args) @ '': no such file or directory''))
                 else if is_tree_dir t' path then (t', readTree t' path)
                 else case readValue t' path of
                        Inl e \<Rightarrow> (t', Inl (''cannot read '' @ NormalizeKey (sc_Key args) @ '': '' @ e))
                      | Inr v \<Rightarrow> (t', Inr (NormalizeKey (sc_Key args) @ '' = '' @ v @ [CHR 0x0A]))) in
               if sc_Value args \<noteq> [] then
                 (if list_ex (\<lambda>c. c = CHR 0x0A \<or> c = CHR 0x00) (sc_Value args)
                  then (t, Inl ''invalid value: must be a single line'')
                  else case kwrite path (sc_Value args) t of
                         Inl e \<Rightarrow> (t, Inl (''cannot write '' @ NormalizeKey (sc_Key args) @ '': '' @ e))
                       | Inr t' \<Rightarrow> report t')
               else report t))"

subsection \<open>Keys and files\<close>

lemma path_comps_join_clean:
  assumes "is_rooted a" and "is_rooted q"
  shows "path_comps (a @ ''/'' @ clean q) = path_comps a @ path_comps q"
proof -
  have plain: "\<forall>c \<in> set (path_comps q). plain_comp c" using path_comps_plain [OF assms(2)] by blast
  have r: "is_rooted (a @ ''/'' @ clean q)" using assms(1) by (cases a) (auto simp: is_rooted_def has_prefix_def)
  have s: "foldl (clean_step True) st (split_on CHR ''/'' (clean q)) = rev (path_comps q) @ st" for st
  proof (cases "path_comps q = []")
    case True
    then show ?thesis using assms(2) by (simp add: clean_rooted_eq)
  next
    case False
    then have "split_on CHR ''/'' (clean q) = [] # path_comps q"
      using plain assms(2) by (simp add: clean_rooted_eq split_on_join plain_comp_def)
    then show ?thesis using plain by (simp add: foldl_clean_id)
  qed
  show ?thesis using r assms(1)
    by (simp add: path_comps_def clean_comps_def split_on_append s [unfolded path_comps_def])
qed

text \<open>
  C33. Whatever key a caller sends, the file \<open>kernel/system-control\<close> opens is \<open>/proc/sys\<close> or
  lies below it: the path consists of \<open>proc\<close>, \<open>sys\<close> and ordinary components.
\<close>

theorem KeyPath_confined:
  assumes "KeyPath key = Inr path"
  shows "\<exists>cs. path = CHR ''/'' # join_with ''/'' (''proc'' # ''sys'' # cs) \<and> list_all plain_comp cs"
proof -
  define q where "q = ''/'' @ (if contains key ''/'' then key else dots_to_slashes key)"
  have q: "is_rooted q" by (simp add: q_def)
  have p: "path = join_path procSys (clean q)"
    using assms by (auto simp: KeyPath_def q_def Let_def split: if_splits)
  have sys: "is_rooted procSys" "path_comps procSys = [''proc'', ''sys'']" by code_simp+
  have r: "is_rooted (procSys @ ''/'' @ clean q)" by (simp add: procSys_def)
  have "path = clean (procSys @ ''/'' @ clean q)"
    using q by (simp add: p join_path_def procSys_def clean_rooted_eq)
  then have "path = CHR ''/'' # join_with ''/'' ([''proc'', ''sys''] @ path_comps q)"
    using clean_rooted_eq [OF r] path_comps_join_clean [OF sys(1) q] by (simp only: sys(2))
  then show ?thesis using path_comps_plain [OF q] by (auto simp: list_all_iff)
qed

theorem KeyPath_confined_witness:
  "\<exists>cs. KeyPath ''net/ipv4/conf/eth0.100/rp_filter'' = Inr (CHR ''/'' # join_with ''/'' (''proc'' # ''sys'' # cs)) \<and>
     list_all plain_comp cs"
proof -
  have k: "KeyPath ''net/ipv4/conf/eth0.100/rp_filter'' = Inr ''/proc/sys/net/ipv4/conf/eth0.100/rp_filter''" by code_simp
  show ?thesis using KeyPath_confined [OF k] k by metis
qed

lemma contains_char: "contains s [c] \<longleftrightarrow> c \<in> set s"
  by (induction s) (auto simp: has_prefix_def)

lemma split_on_replace:
  "b \<notin> set s \<Longrightarrow> split_on b (replace_char a b s) = split_on a s"
proof (induction s)
  case (Cons x s)
  then show ?case by (cases "split_on a s") (auto simp: replace_char_def)
qed (simp add: replace_char_def)

lemma join_split_replace: "join_with [b] (split_on a s) = replace_char a b s"
proof (induction s)
  case (Cons x s)
  then show ?case
    by (cases "split_on a s"; cases "tl (split_on a s)") (auto simp: replace_char_def)
qed (simp add: replace_char_def)

lemma split_dots_no_empty:
  "k \<noteq> [] \<Longrightarrow> hd k \<noteq> CHR ''.'' \<Longrightarrow> last k \<noteq> CHR ''.'' \<Longrightarrow> \<not> contains k ''..'' \<Longrightarrow>
   [] \<notin> set (split_on CHR ''.'' k)"
proof (induction k rule: length_induct)
  case (1 k)
  obtain a k' where k: "k = a # k'" using 1(2) by (cases k) auto
  have a: "a \<noteq> CHR ''.''" using 1(3) k by simp
  show ?case
  proof (cases k')
    case Nil
    then show ?thesis using a k by simp
  next
    case (Cons b k2)
    show ?thesis
    proof (cases "b = CHR ''.''")
      case True
      have "k2 \<noteq> []" "hd k2 \<noteq> CHR ''.''" "last k2 \<noteq> CHR ''.''" "\<not> contains k2 ''..''"
        using 1(4,5) k Cons True by (cases k2; auto simp: has_prefix_def)+
      then have "[] \<notin> set (split_on CHR ''.'' k2)" using 1(1) k Cons by simp
      then show ?thesis using a True k Cons by simp
    next
      case False
      have "last k' \<noteq> CHR ''.''" "\<not> contains k' ''..''" using 1(4,5) k Cons by auto
      moreover have "length k' < length k" "k' \<noteq> []" "hd k' \<noteq> CHR ''.''" using k Cons False by auto
      ultimately have "[] \<notin> set (split_on CHR ''.'' k')" using 1(1) by blast
      then show ?thesis
        using a k by (cases "split_on CHR ''.'' k'") auto
    qed
  qed
qed

lemma path_comps_of_split:
  assumes "\<forall>c \<in> set (split_on CHR ''/'' s). c = [] \<or> plain_comp c"
  shows "path_comps (CHR ''/'' # s) = filter (\<lambda>c. c \<noteq> []) (split_on CHR ''/'' s)"
proof -
  have "\<forall>c \<in> set cs. c = [] \<or> plain_comp c \<Longrightarrow>
      foldl (clean_step True) st cs = rev (filter (\<lambda>c. c \<noteq> []) cs) @ st" for cs st
    by (induction cs arbitrary: st) (auto simp: plain_comp_def)
  then show ?thesis using assms by (simp add: path_comps_def clean_comps_def)
qed

lemma plain_of_dot_free: "CHR ''.'' \<notin> set c \<Longrightarrow> CHR ''/'' \<notin> set c \<Longrightarrow> c = [] \<or> plain_comp c"
  by (auto simp: plain_comp_def)

lemma dotted_key_shape:
  assumes "validKey key" and "CHR ''/'' \<notin> set key" and "\<not> contains key ''..''"
  shows "\<exists>k. (key = k \<or> key = k @ ''.'') \<and> NormalizeKey key = k \<and> k \<noteq> [] \<and> hd k \<noteq> CHR ''.'' \<and>
    last k \<noteq> CHR ''.'' \<and> \<not> contains k ''..''"
proof -
  have n: "NormalizeKey key = trim_dots key"
  proof -
    have "replace_char CHR ''/'' CHR ''.'' key = key"
      using assms(2) unfolding replace_char_def by (intro map_idI) auto
    then show ?thesis by (simp add: NormalizeKey_def)
  qed
  obtain a s where key: "key = a # s" "a \<noteq> CHR ''.''"
  proof -
    have "\<not> word_char CHR ''.''" by code_simp
    then show ?thesis using that assms(1) by (cases key) (auto simp: validKey_def)
  qed
  have app: "contains s p \<Longrightarrow> contains (s @ t) p" for s t p
  proof (induction s)
    case Nil
    then show ?case by (cases t) auto
  next
    case (Cons a s)
    have "has_prefix (a # s) p \<Longrightarrow> has_prefix (a # s @ t) p"
      by (metis append_Cons has_prefix_prefix prefix_prefix)
    then show ?case using Cons by auto
  qed
  have two: "contains (s @ ''..'') ''..''" for s
    by (induction s) (auto simp: has_prefix_def)
  show ?thesis
  proof (cases "last key = CHR ''.''")
    case False
    then have "trim_dots key = key"
    proof -
      have r: "rev key = last key # rev (butlast key)" using key by (metis append_butlast_last_id list.distinct(1) rev_eq_Cons_iff rev_rev_ident)
      have "dropWhile (\<lambda>c. c = CHR ''.'') (last key # rev (butlast key)) = last key # rev (butlast key)"
        using False by simp
      then have "dropWhile (\<lambda>c. c = CHR ''.'') (rev key) = rev key" by (simp only: r)
      moreover have "dropWhile (\<lambda>c. c = CHR ''.'') key = key" using key by simp
      ultimately show ?thesis by (simp add: trim_dots_def)
    qed
    then show ?thesis using False key assms(3) n by (intro exI [of _ key]) auto
  next
    case True
    then obtain k where k: "key = k @ ''.''" using key by (metis append_butlast_last_id list.distinct(1))
    have "k \<noteq> []" using k key by auto
    then obtain j y where j: "k = j @ [y]" by (cases k rule: rev_cases) auto
    have "y \<noteq> CHR ''.''" using two [of j] assms(3) k j by auto
    moreover have "hd k \<noteq> CHR ''.''" using key k j by (cases j) auto
    moreover have "trim_dots key = k"
      using key k j \<open>y \<noteq> CHR ''.''\<close> by (cases j) (auto simp: trim_dots_def)
    ultimately show ?thesis using k j n app [of k "''..''" "''.''"] assms(3) by (intro exI [of _ k]) auto
  qed
qed

text \<open>
  C34. For a key in the dotted form the file is exactly the one the normalised key names, so the policy,
  which is asked about the normalised key, is asked about the file that is written.
\<close>

theorem KeyPath_dotted:
  assumes "KeyPath key = Inr path" and "\<not> contains key ''/''"
  shows "path = procSys @ ''/'' @ dots_to_slashes (NormalizeKey key)"
proof -
  have ok: "validKey key" "\<not> contains key ''..''" using assms(1) by (auto simp: KeyPath_def split: if_splits)
  have ns: "CHR ''/'' \<notin> set key" using assms(2) by (simp add: contains_char)
  obtain k where k: "key = k \<or> key = k @ ''.''" "NormalizeKey key = k" "k \<noteq> []"
    and k': "[] \<notin> set (split_on CHR ''.'' k)"
    using dotted_key_shape [OF ok(1) ns ok(2)] split_dots_no_empty by blast
  let ?q = "CHR ''/'' # dots_to_slashes key"
  have sp: "split_on CHR ''/'' (dots_to_slashes key) = split_on CHR ''.'' key"
    using ns by (simp add: dots_to_slashes_def split_on_replace)
  have "c = [] \<or> plain_comp c" if "c \<in> set (split_on CHR ''.'' key)" for c
  proof (rule plain_of_dot_free)
    show "CHR ''.'' \<notin> set c" using split_on_no_sep that .
    have "c \<in> set (split_on CHR ''/'' (dots_to_slashes key))" using that sp by simp
    then show "CHR ''/'' \<notin> set c" using split_on_no_sep by blast
  qed
  then have comps: "path_comps ?q = filter (\<lambda>c. c \<noteq> []) (split_on CHR ''.'' key)"
    using path_comps_of_split [of "dots_to_slashes key"] sp by simp
  have "filter (\<lambda>c. c \<noteq> []) (split_on CHR ''.'' key) = split_on CHR ''.'' k"
    using k(1) k' by (auto simp: split_on_append filter_id_conv)
  then have q: "path_comps ?q = split_on CHR ''.'' k" using comps by simp
  have sys: "is_rooted procSys" "path_comps procSys = [''proc'', ''sys'']" by code_simp+
  have r: "is_rooted (procSys @ ''/'' @ clean ?q)" by (simp add: procSys_def)
  have "path = clean (procSys @ ''/'' @ clean ?q)"
    using assms by (auto simp: KeyPath_def Let_def join_path_def procSys_def clean_rooted_eq split: if_splits)
  also have "\<dots> = CHR ''/'' # join_with ''/'' ([''proc'', ''sys''] @ split_on CHR ''.'' k)"
    using clean_rooted_eq [OF r] path_comps_join_clean [OF sys(1), of ?q] q by (simp only: sys(2) is_rooted_Cons)
  also have "\<dots> = procSys @ ''/'' @ join_with ''/'' (split_on CHR ''.'' k)"
    by (cases "split_on CHR ''.'' k") (auto simp: procSys_def)
  finally show ?thesis by (simp add: k(2) join_split_replace dots_to_slashes_def)
qed

theorem KeyPath_dotted_witness:
  "KeyPath ''vm.swappiness.'' = Inr ''/proc/sys/vm/swappiness'' \<and>
   ''/proc/sys/vm/swappiness'' = procSys @ ''/'' @ dots_to_slashes (NormalizeKey ''vm.swappiness.'')"
proof -
  have k: "KeyPath ''vm.swappiness.'' = Inr ''/proc/sys/vm/swappiness''" by code_simp
  have n: "\<not> contains ''vm.swappiness.'' ''/''" by code_simp
  show ?thesis using k KeyPath_dotted [OF k n] by simp
qed

definition ex_sysctl_sudo :: sudo_config where
  "ex_sysctl_sudo =
     \<lparr>Users = [(''alice'', \<lparr>Privileged = \<lparr>Tools = [(''kernel/system-control'',
        \<lparr>tp_Allowed = True, Paths = [], Containers = [], Prune = [], tp_Users = [], Network = None,
          Sysctl = Some \<lparr>RemovedReadOnly = None, WriteKeys = [''kernel.*.*'']\<rparr>\<rparr>)], Resources = []\<rparr>\<rparr>)]\<rparr>"

text \<open>
  In the slash form the check and the write can differ: a doubled slash becomes an empty component
  of the normalised key, which a \<open>*\<close> of the pattern matches, while the path is cleaned. With the
  pattern \<open>kernel.*.*\<close>, which does not cover \<open>kernel.core_pattern\<close>, the key
  \<open>kernel//core_pattern\<close> passes the check and names that very file.
\<close>

lemma sysctl_policy_gap:
  "\<not> fst (CanWriteSysctl ex_sysctl_sudo ''alice'' (NormalizeKey ''kernel.core_pattern'')) \<and>
   KeyPath ''kernel.core_pattern'' = Inr ''/proc/sys/kernel/core_pattern'' \<and>
   fst (CanWriteSysctl ex_sysctl_sudo ''alice'' (NormalizeKey ''kernel//core_pattern'')) \<and>
   KeyPath ''kernel//core_pattern'' = Inr ''/proc/sys/kernel/core_pattern''"
proof -
  have "\<not> fst (CanWriteSysctl ex_sysctl_sudo ''alice'' (NormalizeKey ''kernel.core_pattern''))" by code_simp
  moreover have "KeyPath ''kernel.core_pattern'' = Inr ''/proc/sys/kernel/core_pattern''" by code_simp
  moreover have "fst (CanWriteSysctl ex_sysctl_sudo ''alice'' (NormalizeKey ''kernel//core_pattern''))" by code_simp
  moreover have "KeyPath ''kernel//core_pattern'' = Inr ''/proc/sys/kernel/core_pattern''" by code_simp
  ultimately show ?thesis by blast
qed

end
