(* ===== verification/TtlCache.thy ===== *)
theory TtlCache
  imports KvStore
begin

text \<open>
  The response cache (\<^verbatim>\<open>internal/cache/cache.go\<close>). Times and durations are
  nanoseconds as integers; every operation takes the instant its \<open>time.Now()\<close> returned. A
  \<open>Get\<close> takes the read lock for the lookup and, when the item has expired, the write lock for
  the clean-up, so other operations can run in between: the two halves are separate steps of
  \<open>cache_step\<close>, which every interleaving of goroutines is a sequence of.
\<close>

record cache_item =
  Payload :: string
  MimeType :: string
  ExpiresAt :: int

type_synonym ttl_cache = "(string \<times> cache_item) list"

definition NewTTLCache :: ttl_cache where
  "NewTTLCache = []"

text \<open>First half of \<open>Get\<close>: the answer, and whether the item found has expired.\<close>

definition cache_lookup :: "int \<Rightarrow> string \<Rightarrow> ttl_cache \<Rightarrow> (string \<times> string) option \<times> bool" where
  "cache_lookup now key c =
     (case map_of c key of
        None \<Rightarrow> (None, False)
      | Some item \<Rightarrow>
          if ExpiresAt item < now then (None, True) else (Some (Payload item, MimeType item), False))"

definition cache_Get :: "int \<Rightarrow> string \<Rightarrow> ttl_cache \<Rightarrow> (string \<times> string) option \<times> ttl_cache" where
  "cache_Get now key c =
     (let (r, expired) = cache_lookup now key c in (r, if expired then map_del key c else c))"

definition cache_Set :: "int \<Rightarrow> string \<Rightarrow> string \<Rightarrow> string \<Rightarrow> int \<Rightarrow> ttl_cache \<Rightarrow> ttl_cache" where
  "cache_Set now key payload mime ttl c =
     map_put key \<lparr>Payload = payload, MimeType = mime, ExpiresAt = now + ttl\<rparr> c"

definition cache_Delete :: "string \<Rightarrow> ttl_cache \<Rightarrow> ttl_cache" where
  "cache_Delete key c = map_del key c"

definition cache_Clear :: "ttl_cache \<Rightarrow> ttl_cache" where
  "cache_Clear c = []"

lemmas cache_defs = cache_lookup_def cache_Get_def cache_Set_def cache_Delete_def cache_Clear_def

text \<open>While no item of the period expires, the cache is an ordinary key-value store.\<close>

interpretation ttl: kv_store "\<lambda>_. True" "\<lambda>c k. fst (cache_Get now k c)"
  "\<lambda>k v c. cache_Set now k (fst v) (snd v) (int ttl) c" cache_Delete for now ttl
  by unfold_locales (auto simp: cache_defs split: option.split)

subsection \<open>Interleaved use\<close>

text \<open>The atomic sections of the operations; \<open>Evict\<close> is the clean-up of an expired \<open>Get\<close>.\<close>

datatype cache_op =
    OpSet int string string string int
  | OpDelete string
  | OpClear
  | OpLookup int string
  | OpEvict string

fun cache_step :: "cache_op \<Rightarrow> ttl_cache \<Rightarrow> ttl_cache" where
  "cache_step (OpSet now k p m ttl) c = cache_Set now k p m ttl c"
| "cache_step (OpDelete k) c = cache_Delete k c"
| "cache_step OpClear c = cache_Clear c"
| "cache_step (OpLookup now k) c = c"
| "cache_step (OpEvict k) c = map_del k c"


text \<open>The operations after which a value stored under \<open>key\<close> is gone or replaced.\<close>

fun overrides :: "string \<Rightarrow> cache_op \<Rightarrow> bool" where
  "overrides key (OpSet now k p m ttl) \<longleftrightarrow> k = key"
| "overrides key (OpDelete k) \<longleftrightarrow> k = key"
| "overrides key OpClear \<longleftrightarrow> True"
| "overrides key (OpLookup now k) \<longleftrightarrow> False"
| "overrides key (OpEvict k) \<longleftrightarrow> k = key"

lemma cache_step_keeps: "\<not> overrides key op \<Longrightarrow> map_of (cache_step op c) key = map_of c key"
  by (cases op) (auto simp: cache_defs)

lemma cache_steps_keep:
  "\<not> list_ex (overrides key) ops \<Longrightarrow> map_of (fold cache_step ops c) key = map_of c key"
  by (induction ops arbitrary: c) (simp_all add: cache_step_keeps)

lemma cache_origin:
  "map_of (fold cache_step ops NewTTLCache) key = Some i \<Longrightarrow>
   \<exists>pre post t p m ttl. ops = pre @ OpSet t key p m ttl # post \<and> \<not> list_ex (overrides key) post \<and>
      i = \<lparr>Payload = p, MimeType = m, ExpiresAt = t + ttl\<rparr>"
proof (induction ops arbitrary: i rule: rev_induct)
  case Nil
  then show ?case by (simp add: NewTTLCache_def)
next
  case (snoc op ops)
  show ?case
  proof (cases "overrides key op")
    case False
    then have "map_of (fold cache_step ops NewTTLCache) key = Some i"
      using snoc.prems by (simp add: cache_step_keeps)
    then obtain pre post t p m ttl where
      "ops = pre @ OpSet t key p m ttl # post" "\<not> list_ex (overrides key) post"
      "i = \<lparr>Payload = p, MimeType = m, ExpiresAt = t + ttl\<rparr>" using snoc.IH by blast
    then show ?thesis using False
      by (intro exI [of _ pre] exI [of _ "post @ [op]"] exI [of _ t] exI [of _ p] exI [of _ m] exI [of _ ttl])
        simp
  next
    case True
    then obtain t p m ttl where op: "op = OpSet t key p m ttl"
      and i: "i = \<lparr>Payload = p, MimeType = m, ExpiresAt = t + ttl\<rparr>"
      using snoc.prems by (cases op) (auto simp: cache_defs)
    then show ?thesis
      by (intro exI [of _ ops] exI [of _ "[]"] exI [of _ t] exI [of _ p] exI [of _ m] exI [of _ ttl]) simp
  qed
qed

text \<open>
  C28. In every interleaving of the cache's critical sections by concurrent goroutines, a lookup hits
  exactly when the key was stored, nothing stored, deleted, cleared or evicted it since, and its time
  to live has not run out; the answer is then what that last store put there. In particular nothing
  outlives a \<open>Clear\<close>, and an expired entry is never served.
\<close>

theorem cache_hit_iff:
  "fst (cache_lookup now key (fold cache_step ops NewTTLCache)) = Some (p, m) \<longleftrightarrow>
   (\<exists>pre post t ttl. ops = pre @ OpSet t key p m ttl # post \<and> \<not> list_ex (overrides key) post \<and>
      now \<le> t + ttl)" (is "?L \<longleftrightarrow> ?R")
proof
  assume ?L
  then obtain i where i: "map_of (fold cache_step ops NewTTLCache) key = Some i"
    "\<not> ExpiresAt i < now" "p = Payload i" "m = MimeType i"
    by (auto simp: cache_lookup_def split: option.splits if_splits)
  obtain pre post t p' m' ttl where "ops = pre @ OpSet t key p' m' ttl # post"
    "\<not> list_ex (overrides key) post" "i = \<lparr>Payload = p', MimeType = m', ExpiresAt = t + ttl\<rparr>"
    using cache_origin [OF i(1)] by blast
  then show ?R using i by (intro exI [of _ pre] exI [of _ post] exI [of _ t] exI [of _ ttl]) simp
next
  assume ?R
  then obtain pre post t ttl where "ops = pre @ OpSet t key p m ttl # post"
    "\<not> list_ex (overrides key) post" "now \<le> t + ttl" by blast
  then show ?L by (simp add: cache_steps_keep cache_lookup_def cache_Set_def)
qed

text \<open>A \<open>Get\<close> that runs undisturbed is a lookup followed by the eviction it asks for.\<close>

lemma cache_Get_steps:
  "cache_Get now key c =
     (fst (cache_lookup now key c),
      fold cache_step (OpLookup now key # (if snd (cache_lookup now key c) then [OpEvict key] else [])) c)"
  by (simp add: cache_Get_def split: prod.split)

end
