(* ===== verification/RpcTools.thy ===== *)
theory RpcTools
  imports CronManage SysctlTool TtlCache
begin

text \<open>
  The handler of \<open>tools/call\<close> (\<^verbatim>\<open>internal/rpc/tools.go\<close>,
  \<^verbatim>\<open>internal/rpc/handler.go\<close>) with the answer of \<open>auth/sudo-rules\<close>. One call is
  a function from the handler's state to its answer, the state afterwards, the worker processes it
  started and the log line. A Go panic, which in the goroutine of a request ends the daemon, is the
  outcome \<open>Panicked\<close>.

  The state has a component \<open>outer\<close> of any type for what belongs to the daemon around the handler;
  the reload callback works on the whole.
\<close>

subsection \<open>The handler\<close>

record settings =
  s_sudo :: sudo_config
  workerTimeoutSec :: int
  s_tools :: tools_config

record 'w rpc_state =
  settings :: settings
  RpcCache :: "(string \<times> string \<times> int) list"
  ResourceCache :: ttl_cache
  outer :: 'w

text \<open>
  \<open>Reconfigure\<close>: new settings, and every cached result dropped.
\<close>

definition Reconfigure :: "sudo_config \<Rightarrow> int \<Rightarrow> tools_config \<Rightarrow> 'w rpc_state \<Rightarrow> 'w rpc_state" where
  "Reconfigure sudoConfig timeoutSec toolsConfig st =
     st\<lparr>settings := \<lparr>s_sudo = sudoConfig, workerTimeoutSec = timeoutSec, s_tools = toolsConfig\<rparr>,
        RpcCache := [], ResourceCache := cache_Clear (ResourceCache st)\<rparr>"

definition NewRPCHandler :: "sudo_config \<Rightarrow> int \<Rightarrow> tools_config \<Rightarrow> ttl_cache \<Rightarrow> 'w \<Rightarrow> 'w rpc_state" where
  "NewRPCHandler sudoConfig timeoutSec toolsConfig rc w =
     Reconfigure sudoConfig timeoutSec toolsConfig
       \<lparr>settings = \<lparr>s_sudo = sudoConfig, workerTimeoutSec = timeoutSec, s_tools = toolsConfig\<rparr>,
        RpcCache = [], ResourceCache = rc, outer = w\<rparr>"

definition timeoutFor :: "settings \<Rightarrow> string \<Rightarrow> int" where
  "timeoutFor s tool =
     (case map_of (s_tools s) tool of
        Some t \<Rightarrow> if 0 < t then t else workerTimeoutSec s
      | None \<Rightarrow> workerTimeoutSec s)"

text \<open>
  The surroundings of one request: the operating system, the clock (when the caches are asked and when
  a result is stored), the calls in flight that \<open>singleflight\<close> would share, the text of a raw
  message, the indented text of a document, SHA-256, and the reload callback.
\<close>

record 'w rpc_env =
  wenv :: worker_env
  re_run :: "process \<Rightarrow> run_result"
  SocketPath :: string
  re_now :: int
  re_later :: int
  in_flight :: "string \<Rightarrow> string result option"
  raw_text :: "json option \<Rightarrow> string"
  re_indent :: "json \<Rightarrow> string"
  re_sha256 :: "string \<Rightarrow> string"
  prune_parse :: "string \<Rightarrow> (string \<times> int \<times> int) option"
  ReloadConfig :: "(string \<Rightarrow> 'w rpc_state \<Rightarrow> string result \<times> 'w rpc_state) option"

record session =
  sess_ID :: string
  sess_User :: string

datatype 'a outcome = Panicked | Finished 'a

subsection \<open>auth/sudo-rules\<close>

text \<open>The grants as \<open>encoding/json\<close> writes the Go structs: field names, maps with sorted keys.\<close>

definition json_map :: "('v \<Rightarrow> json) \<Rightarrow> (string \<times> 'v) list \<Rightarrow> json" where
  "json_map f m = (if m = [] then JNull else marshal_map (map (\<lambda>(k, v). (k, f v)) m))"

definition policy_json :: "policy \<Rightarrow> json" where
  "policy_json p =
     JObj ([(''deny_private'', JBool (DenyPrivate p))] @
           (if Allow p = [] then [] else [(''allow'', json_strings (Allow p))]) @
           (if Deny p = [] then [] else [(''deny'', json_strings (Deny p))]))"

definition privilege_json :: "tool_privilege \<Rightarrow> json" where
  "privilege_json t =
     JObj [(''Allowed'', JBool (tp_Allowed t)), (''Paths'', json_strings (Paths t)),
           (''Containers'', json_strings (Containers t)), (''Prune'', json_strings (Prune t)),
           (''Users'', json_map (\<lambda>r. JObj [(''View'', JBool (View r)), (''Edit'', JBool (Edit r))]) (tp_Users t)),
           (''Network'', (case Network t of None \<Rightarrow> JNull | Some p \<Rightarrow> policy_json p)),
           (''Sysctl'', (case Sysctl t of None \<Rightarrow> JNull | Some s \<Rightarrow>
              JObj [(''RemovedReadOnly'', (case RemovedReadOnly s of None \<Rightarrow> JNull | Some b \<Rightarrow> JBool b)),
                    (''WriteKeys'', json_strings (WriteKeys s))]))]"

definition privileged_json :: "privileged_config \<Rightarrow> json" where
  "privileged_json p =
     JObj [(''Tools'', json_map privilege_json (Tools p)), (''Resources'', json_map json_strings (Resources p))]"

definition SudoRules :: "(json \<Rightarrow> string) \<Rightarrow> json option \<Rightarrow> string \<Rightarrow> sudo_config \<Rightarrow> string result" where
  "SudoRules ind raw username c =
     (let fmt = (case raw of None \<Rightarrow> [] | Some v \<Rightarrow> dec_string [] (field_vals [''output_format''] ''output_format'' v)) in
      case map_of (Users c) username of
        Some us \<Rightarrow>
          (let b = ind (privileged_json (Privileged us))
           in Inr (if structured_format fmt then b else ''Your authorized privileged tools:'' @ newline @ b))
      | None \<Rightarrow>
          Inr (if structured_format fmt then ''{}'' else ''You have no privileged tools authorized in mcp-sudo.yaml.''))"

subsection \<open>The steps of a standard worker call\<close>

definition standardWorkers :: "string list" where
  "standardWorkers = [''files/list'', ''files/read'', ''files/create'', ''files/update'', ''files/find'', ''files/filetype'',
     ''files/chmod'', ''files/chown'', ''services/manage'', ''services/list'', ''timers/list'', ''logs/journal-control'',
     ''logs/dmesg'', ''logs/logins'', ''kernel/system-control'', ''disks/free'', ''disks/usage'', ''disks/list'',
     ''disks/mounts'', ''disks/performance'', ''disks/health'', ''disks/partitions'', ''processes/list'',
     ''processes/top'', ''processes/delete'', ''network/connections'', ''network/nslookup'', ''network/curl'',
     ''network/arp'', ''network/ping'', ''network/trace-path'', ''memory/usage'', ''cpu/list'', ''cpu/load-average'',
     ''system/os-release'', ''system/packages'', ''users/list'', ''docker/containers'', ''docker/manage'',
     ''docker/logs'', ''docker/exec'', ''docker/images'', ''docker/volumes'', ''docker/networks'', ''docker/prune'']"

definition base_fields :: "string list" where
  "base_fields = [''privileged'', ''path'']"

text \<open>The decode of \<open>baseArgs\<close>, whose error is ignored: fields of the wrong type stay zero.\<close>

definition base_Privileged :: "json option \<Rightarrow> bool" where
  "base_Privileged raw = (case raw of None \<Rightarrow> False | Some v \<Rightarrow> dec_bool False (field_vals base_fields ''privileged'' v))"

definition base_Path :: "json option \<Rightarrow> string" where
  "base_Path raw = (case raw of None \<Rightarrow> [] | Some v \<Rightarrow> dec_string [] (field_vals base_fields ''path'' v))"

text \<open>A step's result: the refusal so far and the arguments so far.\<close>

definition step_docker ::
  "'w rpc_env \<Rightarrow> sudo_config \<Rightarrow> string \<Rightarrow> string \<Rightarrow> json option \<Rightarrow> goerr option \<times> json option" where
  "step_docker e c user tool args =
     (if tool \<in> set DockerTools then prepareDockerCall (SocketPath e) c user tool args else (None, args))"

definition step_absolute :: "string \<Rightarrow> string \<Rightarrow> goerr option \<Rightarrow> goerr option" where
  "step_absolute tool path err =
     (if (tool \<in> set PathTools \<or> tool = ''files/stat'') \<and> path \<noteq> [] \<and> \<not> has_prefix path ''/''
      then Some (''path must be absolute, got '' @ quoted path) else err)"

definition step_noroot :: "worker_env \<Rightarrow> bool \<Rightarrow> goerr option \<Rightarrow> goerr option" where
  "step_noroot we priv err = (if err = None \<and> priv \<and> NoRoot we then Some ErrNoRoot else err)"

definition path_to_check :: "string \<Rightarrow> string \<Rightarrow> string" where
  "path_to_check tool path = (if path = [] \<and> tool = ''files/find'' then ''/'' else path)"

definition step_paths ::
  "sudo_config \<Rightarrow> string \<Rightarrow> string \<Rightarrow> bool \<Rightarrow> string \<Rightarrow> goerr option \<times> json option \<Rightarrow> (goerr option \<times> json option) outcome" where
  "step_paths c user tool priv path s =
     (let (err, args) = s; allowedPaths = GetAllowedPaths c user tool in
      if err = None \<and> tool \<in> set PathTools \<and> priv then
        (case PathAllowed (path_to_check tool path) allowedPaths of
           None \<Rightarrow> Finished (Some (''user '' @ user @ '' is not authorized to run '' @ tool @ '' on path '' @ path @ '' as root''), args)
         | Some cleanPath \<Rightarrow>
             (case unmarshal_map args of
                Inl _ \<Rightarrow> Finished (None, args)
              | Inr None \<Rightarrow> Panicked
              | Inr (Some m) \<Rightarrow>
                  (let m1 = map_put ''path'' (JStr cleanPath) m;
                       m2 = (if CoversRoot allowedPaths then m1 else map_put ''_no_follow'' (JBool True) m1)
                   in Finished (None, Some (marshal_map m2)))))
      else Finished (err, args))"

definition step_sysctl :: "sudo_config \<Rightarrow> string \<Rightarrow> string \<Rightarrow> goerr option \<times> json option \<Rightarrow> goerr option" where
  "step_sysctl c user tool s =
     (let (err, args) = s in
      if tool = ''kernel/system-control'' \<and> err = None then
        (case ParseArgs args of
           Inl e \<Rightarrow> Some e
         | Inr sc \<Rightarrow>
             if sc_Key sc \<noteq> [] \<and> sc_Value sc \<noteq> [] \<and> \<not> fst (CanWriteSysctl c user (NormalizeKey (sc_Key sc)))
             then Some (snd (CanWriteSysctl c user (NormalizeKey (sc_Key sc)))) else None)
      else err)"

definition step_network :: "sudo_config \<Rightarrow> string \<Rightarrow> string \<Rightarrow> json option \<Rightarrow> json option outcome" where
  "step_network c user tool args =
     (if tool = ''network/curl'' \<or> tool = ''network/ping'' then
        (case unmarshal_map args of
           Inl _ \<Rightarrow> Finished args
         | Inr mo \<Rightarrow>
             (case (mo, NetworkPolicy c user tool) of
                (None, Some pol) \<Rightarrow> Panicked
              | (None, None) \<Rightarrow> Finished (Some JNull)
              | (Some m, None) \<Rightarrow> Finished (Some (marshal_map (map_del ''_network_policy'' m)))
              | (Some m, Some pol) \<Rightarrow>
                  Finished (Some (marshal_map (map_put ''_network_policy'' (policy_json pol) (map_del ''_network_policy'' m))))))
      else Finished args)"

text \<open>All steps before the worker: the refusal or none, and the arguments the worker gets.\<close>

definition prepare_standard ::
  "'w rpc_env \<Rightarrow> sudo_config \<Rightarrow> string \<Rightarrow> string \<Rightarrow> json option \<Rightarrow> (bool \<times> goerr option \<times> json option) outcome" where
  "prepare_standard e c user tool args =
     (let priv = (base_Privileged args \<or> tool \<in> set DockerTools);
          path = base_Path args;
          (err0, args1) = step_docker e c user tool args;
          err1 = step_noroot (wenv e) priv (step_absolute tool path err0);
          args2 = withoutKey args1 ''_no_follow''
      in case step_paths c user tool priv path (err1, args2) of
           Panicked \<Rightarrow> Panicked
         | Finished (err2, args3) \<Rightarrow>
             (let err3 = step_sysctl c user tool (err2, args3) in
              case step_network c user tool args3 of
                Panicked \<Rightarrow> Panicked
              | Finished args4 \<Rightarrow> Finished (priv, err3, args4)))"

text \<open>
  The worker, for \<open>disks/usage\<close> behind a 60 second cache and \<open>singleflight\<close>: another call
  in flight under the same key lends its result.
\<close>

definition cache_key :: "string \<Rightarrow> string \<Rightarrow> bool \<Rightarrow> string" where
  "cache_key user text priv = user @ '':'' @ text @ '':'' @ bool_str priv"

definition run_standard ::
  "'w rpc_env \<Rightarrow> 'w rpc_state \<Rightarrow> string \<Rightarrow> string \<Rightarrow> json option \<Rightarrow> bool \<Rightarrow> process list \<times> string result \<times> 'w rpc_state" where
  "run_standard e st user tool args priv =
     (let c = s_sudo (settings st); t = timeoutFor (settings st) tool;
          spawn = SpawnWorker (wenv e) (re_run e) user tool args priv (Some c) t in
      if tool = ''disks/usage'' then
        (let key = cache_key user (raw_text e args) priv in
         case map_of (RpcCache st) key of
           Some (res, expires) \<Rightarrow>
             if re_now e < expires then ([], Inr res, st)
             else (case in_flight e key of
                     Some r \<Rightarrow> ([], r, st)
                   | None \<Rightarrow> (fst spawn, snd spawn,
                       (case snd spawn of Inl _ \<Rightarrow> st
                        | Inr out \<Rightarrow> st\<lparr>RpcCache := map_put key (out, re_later e + 60 * second) (RpcCache st)\<rparr>)))
         | None \<Rightarrow>
             (case in_flight e key of
                Some r \<Rightarrow> ([], r, st)
              | None \<Rightarrow> (fst spawn, snd spawn,
                  (case snd spawn of Inl _ \<Rightarrow> st
                   | Inr out \<Rightarrow> st\<lparr>RpcCache := map_put key (out, re_later e + 60 * second) (RpcCache st)\<rparr>))))
      else (fst spawn, snd spawn, st))"

subsection \<open>The log line\<close>

datatype log_kind = AuditLine | DeniedLine | InfoLine

record tool_log =
  tl_kind :: log_kind
  tl_user :: string
  tl_session :: string
  tl_tool :: string
  tl_privileged :: bool
  tl_ok :: bool
  tl_args :: "json option"
  tl_reclaimed :: "string option"
  tl_cron :: "cron_audit option"
  tl_error :: "string option"

definition mutatingTools :: "string list" where
  "mutatingTools = [''files/create'', ''files/update'', ''files/chmod'', ''files/chown'', ''processes/delete'',
     ''services/manage'', ''docker/manage'', ''docker/exec'', ''docker/prune'']"

text \<open>The member \<open>value\<close> of the arguments, as raw text: present and not \<open>null\<close>.\<close>

definition log_has_value :: "json option \<Rightarrow> bool" where
  "log_has_value raw =
     (case raw of
        None \<Rightarrow> False
      | Some v \<Rightarrow>
          (let vs = field_vals [''privileged'', ''value''] ''value'' v in vs \<noteq> [] \<and> last vs \<noteq> JNull))"

definition log_Privileged :: "json option \<Rightarrow> bool" where
  "log_Privileged raw =
     (case raw of None \<Rightarrow> False | Some v \<Rightarrow> dec_bool False (field_vals [''privileged'', ''value''] ''privileged'' v))"

definition logToolCall ::
  "'w rpc_env \<Rightarrow> session \<Rightarrow> string \<Rightarrow> json option \<Rightarrow> json option \<Rightarrow> string result option \<Rightarrow> cron_audit option \<Rightarrow> tool_log" where
  "logToolCall e sess tool args loggedArgs res extra =
     (let execErr = (case res of Some (Inl m) \<Rightarrow> Some m | _ \<Rightarrow> None);
          mutating = (tool \<in> set mutatingTools \<or> (tool = ''kernel/system-control'' \<and> log_has_value args) \<or>
                      (tool = CronTool \<and> extra \<noteq> None))
      in \<lparr>tl_kind = (if mutating then AuditLine
                     else case execErr of
                       Some m \<Rightarrow> if contains m ''not authorized'' then DeniedLine else InfoLine
                     | None \<Rightarrow> InfoLine),
          tl_user = sess_User sess, tl_session = sess_ID sess, tl_tool = tool, tl_privileged = log_Privileged args,
          tl_ok = (execErr = None \<and> res \<noteq> None), tl_args = loggedArgs,
          tl_reclaimed = (if tool = ''docker/prune'' \<and> execErr = None
                          then Some (pruneSummary (prune_parse e) (case res of Some (Inr t) \<Rightarrow> t | _ \<Rightarrow> [])) else None),
          tl_cron = extra,
          tl_error = map_option (\<lambda>m. if 200 < length m then take 200 m @ ''...'' else m) execErr\<rparr>)"

subsection \<open>tools/call\<close>

record rpc_response =
  Result :: "json option"
  Error :: "(int \<times> string) option"

definition no_response :: rpc_response where
  "no_response = \<lparr>Result = None, Error = None\<rparr>"

definition tool_result :: "string result \<Rightarrow> json" where
  "tool_result r =
     (case r of
        Inl m \<Rightarrow> JObj [(''content'', JArr [JObj [(''type'', JStr ''text''), (''text'', JStr m)]]), (''isError'', JBool True)]
      | Inr t \<Rightarrow> JObj [(''content'', JArr [JObj [(''type'', JStr ''text''), (''text'', JStr t)]])])"

text \<open>\<open>CallToolParams\<close>: the name, and the arguments as a raw message.\<close>

definition call_fields :: "string list" where
  "call_fields = [''name'', ''arguments'']"

definition call_params :: "json option \<Rightarrow> (string \<times> json option) result" where
  "call_params raw =
     (case raw of
        None \<Rightarrow> Inl ''unexpected end of JSON input''
      | Some v \<Rightarrow>
          if is_structdoc v \<and> list_all is_str (field_vals call_fields ''name'' v)
          then Inr (dec_string [] (field_vals call_fields ''name'' v),
                    (let vs = field_vals call_fields ''arguments'' v in if vs = [] then None else Some (last vs)))
          else Inl ''json: cannot unmarshal'')"

record 'w call_out =
  out_response :: rpc_response
  out_state :: "'w rpc_state"
  out_spawned :: "process list"
  out_log :: "tool_log option"

text \<open>
  The tool's answer, \<open>None\<close> when there is no such tool; with the arguments as rewritten and the
  crontab audit.
\<close>

definition dispatch_tool ::
  "'w rpc_env \<Rightarrow> 'w rpc_state \<Rightarrow> string \<Rightarrow> string \<Rightarrow> json option \<Rightarrow>
   (string result option \<times> json option \<times> cron_audit option \<times> process list \<times> 'w rpc_state) outcome" where
  "dispatch_tool e st user tool args =
     (let c = s_sudo (settings st) in
      if tool = ''daemon/reload-config'' then
        (if \<not> CanRunAsRoot c user tool
         then Finished (Some (Inl (''user '' @ user @ '' is not authorized to run '' @ tool @ '' (grant it in mcp-sudo.yaml)'')),
                        args, None, [], st)
         else case ReloadConfig e of
           None \<Rightarrow> Finished (Some (Inl ''config reload is not available''), args, None, [], st)
         | Some reload \<Rightarrow> (let (r, st') = reload user st in Finished (Some r, args, None, [], st')))
      else if tool = ''auth/sudo-rules'' then
        Finished (Some (SudoRules (re_indent e) args user c), args, None, [], st)
      else if tool = CronTool then
        (case prepareCronCall c user args False of
           Inl m \<Rightarrow> Finished (Some (Inl m), args, None, [], st)
         | Inr plan \<Rightarrow>
             (let (ps, r) = SpawnWorker (wenv e) (re_run e) user tool (Some (cp_Args plan)) (cp_Privileged plan) (Some c)
                              (timeoutFor (settings st) tool)
              in Finished (Some r, args,
                   (if cp_Write plan then cronAuditAttrs (re_sha256 e) (cp_Args plan) (cp_Target plan) else None), ps, st)))
      else if tool \<in> set standardWorkers then
        (case prepare_standard e c user tool args of
           Panicked \<Rightarrow> Panicked
         | Finished (priv, Some m, args') \<Rightarrow> Finished (Some (Inl m), args', None, [], st)
         | Finished (priv, None, args') \<Rightarrow>
             (let (ps, r, st') = run_standard e st user tool args' priv in Finished (Some r, args', None, ps, st')))
      else Finished (None, args, None, [], st))"

definition HandleToolsCall :: "'w rpc_env \<Rightarrow> session \<Rightarrow> json option \<Rightarrow> 'w rpc_state \<Rightarrow> 'w call_out outcome" where
  "HandleToolsCall e sess params st =
     (case call_params params of
        Inl _ \<Rightarrow> Finished \<lparr>out_response = no_response\<lparr>Error := Some (-32602, ''Invalid params'')\<rparr>, out_state = st,
                           out_spawned = [], out_log = None\<rparr>
      | Inr (tool, args) \<Rightarrow>
          (case dispatch_tool e st (sess_User sess) tool args of
             Panicked \<Rightarrow> Panicked
           | Finished (r, args', audit, ps, st') \<Rightarrow>
               Finished \<lparr>out_response =
                          (case r of
                             None \<Rightarrow> no_response\<lparr>Error := Some (-32601, ''Tool not found'')\<rparr>
                           | Some ans \<Rightarrow> no_response\<lparr>Result := Some (tool_result ans)\<rparr>),
                         out_state = st', out_spawned = ps,
                         out_log = Some (logToolCall e sess tool args' (redactArgs args) r audit)\<rparr>))"

subsection \<open>Facts about rewriting arguments\<close>

lemma nums_ok_members_iff: "nums_ok_members ms \<longleftrightarrow> (\<forall>e \<in> set ms. nums_ok (snd e))"
  by (induction ms) auto

lemma set_fill_map_subset: "set (fill_map ms) \<subseteq> set ms"
proof
  fix e assume "e \<in> set (fill_map ms)"
  then have "map_of (fill_map ms) (fst e) = Some (snd e)" using distinct_fill_map [of ms] by simp
  then have "map_of (rev ms) (fst e) = Some (snd e)" by (simp add: map_of_fill_map)
  then show "e \<in> set ms" using map_of_SomeD by fastforce
qed

lemma map_of_fill_map_distinct: "distinct (map fst ms) \<Longrightarrow> map_of (fill_map ms) = map_of ms"
  by (rule ext) (metis distinct_rev map_of_fill_map map_of_inject_set rev_map set_rev)

lemma withoutKey_marshal:
  assumes "distinct (map fst m)"
  shows "\<exists>m'. withoutKey (Some (marshal_map m)) k = Some (marshal_map m') \<and> distinct (map fst m') \<and>
    map_of m' = (map_of m)(k := None)"
proof -
  let ?f = "fill_map (sort_key fst m)"
  have ds: "distinct (map fst (sort_key fst m))" using assms by (simp add: distinct_map distinct_sort)
  then have f: "map_of ?f = map_of m" using assms by (simp add: map_of_fill_map_distinct map_of_sort_key)
  have w: "withoutKey (Some (marshal_map m)) k =
      (if map_of m k = None then Some (marshal_map m) else Some (marshal_map (map_del k ?f)))"
    by (simp add: withoutKey_def marshal_map_def unmarshal_raw_map_def f)
  show ?thesis
  proof (cases "map_of m k = None")
    case True
    then have "(map_of m)(k := None) = map_of m" by auto
    then show ?thesis using True w assms by (intro exI [of _ m]) simp
  next
    case False
    then show ?thesis using w f distinct_fill_map by (intro exI [of _ "map_del k ?f"]) (auto simp: distinct_map_del)
  qed
qed

lemma withoutKey_object:
  "\<exists>ms'. withoutKey (Some (JObj ms)) k = Some (JObj ms') \<and> (nums_ok_members ms \<longrightarrow> nums_ok_members ms')"
proof (cases "map_of (fill_map ms) k = None")
  case True
  then show ?thesis by (simp add: withoutKey_def unmarshal_raw_map_def)
next
  case False
  then have "withoutKey (Some (JObj ms)) k = Some (JObj (sort_key fst (map_del k (fill_map ms))))"
    by (auto simp: withoutKey_def unmarshal_raw_map_def marshal_map_def Let_def)
  moreover have "set (map_del k (fill_map ms)) \<subseteq> set ms"
    using set_fill_map_subset [of ms] by (auto simp: map_del_def)
  ultimately show ?thesis by (auto simp: nums_ok_members_iff)
qed

lemma unmarshal_object:
  "nums_ok_members ms \<Longrightarrow> \<exists>m. unmarshal_map (Some (JObj ms)) = Inr (Some m) \<and> distinct (map fst m)"
  by (auto simp: unmarshal_map_def distinct_fill_map)

subsection \<open>Which processes a call starts\<close>

lemma run_standard_spawned:
  assumes "run_standard e st user tool args priv = (ps, r, st')" and "p \<in> set ps"
  shows "spawn_process (wenv e) (Some (s_sudo (settings st))) user tool args priv (timeoutFor (settings st) tool) = Inr p"
  using assms SpawnWorker_started
  by (fastforce simp: run_standard_def Let_def split: if_splits option.splits prod.splits)

lemma dispatch_spawned:
  assumes "dispatch_tool e st user tool args = Finished (r, args', audit, ps, st')" and "p \<in> set ps"
  obtains plan t where "tool = CronTool" "prepareCronCall (s_sudo (settings st)) user args False = Inr plan"
      "spawn_process (wenv e) (Some (s_sudo (settings st))) user tool (Some (cp_Args plan)) (cp_Privileged plan) t = Inr p"
  | priv t where "tool \<in> set standardWorkers" "tool \<noteq> CronTool"
      "prepare_standard e (s_sudo (settings st)) user tool args = Finished (priv, None, args')"
      "spawn_process (wenv e) (Some (s_sudo (settings st))) user tool args' priv t = Inr p"
proof (cases "tool = CronTool")
  case True
  then have ne: "tool \<noteq> ''daemon/reload-config''" "tool \<noteq> ''auth/sudo-rules''" by (simp_all add: CronTool_def)
  obtain plan where plan: "prepareCronCall (s_sudo (settings st)) user args False = Inr plan"
    using assms True ne by (auto simp: dispatch_tool_def Let_def split: sum.splits)
  then have "p \<in> set (fst (SpawnWorker (wenv e) (re_run e) user tool (Some (cp_Args plan)) (cp_Privileged plan)
      (Some (s_sudo (settings st))) (timeoutFor (settings st) tool)))"
    using assms True ne by (auto simp: dispatch_tool_def Let_def split: prod.splits)
  then show ?thesis using that(1) True plan SpawnWorker_started by blast
next
  case False
  then obtain priv where std: "tool \<in> set standardWorkers"
    and prep: "prepare_standard e (s_sudo (settings st)) user tool args = Finished (priv, None, args')"
    and run: "run_standard e st user tool args' priv = (ps, the r, st')"
    using assms
    by (auto simp: dispatch_tool_def Let_def split: if_splits outcome.splits option.splits prod.splits)
  show ?thesis using that(2) [OF std False prep run_standard_spawned [OF run assms(2)]] .
qed

lemma spawn_process_uid:
  assumes "spawn_process env c user tool raw priv t = Inr p"
  shows "\<exists>u uid gid groups. target_identity env c user tool priv u = Inr (uid, gid, groups) \<and>
    acct env user = Inr u \<and> proc_tool p = tool \<and> run_uid env p = uid"
proof (rule spawn_processD [OF assms])
  fix u uid gid groups
  assume "acct env user = Inr u" "target_identity env c user tool priv u = Inr (uid, gid, groups)"
    "euid env \<noteq> 0 \<Longrightarrow> uid = word_of_int (euid env)"
    "credential p = (if euid env = 0 then Some (uid, gid, groups) else None)" "proc_tool p = tool"
  then show ?thesis
    by (intro exI [of _ u] exI [of _ uid] exI [of _ gid] exI [of _ groups]) (auto simp: run_uid_def)
qed

lemma HandleToolsCall_dispatch:
  assumes "HandleToolsCall e sess params st = Finished out" and "p \<in> set (out_spawned out)"
  obtains tool args r args' audit st' where "call_params params = Inr (tool, args)"
    "dispatch_tool e st (sess_User sess) tool args = Finished (r, args', audit, out_spawned out, st')"
  using assms by (auto simp: HandleToolsCall_def split: sum.splits outcome.splits prod.splits)

lemma no_read_tools: "tool \<in> set standardWorkers \<or> tool = CronTool \<Longrightarrow> \<not> has_prefix tool ''read_''"
proof -
  have "list_all (\<lambda>t. \<not> has_prefix t ''read_'') (CronTool # standardWorkers)" by code_simp
  then show "tool \<in> set standardWorkers \<or> tool = CronTool \<Longrightarrow> \<not> has_prefix tool ''read_''"
    by (auto simp: list_all_iff)
qed

lemma HandleToolsCall_root:
  assumes "HandleToolsCall e sess params st = Finished out" and "p \<in> set (out_spawned out)"
    and "uids32 (wenv e)" and "run_uid (wenv e) p = 0"
  shows "CanRunAsRoot (s_sudo (settings st)) (sess_User sess) (proc_tool p) \<and> \<not> NoRoot (wenv e)"
proof -
  obtain tool args r args' audit st' where "call_params params = Inr (tool, args)"
    and d: "dispatch_tool e st (sess_User sess) tool args = Finished (r, args', audit, out_spawned out, st')"
    by (rule HandleToolsCall_dispatch [OF assms(1,2)])
  obtain raw priv t where s: "spawn_process (wenv e) (Some (s_sudo (settings st))) (sess_User sess) tool raw priv t = Inr p"
    and nr: "\<not> has_prefix tool ''read_''"
    using d assms(2)
  proof (cases rule: dispatch_spawned)
    case (1 plan t)
    then show ?thesis using that no_read_tools by metis
  next
    case (2 priv t)
    then show ?thesis using that no_read_tools by metis
  qed
  obtain u uid gid groups where i:
      "target_identity (wenv e) (Some (s_sudo (settings st))) (sess_User sess) tool priv u = Inr (uid, gid, groups)"
      "acct (wenv e) (sess_User sess) = Inr u" "proc_tool p = tool" "run_uid (wenv e) p = uid"
    using spawn_process_uid [OF s] by blast
  have priv
  proof (rule ccontr)
    assume "\<not> priv"
    then have "uid = word_of_int (atoi_value (Uid u))" "atoi_value (Uid u) \<noteq> 0"
      using target_identity_user i(1) by auto
    then show False using assms(3,4) i(2,4) word32_of_int_0_iff [of "atoi_value (Uid u)"]
      by (auto simp: uids32_def)
  qed
  then have "target_identity (wenv e) (Some (s_sudo (settings st))) (sess_User sess) tool True u = Inr (uid, gid, groups)"
    using i(1) by simp
  from target_identity_root [OF this] show ?thesis using nr i(3) by auto
qed

text \<open>
  C13. No call of a tool runs anything as root unless mcp-sudo.yaml, as it was when the call began, allows
  exactly this tool to exactly this user, and never when the daemon serves over stdio.
\<close>

theorem tools_call_root_granted:
  assumes "HandleToolsCall e sess params st = Finished out" and "p \<in> set (out_spawned out)"
    and "uids32 (wenv e)" and "run_uid (wenv e) p = 0"
  shows "CanRunAsRoot (s_sudo (settings st)) (sess_User sess) (proc_tool p) \<and> \<not> NoRoot (wenv e)"
  using HandleToolsCall_root [OF assms] .

definition ex_rpc_env :: "unit rpc_env" where
  "ex_rpc_env =
     \<lparr>wenv = ex_env, re_run = (\<lambda>_. \<lparr>deadline = False, run_error = None, stdout = ''ok'', stderr = []\<rparr>), SocketPath = [],
      re_now = 0, re_later = 0, in_flight = (\<lambda>_. None), raw_text = (\<lambda>_. []), re_indent = (\<lambda>_. []), re_sha256 = (\<lambda>_. []),
      prune_parse = (\<lambda>_. None), ReloadConfig = None\<rparr>"

definition ex_state :: "sudo_config \<Rightarrow> unit rpc_state" where
  "ex_state c = NewRPCHandler c 30 [] [] ()"

definition ex_session :: session where
  "ex_session = \<lparr>sess_ID = ''s-1'', sess_User = ''alice''\<rparr>"

lemmas ex_rpc_defs = ex_rpc_env_def ex_state_def NewRPCHandler_def Reconfigure_def cache_Clear_def ex_session_def

definition ex_call :: "string \<Rightarrow> json \<Rightarrow> json option" where
  "ex_call tool args = Some (JObj [(''name'', JStr tool), (''arguments'', args)])"

lemma call_params_ex [simp]: "call_params (ex_call tool args) = Inr (tool, Some args)"
proof -
  have "json_field call_fields ''name'' = Some ''name''" "json_field call_fields ''arguments'' = Some ''arguments''"
    by code_simp+
  then show ?thesis
    by (simp add: call_params_def ex_call_def is_structdoc_def field_vals_def members_def is_str_def dec_string_def)
qed

definition ex_sysctl_call :: json where
  "ex_sysctl_call = JObj [(''key'', JStr ''vm.swappiness''), (''value'', JStr ''10''), (''privileged'', JBool True)]"

lemma ex_sysctl_prepared:
  "prepare_standard ex_rpc_env ex_sudo ''alice'' ''kernel/system-control'' (Some ex_sysctl_call) =
   Finished (True, None, Some ex_sysctl_call)"
  by code_simp

definition root_process :: "string \<Rightarrow> json option \<Rightarrow> process" where
  "root_process tool args =
     \<lparr>proc_tool = tool, proc_stdin = args, host_root = True, credential = Some (0, 0, [0]), timeout = 30\<rparr>"

lemma ex_root_call:
  assumes "CanRunAsRoot c ''alice'' tool" and "\<not> has_prefix tool ''read_''" and "tool \<noteq> ''disks/usage''"
    and "tool \<in> set standardWorkers" and "tool \<notin> {''daemon/reload-config'', ''auth/sudo-rules'', CronTool}"
    and "prepare_standard ex_rpc_env c ''alice'' tool (Some args) = Finished (True, None, args')"
  shows "\<exists>out. HandleToolsCall ex_rpc_env ex_session (ex_call tool args) (ex_state c) = Finished out \<and>
    out_spawned out = [root_process tool args']"
proof -
  have u: "atoi_value ''1000'' = 1000" by code_simp
  have "spawn_process ex_env (Some c) ''alice'' tool args' True 30 = Inr (root_process tool args')"
    using assms(1,2) u by (simp add: spawn_process_def target_identity_def ex_env_def ex_accounts_def root_process_def)
  then have "fst (SpawnWorker ex_env r ''alice'' tool args' True (Some c) 30) = [root_process tool args']" for r
    by (simp add: SpawnWorker_def)
  then show ?thesis using assms(3-6)
    by (simp add: HandleToolsCall_def dispatch_tool_def run_standard_def ex_state_def NewRPCHandler_def Reconfigure_def
        ex_session_def timeoutFor_def ex_rpc_env_def Let_def)
qed

theorem tools_call_root_granted_witness:
  "\<exists>out p. HandleToolsCall ex_rpc_env ex_session (ex_call ''kernel/system-control'' ex_sysctl_call) (ex_state ex_sudo) = Finished out \<and>
     out_spawned out = [p] \<and> run_uid ex_env p = 0 \<and> CanRunAsRoot ex_sudo ''alice'' (proc_tool p)"
proof -
  let ?tool = "''kernel/system-control''"
  have c: "CanRunAsRoot ex_sudo ''alice'' ?tool" "\<not> has_prefix ?tool ''read_''" by code_simp+
  have s: "?tool \<in> set standardWorkers" "?tool \<notin> {''daemon/reload-config'', ''auth/sudo-rules'', CronTool}"
    by (simp_all add: standardWorkers_def CronTool_def)
  obtain out where o: "HandleToolsCall ex_rpc_env ex_session (ex_call ?tool ex_sysctl_call) (ex_state ex_sudo) = Finished out"
    "out_spawned out = [root_process ?tool (Some ex_sysctl_call)]"
    using ex_root_call [OF c _ s ex_sysctl_prepared] by auto
  have u: "run_uid ex_env (root_process ?tool (Some ex_sysctl_call)) = 0" by (simp add: run_uid_def root_process_def)
  have e: "wenv ex_rpc_env = ex_env" "s_sudo (settings (ex_state ex_sudo)) = ex_sudo" "sess_User ex_session = ''alice''"
    by (simp_all add: ex_rpc_defs)
  have "CanRunAsRoot ex_sudo ''alice'' (proc_tool (root_process ?tool (Some ex_sysctl_call)))"
    using tools_call_root_granted [OF o(1), of "root_process ?tool (Some ex_sysctl_call)"] o(2) u ex_env_uids32 e by simp
  then show ?thesis using o u by blast
qed

subsection \<open>What a root worker is given\<close>

lemma prepare_standard_ok:
  assumes "prepare_standard e c user tool args = Finished (priv, None, args')"
  obtains args1 args3 where "priv = (base_Privileged args \<or> tool \<in> set DockerTools)"
    "step_docker e c user tool args = (None, args1)"
    "step_paths c user tool priv (base_Path args) (None, withoutKey args1 ''_no_follow'') = Finished (None, args3)"
    "step_sysctl c user tool (None, args3) = None" "step_network c user tool args3 = Finished args'"
proof -
  let ?priv = "base_Privileged args \<or> tool \<in> set DockerTools"
  obtain err0 args1 where d: "step_docker e c user tool args = (err0, args1)" by (cases "step_docker e c user tool args")
  let ?err1 = "step_noroot (wenv e) ?priv (step_absolute tool (base_Path args) err0)"
  obtain err2 args3 where p:
    "step_paths c user tool ?priv (base_Path args) (?err1, withoutKey args1 ''_no_follow'') = Finished (err2, args3)"
    using assms d by (auto simp: prepare_standard_def Let_def split: outcome.splits)
  have n: "priv = ?priv" "step_sysctl c user tool (err2, args3) = None" "step_network c user tool args3 = Finished args'"
    using assms d p by (auto simp: prepare_standard_def Let_def split: outcome.splits)
  have e2: "err2 = None" using n(2) by (auto simp: step_sysctl_def split: if_splits)
  have e1: "?err1 = None"
    using p e2 by (auto simp: step_paths_def Let_def split: if_splits option.splits sum.splits)
  then have "err0 = None" by (auto simp: step_noroot_def step_absolute_def split: if_splits)
  then show ?thesis using that d p e1 e2 n by simp
qed

lemma tool_groups:
  "tool \<in> set PathTools \<Longrightarrow> tool \<notin> set DockerTools \<and> tool \<noteq> ''network/curl'' \<and> tool \<noteq> ''network/ping'' \<and> tool \<noteq> CronTool \<and>
     tool \<noteq> ''kernel/system-control''"
proof -
  have "list_all (\<lambda>t. t \<notin> set DockerTools \<and> t \<noteq> ''network/curl'' \<and> t \<noteq> ''network/ping'' \<and> t \<noteq> CronTool \<and>
      t \<noteq> ''kernel/system-control'') PathTools" by code_simp
  then show "tool \<in> set PathTools \<Longrightarrow> tool \<notin> set DockerTools \<and> tool \<noteq> ''network/curl'' \<and> tool \<noteq> ''network/ping'' \<and>
      tool \<noteq> CronTool \<and> tool \<noteq> ''kernel/system-control''"
    by (auto simp: list_all_iff)
qed

lemma field_vals_non_object: "\<forall>ms. v \<noteq> JObj ms \<Longrightarrow> field_vals fs f v = []"
  by (cases v) (auto simp: field_vals_def members_def)

lemma fold_safe_names: "fold_safe ''path''" "fold_safe ''_no_follow''" "fold_safe ''_prune''" "fold_safe ''privileged''"
  by (simp_all add: fold_safe_def fold_safe_char_def)

lemma prepared_path:
  assumes "prepare_standard e c user tool (Some v) = Finished (True, None, args')"
    and "tool \<in> set PathTools" and "nums_ok v"
  shows "\<exists>m clean_path. args' = Some (marshal_map m) \<and> distinct (map fst m) \<and>
    PathAllowed (path_to_check tool (base_Path (Some v))) (GetAllowedPaths c user tool) = Some clean_path \<and>
    map_of m ''path'' = Some (JStr clean_path) \<and>
    (\<not> CoversRoot (GetAllowedPaths c user tool) \<longrightarrow> map_of m ''_no_follow'' = Some (JBool True))"
proof -
  have g: "tool \<notin> set DockerTools" "tool \<noteq> ''network/curl''" "tool \<noteq> ''network/ping''"
    using tool_groups [OF assms(2)] by auto
  obtain args1 args3 where priv: "base_Privileged (Some v)"
    and d: "step_docker e c user tool (Some v) = (None, args1)"
    and p: "step_paths c user tool True (base_Path (Some v)) (None, withoutKey args1 ''_no_follow'') = Finished (None, args3)"
    and n: "step_network c user tool args3 = Finished args'"
    using prepare_standard_ok [OF assms(1)] g(1) by metis
  have a1: "args1 = Some v" using d g(1) by (simp add: step_docker_def)
  have a3: "args3 = args'" using n g by (simp add: step_network_def)
  obtain ms where v: "v = JObj ms"
    using priv field_vals_non_object [of v base_fields "''privileged''"]
    by (cases v) (auto simp: base_Privileged_def dec_bool_def)
  obtain ms' where ms': "withoutKey (Some v) ''_no_follow'' = Some (JObj ms')" "nums_ok_members ms'"
    using withoutKey_object [of ms "''_no_follow''"] assms(3) v by auto
  obtain m where m: "unmarshal_map (Some (JObj ms')) = Inr (Some m)" "distinct (map fst m)"
    using unmarshal_object [OF ms'(2)] by blast
  obtain cp where cp: "PathAllowed (path_to_check tool (base_Path (Some v))) (GetAllowedPaths c user tool) = Some cp"
    using p a1 ms'(1) assms(2) by (auto simp: step_paths_def Let_def split: option.splits)
  let ?m1 = "map_put ''path'' (JStr cp) m"
  let ?m2 = "if CoversRoot (GetAllowedPaths c user tool) then ?m1 else map_put ''_no_follow'' (JBool True) ?m1"
  have "args' = Some (marshal_map ?m2)"
    using p a1 a3 ms'(1) assms(2) cp m(1) by (simp add: step_paths_def Let_def)
  then show ?thesis using cp m(2)
    by (intro exI [of _ ?m2] exI [of _ cp]) (auto simp: distinct_map_put simp del: map_of_eq_Some_iff)
qed

lemma dispatched_standard:
  assumes "HandleToolsCall e sess params st = Finished out" and "p \<in> set (out_spawned out)" and "proc_tool p \<noteq> CronTool"
  obtains args priv where "call_params params = Inr (proc_tool p, args)"
    "prepare_standard e (s_sudo (settings st)) (sess_User sess) (proc_tool p) args = Finished (priv, None, proc_stdin p)"
    "\<exists>t. spawn_process (wenv e) (Some (s_sudo (settings st))) (sess_User sess) (proc_tool p) (proc_stdin p) priv t = Inr p"
proof -
  obtain tool args r args' audit st' where c: "call_params params = Inr (tool, args)"
    and d: "dispatch_tool e st (sess_User sess) tool args = Finished (r, args', audit, out_spawned out, st')"
    by (rule HandleToolsCall_dispatch [OF assms(1,2)])
  show ?thesis
    using d assms(2)
  proof (cases rule: dispatch_spawned)
    case (1 plan t)
    then have "proc_tool p = CronTool" using spawn_processD [OF 1(3)] by metis
    then show ?thesis using assms(3) by simp
  next
    case (2 priv t)
    have "proc_tool p = tool" "proc_stdin p = args'" using spawn_processD [OF 2(4)] by metis+
    then show ?thesis using that c 2(3,4) by blast
  qed
qed

lemma root_spawn_privileged:
  assumes "spawn_process env c user tool raw priv t = Inr p" and "uids32 env" and "run_uid env p = 0"
  shows priv
proof (rule ccontr)
  assume np: "\<not> priv"
  obtain u uid gid groups where "target_identity env c user tool priv u = Inr (uid, gid, groups)"
      "acct env user = Inr u" "run_uid env p = uid"
    using spawn_process_uid [OF assms(1)] by blast
  then show False using np target_identity_user assms(2,3) word32_of_int_0_iff [of "atoi_value (Uid u)"]
    by (auto simp: uids32_def)
qed

lemma root_path_worker:
  assumes "HandleToolsCall e sess params st = Finished out" and "p \<in> set (out_spawned out)"
    and "uids32 (wenv e)" and "run_uid (wenv e) p = 0" and "proc_tool p \<in> set PathTools"
    and "call_params params = Inr (proc_tool p, Some v)" and "nums_ok v"
    and "''path'' \<in> set fs"
  shows "\<exists>doc q. proc_stdin p = Some doc \<and> q = dec_string [] (field_vals fs ''path'' doc) \<and> clean q = q \<and> is_rooted q \<and>
    (\<exists>a. a \<in> set (GetAllowedPaths (s_sudo (settings st)) (sess_User sess) (proc_tool p)) \<and> is_rooted a \<and> lies_within a q) \<and>
    (''_no_follow'' \<in> set fs \<longrightarrow> dec_bool False (field_vals fs ''_no_follow'' doc) \<or>
     CoversRoot (GetAllowedPaths (s_sudo (settings st)) (sess_User sess) (proc_tool p)))"
proof -
  let ?c = "s_sudo (settings st)" and ?u = "sess_User sess" and ?t = "proc_tool p"
  have nc: "?t \<noteq> CronTool" using tool_groups [OF assms(5)] by simp
  obtain args priv where "call_params params = Inr (?t, args)"
    and pr: "prepare_standard e ?c ?u ?t args = Finished (priv, None, proc_stdin p)"
    and sp: "\<exists>t. spawn_process (wenv e) (Some ?c) ?u ?t (proc_stdin p) priv t = Inr p"
    by (rule dispatched_standard [OF assms(1,2) nc])
  then have args: "args = Some v" using assms(6) by simp
  have priv using sp root_spawn_privileged [OF _ assms(3,4)] by blast
  then obtain m q where m: "proc_stdin p = Some (marshal_map m)" "distinct (map fst m)"
    and q: "PathAllowed (path_to_check ?t (base_Path (Some v))) (GetAllowedPaths ?c ?u ?t) = Some q"
      "map_of m ''path'' = Some (JStr q)"
    and nf: "\<not> CoversRoot (GetAllowedPaths ?c ?u ?t) \<Longrightarrow> map_of m ''_no_follow'' = Some (JBool True)"
    using prepared_path [OF _ assms(5,7)] pr args by (metis (full_types))
  have path: "dec_string [] (field_vals fs ''path'' (marshal_map m)) = q"
    using field_vals_marshal_last [OF fold_safe_names(1) assms(8) m(2) q(2)] dec_string_last by auto
  have follow: "dec_bool False (field_vals fs ''_no_follow'' (marshal_map m))" 
    if "\<not> CoversRoot (GetAllowedPaths ?c ?u ?t)" and "''_no_follow'' \<in> set fs"
    using field_vals_marshal_last [OF fold_safe_names(2) that(2) m(2) nf [OF that(1)]] dec_bool_last by auto
  obtain a where a: "a \<in> set (GetAllowedPaths ?c ?u ?t)" "is_rooted a"
      "lies_within a (path_to_check ?t (base_Path (Some v)))" "is_rooted (path_to_check ?t (base_Path (Some v)))"
      "q = clean (path_to_check ?t (base_Path (Some v)))"
    using q(1) by (auto simp: PathAllowed_eq split: if_splits)
  have "is_rooted q" "clean q = q" "lies_within a q" using a by (auto simp: clean_clean lies_within_def)
  then show ?thesis using m(1) path follow a(1,2) by (intro exI [of _ "marshal_map m"] exI [of _ q]) auto
qed


definition ex_grant :: tool_privilege where
  "ex_grant = \<lparr>tp_Allowed = True, Paths = [], Containers = [], Prune = [], tp_Users = [], Network = None, Sysctl = None\<rparr>"

definition ex_root_sudo :: sudo_config where
  "ex_root_sudo =
     \<lparr>Users = [(''alice'', \<lparr>Privileged = \<lparr>Tools =
        [(''files/read'', ex_grant\<lparr>Paths := [''/var/log'']\<rparr>),
         (''docker/logs'', ex_grant\<lparr>Containers := [''web-*'']\<rparr>),
         (''docker/prune'', ex_grant\<lparr>Prune := [''images'']\<rparr>),
         (''network/curl'', ex_grant\<lparr>Network := Some \<lparr>DenyPrivate = True, Allow = [], Deny = []\<rparr>\<rparr>)],
        Resources = []\<rparr>\<rparr>)]\<rparr>"

definition ex_read_args :: json where
  "ex_read_args = JObj [(''path'', JStr ''/var/log/./nginx/../syslog''), (''PATH'', JStr ''/var/log/x''), (''privileged'', JBool True)]"

definition ex_read_doc :: json where
  "ex_read_doc = JObj [(''PATH'', JStr ''/var/log/x''), (''_no_follow'', JBool True), (''path'', JStr ''/var/log/x''), (''privileged'', JBool True)]"

lemma ex_read_prepared:
  "prepare_standard ex_rpc_env ex_root_sudo ''alice'' ''files/read'' (Some ex_read_args) = Finished (True, None, Some ex_read_doc)"
  by code_simp

lemma ex_root_facts:
  "wenv ex_rpc_env = ex_env" "s_sudo (settings (ex_state c)) = c" "sess_User ex_session = ''alice''"
  "run_uid ex_env (root_process tool args) = 0" "proc_tool (root_process tool args) = tool"
  "proc_stdin (root_process tool args) = args"
  by (simp_all add: ex_rpc_defs run_uid_def root_process_def)


lemma float64_too_large: "\<not> float64_ok 1 1024"
proof -
  have gen: "a \<le> b \<Longrightarrow> 0 \<le> d \<Longrightarrow> \<not> b < a - d" for a b d :: int by simp
  have n: "nat 1024 = (1024 :: nat)" by simp
  have "(2 :: int) ^ 1024 \<le> 10 ^ 1024" by (rule power_mono) simp_all
  moreover have "(0 :: int) \<le> 2 ^ 970" by (rule zero_le_power) simp
  ultimately have "\<not> (10 :: int) ^ 1024 < 2 ^ 1024 - 2 ^ 970" by (rule gen)
  then show ?thesis unfolding float64_ok_def n
    by (simp only: one_neq_zero zero_le_numeral abs_one mult_1_left if_False if_True not_False_eq_True)
qed

text \<open>
  The rewriting is skipped, and the call still runs as root, when the master cannot decode the
  arguments into a map while the worker can decode them into its struct: a member the worker ignores,
  holding a number beyond the range of float64, is enough. The worker then follows symbolic links under
  the granted directory.
\<close>

lemma root_path_fail_open:
  "\<exists>out p doc. HandleToolsCall ex_rpc_env ex_session
       (ex_call ''files/read'' (JObj [(''path'', JStr ''/var/log/link''), (''privileged'', JBool True), (''x'', JNum 1 1024)]))
       (ex_state ex_root_sudo) = Finished out \<and>
     out_spawned out = [p] \<and> run_uid ex_env p = 0 \<and> proc_stdin p = Some doc \<and>
     \<not> dec_bool False (field_vals [''path'', ''_no_follow''] ''_no_follow'' doc) \<and>
     \<not> CoversRoot (GetAllowedPaths ex_root_sudo ''alice'' ''files/read'')"
proof -
  let ?t = "''files/read''"
  let ?a = "JObj [(''path'', JStr ''/var/log/link''), (''privileged'', JBool True), (''x'', JNum 1 1024)]"
  have c: "CanRunAsRoot ex_root_sudo ''alice'' ?t" "\<not> has_prefix ?t ''read_''" by code_simp+
  have s: "?t \<in> set standardWorkers" "?t \<notin> {''daemon/reload-config'', ''auth/sudo-rules'', CronTool}"
    by (simp_all add: standardWorkers_def CronTool_def)
  have u: "\<exists>e. unmarshal_map (Some ?a) = Inl e" by (simp add: unmarshal_map_def float64_too_large)
  have w: "withoutKey (Some ?a) ''_no_follow'' = Some ?a" by code_simp
  have b: "base_Privileged (Some ?a)" "base_Path (Some ?a) = ''/var/log/link''" by code_simp+
  have pa: "PathAllowed ''/var/log/link'' (GetAllowedPaths ex_root_sudo ''alice'' ?t) = Some ''/var/log/link''" by code_simp
  have "prepare_standard ex_rpc_env ex_root_sudo ''alice'' ?t (Some ?a) = Finished (True, None, Some ?a)"
    using u w b pa
    by (auto simp: prepare_standard_def step_docker_def step_noroot_def step_absolute_def step_paths_def step_sysctl_def
        step_network_def path_to_check_def DockerTools_def PathTools_def ex_rpc_env_def ex_env_def has_prefix_def)
  then obtain out where o: "HandleToolsCall ex_rpc_env ex_session (ex_call ?t ?a) (ex_state ex_root_sudo) = Finished out"
    "out_spawned out = [root_process ?t (Some ?a)]"
    using ex_root_call [OF c _ s, of ?a "Some ?a"] by auto
  have n: "\<not> dec_bool False (field_vals [''path'', ''_no_follow''] ''_no_follow'' ?a)"
    "\<not> CoversRoot (GetAllowedPaths ex_root_sudo ''alice'' ?t)" by code_simp+
  show ?thesis using o n ex_root_facts(4,6) by blast
qed

text \<open>
  C32. A kernel parameter is written only when the user's sysctl policy permits the key: whenever a worker
  is started for \<open>kernel/system-control\<close> with arguments that make it write, the policy permits
  the normalised key of those very arguments.
\<close>

theorem sysctl_write_permitted:
  assumes "HandleToolsCall e sess params st = Finished out" and "p \<in> set (out_spawned out)"
    and "proc_tool p = ''kernel/system-control''" and "ParseArgs (proc_stdin p) = Inr sc"
    and "sc_Key sc \<noteq> []" and "sc_Value sc \<noteq> []"
  shows "fst (CanWriteSysctl (s_sudo (settings st)) (sess_User sess) (NormalizeKey (sc_Key sc)))"
proof -
  let ?c = "s_sudo (settings st)" and ?u = "sess_User sess" and ?t = "''kernel/system-control''"
  have nc: "proc_tool p \<noteq> CronTool" using assms(3) by (simp add: CronTool_def)
  obtain args priv where "call_params params = Inr (proc_tool p, args)"
    and pr: "prepare_standard e ?c ?u (proc_tool p) args = Finished (priv, None, proc_stdin p)"
    and "\<exists>t. spawn_process (wenv e) (Some ?c) ?u (proc_tool p) (proc_stdin p) priv t = Inr p"
    by (rule dispatched_standard [OF assms(1,2) nc])
  obtain args3 where "step_sysctl ?c ?u ?t (None, args3) = None" "step_network ?c ?u ?t args3 = Finished (proc_stdin p)"
    using prepare_standard_ok [OF pr] assms(3) by metis
  then show ?thesis using assms(4-6) by (auto simp: step_sysctl_def step_network_def split: if_splits)
qed

theorem sysctl_write_permitted_witness:
  "\<exists>out. HandleToolsCall ex_rpc_env ex_session (ex_call ''kernel/system-control'' ex_sysctl_call) (ex_state ex_sudo) = Finished out \<and>
     out_spawned out \<noteq> [] \<and> fst (CanWriteSysctl ex_sudo ''alice'' (NormalizeKey ''vm.swappiness''))"
proof -
  let ?tool = "''kernel/system-control''" and ?p = "root_process ''kernel/system-control'' (Some ex_sysctl_call)"
  have c: "CanRunAsRoot ex_sudo ''alice'' ?tool" "\<not> has_prefix ?tool ''read_''" by code_simp+
  have s: "?tool \<in> set standardWorkers" "?tool \<notin> {''daemon/reload-config'', ''auth/sudo-rules'', CronTool}"
    by (simp_all add: standardWorkers_def CronTool_def)
  obtain out where o: "HandleToolsCall ex_rpc_env ex_session (ex_call ?tool ex_sysctl_call) (ex_state ex_sudo) = Finished out"
    "out_spawned out = [?p]"
    using ex_root_call [OF c _ s ex_sysctl_prepared] by auto
  have a: "ParseArgs (Some ex_sysctl_call) = Inr \<lparr>sc_Key = ''vm.swappiness'', sc_Value = ''10'', ReadAll = False, sc_Privileged = True\<rparr>"
    by code_simp
  show ?thesis
    using sysctl_write_permitted [OF o(1), of ?p "\<lparr>sc_Key = ''vm.swappiness'', sc_Value = ''10'', ReadAll = False, sc_Privileged = True\<rparr>"]
      o a by (simp add: ex_root_facts)
qed

end
