(* ===== verification/GoText.thy ===== *)
theory GoText
  imports Prelude
begin

text \<open>
  More of Go's text handling, for the components that parse files of the system: the lines a
  \<open>bufio.Scanner\<close> delivers, \<open>strings.Fields\<close>, \<open>strings.Trim\<close> with a set of
  characters, \<open>strings.Index\<close> and the error text of \<open>strconv.Atoi\<close>.
\<close>

text \<open>
  \<open>bufio.ScanLines\<close>: the text between newlines, without a final carriage return and without an
  empty piece after the last newline. A line that does not fit the 64 KiB buffer ends the scan.
\<close>

definition drop_cr :: "string \<Rightarrow> string" where
  "drop_cr s = trim_suffix s [CHR 0x0D]"

definition raw_lines :: "string \<Rightarrow> string list" where
  "raw_lines s = (let ps = split_on CHR 0x0A s in if last ps = [] then butlast ps else ps)"

definition scan_lines :: "string \<Rightarrow> string list" where
  "scan_lines s = map drop_cr (takeWhile (\<lambda>l. length l < 65536) (raw_lines s))"

text \<open>\<open>strings.Fields\<close>: the maximal runs of characters that are not white space.\<close>

function fields :: "string \<Rightarrow> string list" where
  "fields s =
     (case dropWhile is_space s of
        [] \<Rightarrow> []
      | c # r \<Rightarrow> takeWhile (\<lambda>x. \<not> is_space x) (c # r) # fields (dropWhile (\<lambda>x. \<not> is_space x) (c # r)))"
  by pat_completeness auto

termination fields
proof (relation "measure length")
  fix s c r assume d: "dropWhile is_space s = c # r"
  then have "\<not> is_space c" by (simp add: dropWhile_eq_Cons_conv)
  then have "length (dropWhile (\<lambda>x. \<not> is_space x) (c # r)) \<le> length r" by (simp add: length_dropWhile_le)
  moreover have "length (c # r) \<le> length s" using d by (metis length_dropWhile_le)
  ultimately show "(dropWhile (\<lambda>x. \<not> is_space x) (c # r), s) \<in> measure length" by simp
qed simp

declare fields.simps [simp del]

definition trim_chars :: "string \<Rightarrow> string \<Rightarrow> string" where
  "trim_chars s cutset = rev (dropWhile (\<lambda>c. c \<in> set cutset) (rev (dropWhile (\<lambda>c. c \<in> set cutset) s)))"

definition trim_right_chars :: "string \<Rightarrow> string \<Rightarrow> string" where
  "trim_right_chars s cutset = rev (dropWhile (\<lambda>c. c \<in> set cutset) (rev s))"

text \<open>\<open>strings.Index\<close>: where the text first occurs.\<close>

fun index_of :: "string \<Rightarrow> string \<Rightarrow> nat option" where
  "index_of [] p = (if p = [] then Some 0 else None)"
| "index_of (c # s) p =
     (if has_prefix (c # s) p then Some 0 else map_option Suc (index_of s p))"

text \<open>\<open>strings.Cut\<close> at a text of several characters.\<close>

definition cut_str :: "string \<Rightarrow> string \<Rightarrow> string \<times> string \<times> bool" where
  "cut_str s sep =
     (case index_of s sep of
        Some i \<Rightarrow> (take i s, drop (i + length sep) s, True)
      | None \<Rightarrow> (s, [], False))"

definition cut_last :: "char \<Rightarrow> string \<Rightarrow> (string \<times> string) option" where
  "cut_last c s =
     (if c \<in> set s
      then Some (rev (tl (dropWhile (\<lambda>x. x \<noteq> c) (rev s))), rev (takeWhile (\<lambda>x. x \<noteq> c) (rev s)))
      else None)"

definition atoi_error :: "string \<Rightarrow> goerr" where
  "atoi_error s =
     (let ds = (if has_prefix s ''-'' \<or> has_prefix s ''+'' then tl s else s)
      in ''strconv.Atoi: parsing '' @ quoted s @
         (if ds = [] \<or> \<not> list_all is_digit ds then '': invalid syntax'' else '': value out of range''))"

lemma index_of_contains: "index_of s p = None \<longleftrightarrow> \<not> contains s p"
  by (induction s) auto

lemma index_of_Some: "index_of s p = Some i \<Longrightarrow> has_prefix (drop i s) p \<and> i + length p \<le> length s"
proof (induction s arbitrary: i)
  case Nil
  then show ?case by (simp add: has_prefix_def split: if_splits)
next
  case (Cons c s)
  show ?case
  proof (cases "has_prefix (c # s) p")
    case True
    then show ?thesis using Cons.prems by (auto simp: has_prefix_def) (metis length_Cons length_take min.cobounded1)
  next
    case False
    then obtain j where "index_of s p = Some j" "i = Suc j" using Cons.prems by auto
    then show ?thesis using Cons.IH by simp
  qed
qed

lemma cut_str_join: "cut_str s sep = (a, b, True) \<Longrightarrow> s = a @ sep @ b"
proof -
  assume "cut_str s sep = (a, b, True)"
  then obtain i where i: "index_of s sep = Some i" "a = take i s" "b = drop (i + length sep) s"
    by (auto simp: cut_str_def split: option.splits)
  then have "take (length sep) (drop i s) = sep" using index_of_Some [OF i(1)] by (simp add: has_prefix_def)
  moreover have "s = take i s @ take (length sep) (drop i s) @ drop (length sep) (drop i s)"
    by (metis append_take_drop_id)
  ultimately show ?thesis using i by (simp add: add.commute)
qed

lemma fields_no_space: "f \<in> set (fields s) \<Longrightarrow> f \<noteq> [] \<and> list_all (\<lambda>c. \<not> is_space c) f"
proof (induction s rule: fields.induct)
  case (1 s)
  show ?case
  proof (cases "dropWhile is_space s")
    case Nil
    then have "fields s = []" by (subst fields.simps) (simp only: list.case)
    then show ?thesis using "1.prems" by simp
  next
    case (Cons c r)
    then have n: "\<not> is_space c" by (simp add: dropWhile_eq_Cons_conv)
    have "f = takeWhile (\<lambda>x. \<not> is_space x) (c # r) \<or> f \<in> set (fields (dropWhile (\<lambda>x. \<not> is_space x) (c # r)))"
      using "1.prems" by (subst (asm) fields.simps) (simp only: Cons list.case set_simps insert_iff)
    then show ?thesis
    proof
      assume "f = takeWhile (\<lambda>x. \<not> is_space x) (c # r)"
      then show ?thesis using n by (auto simp: list_all_iff dest: set_takeWhileD)
    next
      assume "f \<in> set (fields (dropWhile (\<lambda>x. \<not> is_space x) (c # r)))"
      then show ?thesis using "1.IH" Cons by blast
    qed
  qed
qed

end
