(* ===== verification/RpcResources.thy ===== *)
theory RpcResources
  imports RpcTools GoText
begin

text \<open>
  The handler of \<open>resources/read\<close> (\<^verbatim>\<open>internal/rpc/resources.go\<close>) with the
  readers behind it: the resource templates of \<^verbatim>\<open>internal/resources/templates\<close>, the
  local resources of \<^verbatim>\<open>internal/resources/{os,system}\<close> and
  \<open>readCrontabResource\<close> of \<^verbatim>\<open>internal/rpc/cron.go\<close>. A reader yields the
  worker processes it started and its answer: content and MIME type, or the error.
\<close>

type_synonym read_answer = "process list \<times> (string \<times> string) result"

subsection \<open>Local resources\<close>

text \<open>What the master reads itself: the results of the system calls behind the local resources.\<close>

record local_env =
  uname :: "(8 word list \<times> 8 word list \<times> 8 word list \<times> 8 word list \<times> 8 word list) result"
  os_release_file :: "string result"
  os_hostname :: "string result"
  etc_timezone :: "string option"
  localtime_link :: "string option"
  zone_now :: "string \<times> string \<times> string"
  locale_file :: "string \<Rightarrow> string option"
  getenv :: "string \<Rightarrow> string"

text \<open>\<open>charsToString\<close>: the bytes before the first zero.\<close>

definition charsToString :: "8 word list \<Rightarrow> string" where
  "charsToString ca = map (\<lambda>w. char_of (unat w)) (takeWhile (\<lambda>w. w \<noteq> 0) ca)"

definition uname_text :: "local_env \<Rightarrow> (string \<times> string) result" where
  "uname_text l =
     (case uname l of
        Inl e \<Rightarrow> Inl (''syscall.Uname failed: '' @ e)
      | Inr (s, n, r, v, m) \<Rightarrow>
          Inr (''Sysname: '' @ charsToString s @ newline @ ''Nodename: '' @ charsToString n @ newline @
               ''Release: '' @ charsToString r @ newline @ ''Version: '' @ charsToString v @ newline @
               ''Machine: '' @ charsToString m, ''text/plain''))"

definition release_Read :: "local_env \<Rightarrow> (string \<times> string) result" where
  "release_Read l =
     (case os_release_file l of
        Inl e \<Rightarrow> Inl (''failed to read /etc/os-release: '' @ e)
      | Inr d \<Rightarrow> Inr (d, ''text/plain''))"

definition hostname_Read :: "local_env \<Rightarrow> (string \<times> string) result" where
  "hostname_Read l =
     (case os_hostname l of Inl e \<Rightarrow> Inl (''os.Hostname failed: '' @ e) | Inr h \<Rightarrow> Inr (h, ''text/plain''))"

definition timezone_name :: "local_env \<Rightarrow> string" where
  "timezone_name l =
     (let zone = (case etc_timezone l of
                    Some b \<Rightarrow> trim_space b
                  | None \<Rightarrow>
                      (case localtime_link l of
                         None \<Rightarrow> []
                       | Some target \<Rightarrow>
                           (case index_of target ''zoneinfo/'' of
                              Some i \<Rightarrow> drop (i + length ''zoneinfo/'') target
                            | None \<Rightarrow> [])))
      in if zone = [] then ''UTC'' else zone)"

definition timezone_Read :: "local_env \<Rightarrow> (string \<times> string) result" where
  "timezone_Read l =
     (let (abbrev, offset, now) = zone_now l in
      Inr (''Time zone: '' @ timezone_name l @ newline @ ''Abbreviation: '' @ abbrev @ newline @
           ''UTC offset: '' @ offset @ newline @ ''Current local time: '' @ now @ newline, ''text/plain''))"

definition locale_line :: "(string \<times> string) list \<Rightarrow> string \<Rightarrow> (string \<times> string) list" where
  "locale_line vars text =
     (let line = trim_space text in
      if line = [] \<or> has_prefix line ''#'' then vars
      else let (k, v, ok) = cut_at CHR ''='' (trim_prefix line ''export '') in
           if ok then map_put k (trim_chars v [CHR 0x22, CHR 0x27]) vars else vars)"

fun locale_vars :: "(string \<Rightarrow> string option) \<Rightarrow> string list \<Rightarrow> (string \<times> string) list \<times> string" where
  "locale_vars files [] = ([], [])"
| "locale_vars files (path # ps) =
     (case files path of
        None \<Rightarrow> locale_vars files ps
      | Some text \<Rightarrow> (foldl locale_line [] (scan_lines text), path))"

definition locale_Read :: "local_env \<Rightarrow> (string \<times> string) result" where
  "locale_Read l =
     (let (vars, source) = locale_vars (locale_file l) [''/etc/default/locale'', ''/etc/locale.conf''];
          envs = foldl (\<lambda>m k. if getenv l k \<noteq> [] then map_put k (getenv l k) m else m) [] [''LANG'', ''LC_ALL'', ''LC_CTYPE''];
          vars' = (if vars = [] then envs else vars);
          source' = (if vars = [] then ''this process's environment (no /etc/default/locale or /etc/locale.conf found)'' else source)
      in if vars' = []
         then Inl ''could not determine locale: no /etc/default/locale, /etc/locale.conf, or LANG/LC_* environment variables''
         else Inr (''Source: '' @ source' @ newline @
                   concat (map (\<lambda>(k, v). k @ ''='' @ v @ newline) (sort_key fst vars')), ''text/plain''))"

subsection \<open>Resource templates\<close>

text \<open>A worker started for a resource, 30 seconds for its work.\<close>

definition resource_worker :: "'w rpc_env \<Rightarrow> sudo_config \<Rightarrow> string \<Rightarrow> string \<Rightarrow> json \<Rightarrow> bool \<Rightarrow> string \<Rightarrow> read_answer" where
  "resource_worker e c user tool args priv mime =
     (let (ps, r) = SpawnWorker (wenv e) (re_run e) user tool (Some args) priv (Some c) 30
      in (ps, map_sum id (\<lambda>out. (out, mime)) r))"

text \<open>The worker and the path of a \<open>file://\<close> resource.\<close>

definition file_target :: "string \<Rightarrow> string \<times> string" where
  "file_target uri =
     (let path = trim_prefix uri ''file://'';
          (tool, p) = (if has_suffix path ''/stat'' then (''files/stat'', trim_suffix path ''/stat'')
                       else if has_suffix path ''/type'' then (''files/filetype'', trim_suffix path ''/type'')
                       else (''files/content'', trim_suffix path ''/content''))
      in (tool, if has_prefix p ''/'' then clean p else p))"

definition file_args :: "sudo_config \<Rightarrow> string \<Rightarrow> string \<Rightarrow> bool \<Rightarrow> json" where
  "file_args c user path priv =
     marshal_map ((''path'', JStr path) #
       (if priv \<and> \<not> ResourceGrantCoversRoot c user ''file://'' then [(''_no_follow'', JBool True)] else []))"

definition file_Handle :: "'w rpc_env \<Rightarrow> string \<Rightarrow> string \<Rightarrow> sudo_config \<Rightarrow> read_answer" where
  "file_Handle e uri user c =
     (let (tool, path) = file_target uri;
          priv = CanReadResourceAsRoot c user ''file://'' path
      in resource_worker e c user tool (file_args c user path priv) priv
           (if tool = ''files/stat'' \<or> has_suffix path ''.json'' then ''application/json'' else ''text/plain''))"

definition service_Handle :: "'w rpc_env \<Rightarrow> string \<Rightarrow> string \<Rightarrow> sudo_config \<Rightarrow> read_answer" where
  "service_Handle e uri user c =
     (let name = trim_suffix (trim_prefix uri ''service://'') ''/status''
      in resource_worker e c user ''services/status'' (marshal_map [(''service'', JStr name)])
           (CanReadResourceAsRoot c user ''service://'' name) ''application/json'')"

definition process_Handle :: "'w rpc_env \<Rightarrow> string \<Rightarrow> string \<Rightarrow> sudo_config \<Rightarrow> read_answer" where
  "process_Handle e uri user c =
     (let (pidStr, target, ok) = cut_at CHR ''/'' (trim_prefix uri ''process://'') in
      if \<not> ok then ([], Inl ''invalid process URI format, expected process://{pid}/{target}'')
      else case atoi pidStr of
        None \<Rightarrow> ([], Inl (''invalid PID: '' @ atoi_error pidStr))
      | Some pid \<Rightarrow>
          resource_worker e c user ''processes/read'' (marshal_map [(''pid'', JNum pid 0), (''target'', JStr target)])
            (CanReadResourceAsRoot c user ''process://'' pidStr) ''text/plain'')"

definition disks_Handle :: "'w rpc_env \<Rightarrow> string \<Rightarrow> string \<Rightarrow> sudo_config \<Rightarrow> read_answer" where
  "disks_Handle e uri user c =
     resource_worker e c user ''disks/performance''
       (marshal_map [(''device'', JStr (trim_suffix (trim_prefix uri ''disks://'') ''/stats'')), (''output_format'', JStr ''json'')])
       False ''application/json''"

definition containerViews :: "string list" where
  "containerViews = [''inspect'', ''status'', ''stats'', ''top'']"

definition schemes :: "(string \<times> string) list" where
  "schemes =
     [(''docker-container'', ''docker-container://''), (''docker-image'', ''docker-image://''),
      (''docker-volume'', ''docker-volume://''), (''docker-network'', ''docker-network://'')]"

text \<open>The name and the view of a docker resource.\<close>

definition docker_view :: "string \<Rightarrow> string \<Rightarrow> string \<Rightarrow> (string \<times> string) result" where
  "docker_view uri kind rest =
     (if kind = ''docker-container''
      then let (name, view) = (case cut_last CHR ''/'' rest of None \<Rightarrow> (rest, ''inspect'') | Some nv \<Rightarrow> nv) in
           if view \<in> set containerViews then Inr (name, view)
           else Inl (''unknown view '' @ quoted view @ '' for '' @ uri @ '': use docker-container://'' @ name @
                     ''/status, /inspect, /stats or /top'')
      else Inr (trim_suffix rest ''/inspect'', ''inspect''))"

definition docker_inspect_args :: "string \<Rightarrow> sudo_config \<Rightarrow> string \<Rightarrow> string \<Rightarrow> string \<Rightarrow> string \<Rightarrow> json" where
  "docker_inspect_args sock c user kind name view =
     marshal_map ([(''kind'', JStr (trim_prefix kind ''docker-'')), (''name'', JStr name), (''view'', JStr view)] @
       (if sock \<noteq> [] then [(''_docker_socket'', JStr sock)] else []) @
       (if kind = ''docker-container''
        then [(''_containers'', json_strings (GetAllowedContainers c user ''docker/inspect''))] else []))"

definition docker_Handle :: "'w rpc_env \<Rightarrow> string \<Rightarrow> string \<Rightarrow> sudo_config \<Rightarrow> read_answer" where
  "docker_Handle e uri user c =
     (let (kind, rest, ok) = cut_str uri ''://'' in
      case (if ok then map_of schemes kind else None) of
        None \<Rightarrow> ([], Inl (''unknown resource: '' @ uri))
      | Some scheme \<Rightarrow>
     (case docker_view uri kind rest of
        Inl m \<Rightarrow> ([], Inl m)
      | Inr (name, view) \<Rightarrow>
          if name = [] then ([], Inl (''no name in '' @ uri))
          else if \<not> CanReadResourceAsRoot c user scheme name
          then ([], Inl (''reading '' @ uri @ '' needs a '' @ quoted scheme @ '' grant in this user's resources: in mcp-sudo.yaml (the Docker socket is root-owned, so these reads have no unprivileged mode)''))
          else if \<not> CanRunAsRoot c user ''docker/inspect''
          then ([], Inl (''reading '' @ uri @ '' also needs `docker/inspect: {allowed: true, containers: [...]}` in this user's tools: in mcp-sudo.yaml - that is the internal worker these templates spawn, and its containers: list is what scopes docker-container:// reads''))
          else resource_worker e c user ''docker/inspect'' (docker_inspect_args (SocketPath e) c user kind name view) True
                 ''application/json''))"

text \<open>\<open>readCrontabResource\<close>: the plan of the tool decides.\<close>

definition readCrontabResource :: "'w rpc_env \<Rightarrow> settings \<Rightarrow> string \<Rightarrow> string \<Rightarrow> read_answer" where
  "readCrontabResource e s user uri =
     (let (target, view0, _) = cut_at CHR ''/'' (trim_prefix uri ''crontab://'');
          view = (if view0 = [] then ''text'' else view0)
      in if target = [] \<or> (view \<noteq> ''text'' \<and> view \<noteq> ''info'')
         then ([], Inl (''unknown resource '' @ uri @ '' (use crontab://<user>/text or crontab://<user>/info)''))
         else let raw = marshal_map ([(''user'', JStr target), (''privileged'', JBool (target \<noteq> user))] @
                          (if view = ''info'' then [(''output_format'', JStr ''json'')] else [])) in
         case prepareCronCall (s_sudo s) user (Some raw) (view = ''info'') of
           Inl m \<Rightarrow> ([], Inl m)
         | Inr plan \<Rightarrow>
             (let (ps, r) = SpawnWorker (wenv e) (re_run e) user CronTool (Some (cp_Args plan)) (cp_Privileged plan)
                              (Some (s_sudo s)) (timeoutFor s CronTool)
              in (ps, map_sum id (\<lambda>out. (out, if view = ''info'' then ''application/json'' else ''text/plain'')) r)))"


subsection \<open>resources/read\<close>

definition uri_param :: "json option \<Rightarrow> string result" where
  "uri_param raw =
     (case raw of
        None \<Rightarrow> Inl ''unexpected end of JSON input''
      | Some v \<Rightarrow>
          if is_structdoc v \<and> list_all is_str (field_vals [''uri''] ''uri'' v)
          then Inr (dec_string [] (field_vals [''uri''] ''uri'' v))
          else Inl ''json: cannot unmarshal'')"

definition strictly_privileged :: "string \<Rightarrow> bool" where
  "strictly_privileged uri \<longleftrightarrow> has_prefix uri ''devices://'' \<or> has_prefix uri ''kernel://''"

definition strict_message :: "string \<Rightarrow> string" where
  "strict_message uri = ''resource '' @ uri @ '' is strictly accessible only in privileged mode''"

text \<open>The resources that need the grant again at the read: \<open>read_usb\<close> and the like.\<close>

definition strict_read :: "'w rpc_env \<Rightarrow> sudo_config \<Rightarrow> string \<Rightarrow> string \<Rightarrow> string \<Rightarrow> read_answer" where
  "strict_read e c user uri tool =
     (if CanReadResourceAsRoot c user uri ''*''
      then resource_worker e c user tool (JObj []) True ''application/json''
      else ([], Inl (strict_message uri)))"

definition docker_uri :: "string \<Rightarrow> bool" where
  "docker_uri uri \<longleftrightarrow>
     list_ex (has_prefix uri) [''docker-container://'', ''docker-image://'', ''docker-volume://'', ''docker-network://'']"

definition read_resource :: "'w rpc_env \<Rightarrow> local_env \<Rightarrow> settings \<Rightarrow> string \<Rightarrow> string \<Rightarrow> read_answer" where
  "read_resource e l s user uri =
     (let c = s_sudo s in
      if uri = ''os://uname'' then ([], uname_text l)
      else if uri = ''os://release'' then ([], release_Read l)
      else if uri = ''system://hostname'' then ([], hostname_Read l)
      else if uri = ''system://timezone'' then ([], timezone_Read l)
      else if uri = ''system://locale'' then ([], locale_Read l)
      else if has_prefix uri ''network://interfaces'' then
        resource_worker e c user ''read_interfaces''
          (marshal_map [(''name'', JStr (trim_prefix (trim_prefix uri ''network://interfaces'') ''/''))]) False ''application/json''
      else if has_prefix uri ''file://'' then file_Handle e uri user c
      else if has_prefix uri ''service://'' \<and> has_suffix uri ''/status'' then service_Handle e uri user c
      else if has_prefix uri ''crontab://'' then readCrontabResource e s user uri
      else if docker_uri uri then docker_Handle e uri user c
      else if has_prefix uri ''process://'' then process_Handle e uri user c
      else if uri = ''devices://usb'' then strict_read e c user uri ''read_usb''
      else if uri = ''devices://pci'' then strict_read e c user uri ''read_pci''
      else if uri = ''devices://dmi'' then strict_read e c user uri ''read_dmi''
      else if uri = ''kernel://modules'' then strict_read e c user uri ''read_modules''
      else if uri = ''network://routes'' then
        resource_worker e c user ''read_routes'' (JObj []) (CanReadResourceAsRoot c user uri ''*'') ''application/json''
      else if has_prefix uri ''disks://'' \<and> has_suffix uri ''/stats'' then disks_Handle e uri user c
      else ([], Inl (''unknown resource: '' @ uri)))"

definition resource_ttl :: "string \<Rightarrow> int option" where
  "resource_ttl uri =
     (if uri \<in> {''devices://dmi'', ''devices://pci'', ''devices://usb'', ''kernel://modules'', ''os://release'',
                ''os://uname'', ''system://hostname''} then Some (60 * second)
      else if uri \<in> {''network://interfaces'', ''network://routes''} then Some (5 * second)
      else None)"

definition contents_json :: "string \<Rightarrow> string \<Rightarrow> string \<Rightarrow> json" where
  "contents_json uri content mime =
     JObj [(''contents'', JArr [marshal_map [(''uri'', JStr uri), (''mimeType'', JStr mime), (''text'', JStr content)]])]"

text \<open>
  One read: what the handler itself put on the session's channel before it returned, the response it left
  for \<open>ProcessJSONRPC\<close> to send, the state afterwards and the processes it started.
\<close>

record 'w read_out =
  ro_sent :: "rpc_response list"
  ro_response :: rpc_response
  ro_state :: "'w rpc_state"
  ro_spawned :: "process list"

definition HandleResourcesRead :: "'w rpc_env \<Rightarrow> local_env \<Rightarrow> session \<Rightarrow> json option \<Rightarrow> 'w rpc_state \<Rightarrow> 'w read_out" where
  "HandleResourcesRead e l sess params st =
     (case uri_param params of
        Inl _ \<Rightarrow> \<lparr>ro_sent = [], ro_response = no_response\<lparr>Error := Some (-32602, ''Invalid params'')\<rparr>,
                  ro_state = st, ro_spawned = []\<rparr>
      | Inr uri \<Rightarrow>
          if strictly_privileged uri \<and> \<not> CanReadResourceAsRoot (s_sudo (settings st)) (sess_User sess) uri ''*'' then
            (let resp = no_response\<lparr>Error := Some (-32603, strict_message uri)\<rparr>
             in \<lparr>ro_sent = [resp], ro_response = resp, ro_state = st, ro_spawned = []\<rparr>)
          else
            (let (hit, cache) = cache_Get (re_now e) uri (ResourceCache st); st1 = st\<lparr>ResourceCache := cache\<rparr> in
             case hit of
               Some (content, mime) \<Rightarrow>
                 (let resp = no_response\<lparr>Result := Some (contents_json uri content mime)\<rparr>
                  in \<lparr>ro_sent = [resp], ro_response = resp, ro_state = st1, ro_spawned = []\<rparr>)
             | None \<Rightarrow>
                 (let (ps, r) = read_resource e l (settings st) (sess_User sess) uri in
                  case r of
                    Inl m \<Rightarrow> \<lparr>ro_sent = [], ro_response = no_response\<lparr>Error := Some (-32603, m)\<rparr>,
                              ro_state = st1, ro_spawned = ps\<rparr>
                  | Inr (content, mime) \<Rightarrow>
                      \<lparr>ro_sent = [],
                       ro_response = no_response\<lparr>Result := Some (contents_json uri content mime)\<rparr>,
                       ro_state = (case resource_ttl uri of
                                     None \<Rightarrow> st1
                                   | Some ttl \<Rightarrow>
                                       st1\<lparr>ResourceCache := cache_Set (re_later e) uri content mime ttl (ResourceCache st1)\<rparr>),
                       ro_spawned = ps\<rparr>)))"


subsection \<open>Root reads\<close>

lemma spawned_root:
  assumes "spawn_process env (Some c) user tool raw priv t = Inr p" and "uids32 env" and "run_uid env p = 0"
  shows "priv \<and> \<not> NoRoot env \<and> (has_prefix tool ''read_'' \<or> CanRunAsRoot c user tool) \<and> proc_tool p = tool \<and> proc_stdin p = raw"
proof -
  obtain u uid gid groups where i: "target_identity env (Some c) user tool priv u = Inr (uid, gid, groups)"
      "acct env user = Inr u" "proc_tool p = tool" "run_uid env p = uid"
    using spawn_process_uid [OF assms(1)] by blast
  have s: "proc_stdin p = raw" using spawn_processD [OF assms(1)] by metis
  have priv
  proof (rule ccontr)
    assume "\<not> priv"
    then have "uid = word_of_int (atoi_value (Uid u))" "atoi_value (Uid u) \<noteq> 0"
      using target_identity_user i(1) by auto
    then show False using assms(2,3) i(2,4) word32_of_int_0_iff [of "atoi_value (Uid u)"]
      by (auto simp: uids32_def)
  qed
  then have "target_identity env (Some c) user tool True u = Inr (uid, gid, groups)" using i(1) by simp
  from target_identity_root [OF this] show ?thesis using i(3) s \<open>priv\<close> by auto
qed

lemma resource_worker_root:
  assumes "p \<in> set (fst (resource_worker e c user tool args priv mime))" and "uids32 (wenv e)" and "run_uid (wenv e) p = 0"
  shows "priv \<and> \<not> NoRoot (wenv e) \<and> (has_prefix tool ''read_'' \<or> CanRunAsRoot c user tool) \<and> proc_tool p = tool \<and>
    proc_stdin p = Some args"
proof -
  have "spawn_process (wenv e) (Some c) user tool (Some args) priv 30 = Inr p"
    using assms(1) by (simp add: resource_worker_def SpawnWorker_started split_beta)
  from spawned_root [OF this assms(2,3)] show ?thesis .
qed

lemma crontab_args_sorted:
  "sort_key fst [(''user'', u :: json), (''privileged'', b)] = [(''privileged'', b), (''user'', u)]"
  "sort_key fst [(''user'', u :: json), (''privileged'', b), (''output_format'', f)] =
   [(''output_format'', f), (''privileged'', b), (''user'', u)]"
  by code_simp+

lemma crontab_members:
  "\<exists>m. cron_members (Some (marshal_map ([(''user'', JStr t), (''privileged'', JBool b)] @
      (if i then [(''output_format'', JStr ''json'')] else [])))) = Inr m \<and> map_of m ''user'' = Some (JStr t) \<and>
    map_of m ''content'' = None"
  by (cases i) (simp_all add: cron_members_def marshal_map_def crontab_args_sorted unmarshal_map_def fill_map_def
      map_put_def map_del_def cronReserved_def)

text \<open>The account a \<open>crontab://\<close> resource names.\<close>

definition crontab_target :: "string \<Rightarrow> string" where
  "crontab_target uri = fst (cut_at CHR ''/'' (trim_prefix uri ''crontab://''))"

lemma readCrontabResource_root:
  assumes "p \<in> set (fst (readCrontabResource e s user uri))" and "uids32 (wenv e)" and "run_uid (wenv e) p = 0"
  shows "\<not> NoRoot (wenv e) \<and> proc_tool p = CronTool \<and> CanRunAsRoot (s_sudo s) user CronTool \<and>
    View (CronRuleFor (s_sudo s) user (crontab_target uri))"
proof -
  obtain target view0 f where cut: "cut_at CHR ''/'' (trim_prefix uri ''crontab://'') = (target, view0, f)"
    using prod_cases3 by blast
  define info where "info = (view0 = ''info'')"
  define raw where "raw = marshal_map ([(''user'', JStr target), (''privileged'', JBool (target \<noteq> user))] @
    (if info then [(''output_format'', JStr ''json'')] else []))"
  obtain m where m: "cron_members (Some raw) = Inr m" "map_of m ''user'' = Some (JStr target)" "map_of m ''content'' = None"
    using crontab_members unfolding raw_def by metis
  have vi: "((if view0 = [] then ''text'' else view0) = ''info'') = info" by (simp add: info_def)
  have t: "target \<noteq> []" and ok: "\<exists>plan. prepareCronCall (s_sudo s) user (Some raw) info = Inr plan \<and>
      p \<in> set (fst (SpawnWorker (wenv e) (re_run e) user CronTool (Some (cp_Args plan)) (cp_Privileged plan)
        (Some (s_sudo s)) (timeoutFor s CronTool)))"
    using assms(1) unfolding readCrontabResource_def cut Let_def prod.case vi raw_def [symmetric]
    by (auto split: if_splits sum.splits prod.splits)
  then obtain plan where plan: "prepareCronCall (s_sudo s) user (Some raw) info = Inr plan"
    and sp: "spawn_process (wenv e) (Some (s_sudo s)) user CronTool (Some (cp_Args plan)) (cp_Privileged plan)
        (timeoutFor s CronTool) = Inr p"
    using SpawnWorker_started by blast
  note root = spawned_root [OF sp assms(2,3)]
  have "target \<noteq> user"
    using plan m t root by (auto simp: prepareCronCall_def json_text_def is_str_def cron_self_plan_def split: if_splits)
  then have "cron_other_plan (s_sudo s) user target (map_of m ''privileged'' = Some (JBool True)) False info m = Inr plan"
    using plan m t by (simp add: prepareCronCall_def json_text_def is_str_def Let_def split: if_splits)
  from cron_other_plan_ok [OF this] show ?thesis using root cut by (simp add: crontab_target_def)
qed


text \<open>The grant a root worker of a resource stands on.\<close>

definition resource_grant :: "sudo_config \<Rightarrow> string \<Rightarrow> string \<Rightarrow> process \<Rightarrow> bool" where
  "resource_grant c user uri p \<longleftrightarrow>
     (if has_prefix (proc_tool p) ''read_'' then CanReadResourceAsRoot c user uri ''*''
      else CanRunAsRoot c user (proc_tool p) \<and>
        (if proc_tool p = CronTool then View (CronRuleFor c user (crontab_target uri))
         else \<exists>scheme name. has_prefix uri scheme \<and> has_suffix scheme ''://'' \<and> CanReadResourceAsRoot c user scheme name))"

definition root_reads_ok :: "'w rpc_env \<Rightarrow> sudo_config \<Rightarrow> string \<Rightarrow> string \<Rightarrow> read_answer \<Rightarrow> bool" where
  "root_reads_ok e c user uri a \<longleftrightarrow>
     (\<forall>p \<in> set (fst a). run_uid (wenv e) p = 0 \<longrightarrow> \<not> NoRoot (wenv e) \<and> resource_grant c user uri p)"

lemma root_reads_ok_nil [simp]: "root_reads_ok e c user uri ([], r)"
  by (simp add: root_reads_ok_def)

lemma root_reads_ok_unprivileged:
  "uids32 (wenv e) \<Longrightarrow> root_reads_ok e c user uri (resource_worker e c user tool args False mime)"
  using resource_worker_root unfolding root_reads_ok_def by blast

lemma root_reads_ok_read:
  assumes "uids32 (wenv e)" and "has_prefix tool ''read_''" and "priv \<Longrightarrow> CanReadResourceAsRoot c user uri ''*''"
  shows "root_reads_ok e c user uri (resource_worker e c user tool args priv mime)"
  unfolding root_reads_ok_def
proof (intro ballI impI)
  fix p assume "p \<in> set (fst (resource_worker e c user tool args priv mime))" "run_uid (wenv e) p = 0"
  from resource_worker_root [OF this(1) assms(1) this(2)] show "\<not> NoRoot (wenv e) \<and> resource_grant c user uri p"
    using assms(2,3) by (simp add: resource_grant_def)
qed

lemma root_reads_ok_scheme:
  assumes "uids32 (wenv e)" and "\<not> has_prefix tool ''read_''" and "tool \<noteq> CronTool"
    and "has_prefix uri scheme" and "has_suffix scheme ''://''" and "priv \<Longrightarrow> CanReadResourceAsRoot c user scheme name"
  shows "root_reads_ok e c user uri (resource_worker e c user tool args priv mime)"
  unfolding root_reads_ok_def
proof (intro ballI impI)
  fix p assume "p \<in> set (fst (resource_worker e c user tool args priv mime))" "run_uid (wenv e) p = 0"
  from resource_worker_root [OF this(1) assms(1) this(2)] show "\<not> NoRoot (wenv e) \<and> resource_grant c user uri p"
    using assms(2-6) by (auto simp: resource_grant_def)
qed

lemma scheme_suffixes:
  "has_suffix ''file://'' ''://''" "has_suffix ''service://'' ''://''" "has_suffix ''process://'' ''://''"
  by (simp_all add: has_suffix_def has_prefix_def)

lemma file_tools:
  "fst (file_target uri) \<in> {''files/stat'', ''files/filetype'', ''files/content''}"
  "\<not> has_prefix (fst (file_target uri)) ''read_''" "fst (file_target uri) \<noteq> CronTool"
  by (auto simp: file_target_def Let_def has_prefix_def CronTool_def split: if_splits)

lemma root_reads_ok_file:
  "uids32 (wenv e) \<Longrightarrow> has_prefix uri ''file://'' \<Longrightarrow> root_reads_ok e c user uri (file_Handle e uri user c)"
  unfolding file_Handle_def split_beta Let_def
  by (rule root_reads_ok_scheme [OF _ file_tools(2,3) _ scheme_suffixes(1)])

lemma root_reads_ok_service:
  "uids32 (wenv e) \<Longrightarrow> has_prefix uri ''service://'' \<Longrightarrow> root_reads_ok e c user uri (service_Handle e uri user c)"
  unfolding service_Handle_def Let_def
  by (rule root_reads_ok_scheme [OF _ _ _ _ scheme_suffixes(2)]) (simp_all add: has_prefix_def CronTool_def)

lemma root_reads_ok_process:
  "uids32 (wenv e) \<Longrightarrow> has_prefix uri ''process://'' \<Longrightarrow> root_reads_ok e c user uri (process_Handle e uri user c)"
  using root_reads_ok_scheme [OF _ _ _ _ scheme_suffixes(3), of e "''processes/read''"]
  by (simp add: process_Handle_def Let_def has_prefix_def CronTool_def split: prod.split option.split)

lemma root_reads_ok_docker:
  assumes "uids32 (wenv e)"
  shows "root_reads_ok e c user uri (docker_Handle e uri user c)"
proof -
  obtain kind rest ok where cut: "cut_str uri ''://'' = (kind, rest, ok)" using prod_cases3 by blast
  have w: "root_reads_ok e c user uri (resource_worker e c user ''docker/inspect'' args True mime)"
    if "ok" "map_of schemes kind = Some scheme" "CanReadResourceAsRoot c user scheme name" for scheme name args mime
  proof (rule root_reads_ok_scheme [OF assms])
    have "uri = kind @ ''://'' @ rest" using cut that(1) by (intro cut_str_join) simp
    moreover have "scheme = kind @ ''://''" using that(2) by (auto simp: schemes_def split: if_splits)
    ultimately show "has_prefix uri scheme" "has_suffix scheme ''://''" by (simp_all add: has_prefix_def has_suffix_def)
  qed (use that(3) in \<open>simp_all add: has_prefix_def CronTool_def\<close>)
  show ?thesis unfolding docker_Handle_def cut Let_def prod.case
    by (auto split: option.split sum.split intro: w)
qed

lemma root_reads_ok_crontab:
  "uids32 (wenv e) \<Longrightarrow> root_reads_ok e (s_sudo s) user uri (readCrontabResource e s user uri)"
  using readCrontabResource_root unfolding root_reads_ok_def resource_grant_def
  by (metis (no_types, opaque_lifting) CronTool_def no_read_tools)

lemma root_reads_ok_strict:
  "uids32 (wenv e) \<Longrightarrow> has_prefix tool ''read_'' \<Longrightarrow> root_reads_ok e c user uri (strict_read e c user uri tool)"
  by (simp add: strict_read_def root_reads_ok_read)

lemma read_tools:
  "has_prefix ''read_usb'' ''read_''" "has_prefix ''read_pci'' ''read_''" "has_prefix ''read_dmi'' ''read_''"
  "has_prefix ''read_modules'' ''read_''" "has_prefix ''read_routes'' ''read_''"
  by (simp_all add: has_prefix_def)

lemma read_resource_root:
  assumes "uids32 (wenv e)"
  shows "root_reads_ok e (s_sudo s) user uri (read_resource e l s user uri)"
  unfolding read_resource_def disks_Handle_def Let_def using assms
  by (simp add: root_reads_ok_unprivileged root_reads_ok_read root_reads_ok_file root_reads_ok_service
      root_reads_ok_process root_reads_ok_docker root_reads_ok_crontab root_reads_ok_strict read_tools)

lemma HandleResourcesRead_spawned:
  assumes "p \<in> set (ro_spawned (HandleResourcesRead e l sess params st))"
  obtains uri where "uri_param params = Inr uri" "p \<in> set (fst (read_resource e l (settings st) (sess_User sess) uri))"
  using assms unfolding HandleResourcesRead_def Let_def
  by (auto split: sum.splits if_splits option.splits prod.splits)

lemma HandleResourcesRead_root:
  assumes "p \<in> set (ro_spawned (HandleResourcesRead e l sess params st))"
    and "uids32 (wenv e)" and "run_uid (wenv e) p = 0"
  shows "\<exists>uri. uri_param params = Inr uri \<and> \<not> NoRoot (wenv e) \<and>
    resource_grant (s_sudo (settings st)) (sess_User sess) uri p"
proof -
  obtain uri where u: "uri_param params = Inr uri"
    and p: "p \<in> set (fst (read_resource e l (settings st) (sess_User sess) uri))"
    by (rule HandleResourcesRead_spawned [OF assms(1)])
  from read_resource_root [OF assms(2)] p assms(3) u show ?thesis unfolding root_reads_ok_def by blast
qed



definition ex_res_sudo :: sudo_config where
  "ex_res_sudo =
     \<lparr>Users =
       [(''alice'',
         \<lparr>Privileged =
           \<lparr>Tools =
             [(''files/content'', \<lparr>tp_Allowed = True, Paths = [''/srv''], Containers = [], Prune = [],
                tp_Users = [], Network = None, Sysctl = None\<rparr>)],
            Resources = [(''file://'', [''/srv'']), (''devices://usb'', [''*''])]\<rparr>\<rparr>)]\<rparr>"

definition ex_local :: local_env where
  "ex_local = \<lparr>uname = Inl ''ENOSYS'', os_release_file = Inr [], os_hostname = Inr ''host'', etc_timezone = None,
     localtime_link = None, zone_now = (''UTC'', ''+0.0'', []), locale_file = (\<lambda>_. None), getenv = (\<lambda>_. [])\<rparr>"

definition ex_read :: "string \<Rightarrow> json option" where
  "ex_read uri = Some (JObj [(''uri'', JStr uri)])"

lemma uri_param_ex [simp]: "uri_param (ex_read uri) = Inr uri"
  by (simp add: uri_param_def ex_read_def is_structdoc_def field_vals_def members_def json_field_def is_str_def dec_string_def)

lemma ex_file_spawned:
  "ro_spawned (HandleResourcesRead ex_rpc_env ex_local ex_session (ex_read ''file:///srv/./a'') (ex_state ex_res_sudo)) =
   [root_process ''files/content'' (Some (file_args ex_res_sudo ''alice'' ''/srv/a'' True))]"
proof -
  let ?uri = "''file:///srv/./a''"
  have f: "file_target ?uri = (''files/content'', ''/srv/a'')" "CanReadResourceAsRoot ex_res_sudo ''alice'' ''file://'' ''/srv/a''"
    "CanRunAsRoot ex_res_sudo ''alice'' ''files/content''" "atoi_value ''1000'' = 1000" by code_simp+
  have "read_resource ex_rpc_env ex_local (settings (ex_state ex_res_sudo)) ''alice'' ?uri = file_Handle ex_rpc_env ?uri ''alice'' ex_res_sudo"
    by (simp add: read_resource_def has_prefix_def ex_rpc_defs)
  moreover have "fst (file_Handle ex_rpc_env ?uri ''alice'' ex_res_sudo) =
      [root_process ''files/content'' (Some (file_args ex_res_sudo ''alice'' ''/srv/a'' True))]"
    using f by (simp add: file_Handle_def resource_worker_def SpawnWorker_def spawn_process_def target_identity_def ex_rpc_env_def
        ex_env_def ex_accounts_def root_process_def has_prefix_def)
  moreover have "ResourceCache (ex_state ex_res_sudo) = []" "sess_User ex_session = ''alice''"
    "settings (ex_state ex_res_sudo) = settings (ex_state ex_res_sudo)" by (simp_all add: ex_rpc_defs)
  ultimately show ?thesis
    by (cases "file_Handle ex_rpc_env ?uri ''alice'' ex_res_sudo")
      (simp add: HandleResourcesRead_def strictly_privileged_def has_prefix_def cache_Get_def cache_lookup_def Let_def
        split: prod.split sum.split)
qed


lemma file_args_members:
  "map_of (members (file_args c user path priv)) ''path'' = Some (JStr path)"
  "map_of (members (file_args c user path priv)) ''_no_follow'' =
   (if priv \<and> \<not> ResourceGrantCoversRoot c user ''file://'' then Some (JBool True) else None)"
  by (simp_all add: file_args_def marshal_map_def members_def map_of_sort_key)

lemma clean_file_target: "is_rooted (snd (file_target uri)) \<Longrightarrow> clean (snd (file_target uri)) = snd (file_target uri)"
  by (simp add: file_target_def Let_def is_rooted_def [symmetric] clean_clean split: if_splits)

lemma read_resource_file:
  assumes "has_prefix uri ''file://''"
  shows "read_resource e l s user uri = file_Handle e uri user (s_sudo s)"
proof -
  obtain r where "uri = ''file://'' @ r" using assms by (metis append_take_drop_id has_prefix_def)
  then show ?thesis by (simp add: read_resource_def has_prefix_def Let_def)
qed

text \<open>
  C35. Where a \<open>file://\<close> resource is read as root: the worker is given exactly the path that was
  checked, already cleaned; it equals an entry of the grant, or the grant has an entry it lies within,
  component by component; and unless an entry covers the whole file system the worker is told not to
  follow symbolic links.
\<close>

theorem file_resource_confined:
  assumes "p \<in> set (ro_spawned (HandleResourcesRead e l sess params st))"
    and "uids32 (wenv e)" and "run_uid (wenv e) p = 0"
    and "uri_param params = Inr uri" and "has_prefix uri ''file://''" and "is_rooted (snd (file_target uri))"
  shows "\<exists>doc path. proc_stdin p = Some doc \<and> map_of (members doc) ''path'' = Some (JStr path) \<and> clean path = path \<and>
    (\<exists>g. g \<in> set (resource_list (s_sudo (settings st)) (sess_User sess) ''file://'') \<and>
       (g = path \<or> g = [] \<or> (is_rooted g \<and> prefix (path_comps g) (path_comps path)))) \<and>
    (ResourceGrantCoversRoot (s_sudo (settings st)) (sess_User sess) ''file://'' \<or>
     map_of (members doc) ''_no_follow'' = Some (JBool True))"
proof -
  let ?path = "snd (file_target uri)" and ?c = "s_sudo (settings st)" and ?u = "sess_User sess"
  let ?priv = "CanReadResourceAsRoot ?c ?u ''file://'' ?path"
  have "p \<in> set (fst (file_Handle e uri ?u ?c))"
    using HandleResourcesRead_spawned [OF assms(1)] assms(4) read_resource_file [OF assms(5)] by (metis sum.inject(2))
  then have w: "?priv" "proc_stdin p = Some (file_args ?c ?u ?path ?priv)"
    using resource_worker_root [OF _ assms(2,3)] unfolding file_Handle_def split_beta Let_def by blast+
  show ?thesis
    using w CanReadResourceAsRoot_path [OF assms(6)] file_args_members clean_file_target [OF assms(6)]
    by (intro exI [of _ "file_args ?c ?u ?path ?priv"] exI [of _ ?path]) auto
qed

theorem file_resource_confined_witness:
  "\<exists>p doc. ro_spawned (HandleResourcesRead ex_rpc_env ex_local ex_session (ex_read ''file:///srv/./a'') (ex_state ex_res_sudo)) = [p] \<and>
     proc_stdin p = Some doc \<and> map_of (members doc) ''path'' = Some (JStr ''/srv/a'') \<and>
     map_of (members doc) ''_no_follow'' = Some (JBool True)"
proof -
  let ?p = "root_process ''files/content'' (Some (file_args ex_res_sudo ''alice'' ''/srv/a'' True))"
  let ?out = "HandleResourcesRead ex_rpc_env ex_local ex_session (ex_read ''file:///srv/./a'') (ex_state ex_res_sudo)"
  have m: "?p \<in> set (ro_spawned ?out)" using ex_file_spawned by simp
  have r: "run_uid (wenv ex_rpc_env) ?p = 0" "uids32 (wenv ex_rpc_env)" using ex_env_uids32
    by (simp_all add: run_uid_def root_process_def ex_rpc_env_def)
  have f: "has_prefix ''file:///srv/./a'' ''file://''" "is_rooted (snd (file_target ''file:///srv/./a''))"
    "\<not> ResourceGrantCoversRoot ex_res_sudo ''alice'' ''file://''" by code_simp+
  have e: "s_sudo (settings (ex_state ex_res_sudo)) = ex_res_sudo" "sess_User ex_session = ''alice''"
    by (simp_all add: ex_rpc_defs)
  obtain doc path where d: "proc_stdin ?p = Some doc" "map_of (members doc) ''path'' = Some (JStr path)"
      "map_of (members doc) ''_no_follow'' = Some (JBool True)"
    using file_resource_confined [OF m r(2,1) uri_param_ex f(1,2)] f(3) e by auto
  moreover have "path = ''/srv/a''" using d(1,2) file_args_members(1) by (auto simp: root_process_def)
  ultimately show ?thesis using ex_file_spawned by auto
qed

end
