(* ===== verification/Rpc.thy ===== *)
theory Rpc
  imports RpcResources
begin

text \<open>
  The dispatcher of JSON-RPC messages (\<^verbatim>\<open>internal/rpc/rpc.go\<close>), the session's channel
  (\<^verbatim>\<open>internal/rpc/types.go\<close>) and the annotations of \<open>tools/list\<close>
  (\<^verbatim>\<open>internal/rpc/annotations.go\<close>). The static documents that describe the tools and the
  resources are parameters.
\<close>

subsection \<open>Messages\<close>

record JSONRPCRequest =
  ID :: json
  Method :: string
  Params :: "json option"

definition request_fields :: "string list" where
  "request_fields = [''jsonrpc'', ''id'', ''method'', ''params'']"

text \<open>
  \<open>json.Unmarshal\<close> into a \<open>JSONRPCRequest\<close>. The id is decoded into an
  \<open>interface{}\<close>: the last one given counts, and \<open>null\<close> is nil.
\<close>

definition parse_request :: "json \<Rightarrow> JSONRPCRequest result" where
  "parse_request v =
     (let f = (\<lambda>k. field_vals request_fields k v) in
      if is_structdoc v \<and> list_all is_str (f ''jsonrpc'') \<and> list_all nums_ok (f ''id'') \<and> list_all is_str (f ''method'')
      then Inr \<lparr>ID = (if f ''id'' = [] then JNull else through_iface (last (f ''id''))),
                Method = dec_string [] (f ''method''),
                Params = (if f ''params'' = [] then None else Some (last (f ''params'')))\<rparr>
      else Inl ''json: cannot unmarshal into Go value of type rpc.JSONRPCRequest'')"

text \<open>The text of a response, as a document; empty results and errors are left out.\<close>

definition error_json :: "int \<times> string \<Rightarrow> json" where
  "error_json e = marshal_map [(''code'', JNum (fst e) 0), (''message'', JStr (snd e))]"

definition response_json :: "json \<Rightarrow> rpc_response \<Rightarrow> json" where
  "response_json i r =
     JObj ([(''jsonrpc'', JStr ''2.0''), (''id'', i)] @
       (case Result r of None \<Rightarrow> [] | Some v \<Rightarrow> [(''result'', v)]) @
       (case Error r of None \<Rightarrow> [] | Some e \<Rightarrow> [(''error'', error_json e)]))"

subsection \<open>Annotations\<close>

record toolAnnotation =
  Title :: string
  ReadOnly :: bool
  Destructive :: bool
  Idempotent :: bool
  Open :: bool

definition annotation :: "string \<Rightarrow> bool \<Rightarrow> bool \<Rightarrow> bool \<Rightarrow> bool \<Rightarrow> toolAnnotation" where
  "annotation t r d i w = \<lparr>Title = t, ReadOnly = r, Destructive = d, Idempotent = i, Open = w\<rparr>"

definition toolAnnotations :: "(string \<times> toolAnnotation) list" where
  "toolAnnotations =
     [(''files/list'', annotation ''List directory'' True False True False),
      (''files/read'', annotation ''Read file contents'' True False True False),
      (''files/create'', annotation ''Create or overwrite file'' False True True False),
      (''files/update'', annotation ''Edit file (append or replace lines)'' False True False False),
      (''files/find'', annotation ''Find files'' True False True False),
      (''files/filetype'', annotation ''Detect file MIME type'' True False True False),
      (''files/chmod'', annotation ''Change file permissions'' False True True False),
      (''files/chown'', annotation ''Change file owner/group'' False True True False),
      (''disks/free'', annotation ''Filesystem free space'' True False True False),
      (''disks/usage'', annotation ''Directory disk usage'' True False True False),
      (''processes/top'', annotation ''Process snapshot (top)'' True False True False),
      (''processes/list'', annotation ''List processes'' True False True False),
      (''processes/delete'', annotation ''Signal a process'' False True False False),
      (''network/nslookup'', annotation ''DNS lookup'' True False True True),
      (''network/curl'', annotation ''HTTP request'' False True False True),
      (''network/arp'', annotation ''ARP cache'' True False True False),
      (''network/ping'', annotation ''TCP connect ping'' True False True True),
      (''network/connections'', annotation ''List sockets'' True False True False),
      (''memory/usage'', annotation ''Memory and swap usage'' True False True False),
      (''services/manage'', annotation ''Control systemd service'' False True False False),
      (''services/list'', annotation ''List systemd services'' True False True False),
      (''timers/list'', annotation ''List systemd timers'' True False True False),
      (''cron/manage'', annotation ''Read or replace a crontab'' False True True False),
      (''logs/journal-control'', annotation ''Query systemd journal'' True False True False),
      (''logs/dmesg'', annotation ''Kernel ring buffer'' True False True False),
      (''logs/logins'', annotation ''Login history'' True False True False),
      (''kernel/system-control'', annotation ''Read/write sysctl'' False True True False),
      (''cpu/list'', annotation ''CPU info'' True False True False),
      (''cpu/load-average'', annotation ''Load average'' True False True False),
      (''disks/list'', annotation ''List block devices'' True False True False),
      (''disks/mounts'', annotation ''List mounts'' True False True False),
      (''disks/performance'', annotation ''Disk I/O counters'' True False True False),
      (''disks/health'', annotation ''SMART disk health'' True False True False),
      (''disks/partitions'', annotation ''Partition geometry'' True False True False),
      (''network/trace-path'', annotation ''Trace network path'' True False True True),
      (''system/os-release'', annotation ''OS and kernel version'' True False True False),
      (''system/packages'', annotation ''List installed packages'' True False True False),
      (''users/list'', annotation ''List user accounts'' True False True False),
      (''auth/sudo-rules'', annotation ''My root grants'' True False True False),
      (''docker/containers'', annotation ''List containers'' True False True False),
      (''docker/manage'', annotation ''Container lifecycle'' False True False False),
      (''docker/logs'', annotation ''Container logs'' True False True False),
      (''docker/exec'', annotation ''Run command in container'' False True False False),
      (''docker/images'', annotation ''List images'' True False True False),
      (''docker/volumes'', annotation ''List volumes'' True False True False),
      (''docker/networks'', annotation ''List Docker networks'' True False True False),
      (''docker/prune'', annotation ''Prune unused Docker objects'' False True True False),
      (''daemon/reload-config'', annotation ''Reload mcpd config'' False False True False)]"

definition annotation_json :: "toolAnnotation \<Rightarrow> json" where
  "annotation_json a =
     marshal_map [(''title'', JStr (Title a)), (''readOnlyHint'', JBool (ReadOnly a)), (''destructiveHint'', JBool (Destructive a)),
       (''idempotentHint'', JBool (Idempotent a)), (''openWorldHint'', JBool (Open a))]"

text \<open>\<open>annotateTools\<close>: a tool is a map; what is no map, or has no row, is left alone.\<close>

definition annotate_tool :: "json \<Rightarrow> json" where
  "annotate_tool t =
     (case t of
        JObj ms \<Rightarrow>
          (case map_of toolAnnotations (json_text (map_of ms ''name'')) of
             Some a \<Rightarrow> JObj (map_put ''annotations'' (annotation_json a) ms)
           | None \<Rightarrow> t)
      | _ \<Rightarrow> t)"

definition annotateTools :: "json list \<Rightarrow> json list" where
  "annotateTools ts = map annotate_tool ts"

subsection \<open>The other methods\<close>

text \<open>The static documents: the tools in the order they are put together, and the resource lists.\<close>

record static_docs =
  base_tools :: "json list"
  dockerTools_doc :: "json list"
  cronTools_doc :: "json list"
  reload_tool :: json
  resources_doc :: json
  templates_doc :: json
  Version :: string

definition HandleToolsList :: "static_docs \<Rightarrow> rpc_response" where
  "HandleToolsList d =
     no_response\<lparr>Result := Some (JObj [(''tools'', JArr (annotateTools
       (base_tools d @ dockerTools_doc d @ cronTools_doc d @ [reload_tool d])))])\<rparr>"

definition HandleInitialize :: "static_docs \<Rightarrow> rpc_response" where
  "HandleInitialize d =
     no_response\<lparr>Result := Some (marshal_map
       [(''protocolVersion'', JStr ''2024-11-05''),
        (''capabilities'', marshal_map [(''tools'', JObj []), (''resources'', JObj [])]),
        (''serverInfo'', marshal_map [(''name'', JStr ''linux-mcp-daemon''), (''version'', JStr (Version d))])])\<rparr>"

subsection \<open>The dispatcher\<close>

text \<open>
  What a message does: the documents put on the session's channel, in order, the state afterwards, the
  processes started and the log line of a tool call. A send on a channel that has been closed panics;
  \<open>gone\<close> says whether the stream has closed it by the time of the first send.
\<close>

record 'w rpc_out =
  events :: "json list"
  rpc_after :: "'w rpc_state"
  spawned :: "process list"
  call_log :: "tool_log option"

definition chan_send :: "bool \<Rightarrow> 'w rpc_out \<Rightarrow> 'w rpc_out outcome" where
  "chan_send gone o1 = (if gone \<and> events o1 \<noteq> [] then Panicked else Finished o1)"

definition answer :: "json \<Rightarrow> rpc_response \<Rightarrow> 'w rpc_state \<Rightarrow> 'w rpc_out" where
  "answer i r st = \<lparr>events = [response_json i r], rpc_after = st, spawned = [], call_log = None\<rparr>"

definition ProcessJSONRPC ::
  "'w rpc_env \<Rightarrow> local_env \<Rightarrow> static_docs \<Rightarrow> bool \<Rightarrow> session \<Rightarrow> JSONRPCRequest \<Rightarrow> 'w rpc_state \<Rightarrow> 'w rpc_out outcome" where
  "ProcessJSONRPC e l d gone sess req st =
     (if ID req = JNull then Finished \<lparr>events = [], rpc_after = st, spawned = [], call_log = None\<rparr>
      else if Method req = ''initialize'' then chan_send gone (answer (ID req) (HandleInitialize d) st)
      else if Method req = ''ping'' then chan_send gone (answer (ID req) no_response st)
      else if Method req = ''resources/list'' then
        chan_send gone (answer (ID req) (no_response\<lparr>Result := Some (resources_doc d)\<rparr>) st)
      else if Method req = ''resources/templates/list'' then
        chan_send gone (answer (ID req) (no_response\<lparr>Result := Some (templates_doc d)\<rparr>) st)
      else if Method req = ''resources/read'' then
        (let r = HandleResourcesRead e l sess (Params req) st in
         chan_send gone \<lparr>events = map (response_json (ID req)) (ro_sent r @ [ro_response r]),
           rpc_after = ro_state r, spawned = ro_spawned r, call_log = None\<rparr>)
      else if Method req = ''tools/list'' then chan_send gone (answer (ID req) (HandleToolsList d) st)
      else if Method req = ''tools/call'' then
        (case HandleToolsCall e sess (Params req) st of
           Panicked \<Rightarrow> Panicked
         | Finished out \<Rightarrow>
             chan_send gone \<lparr>events = [response_json (ID req) (out_response out)], rpc_after = out_state out,
               spawned = out_spawned out, call_log = out_log out\<rparr>)
      else chan_send gone (answer (ID req) (no_response\<lparr>Error := Some (-32601, ''Method not found'')\<rparr>) st))"


subsection \<open>One answer per request\<close>

text \<open>The two places where \<open>HandleResourcesRead\<close> sends its answer itself and returns.\<close>

definition answered_early :: "'w rpc_env \<Rightarrow> session \<Rightarrow> json option \<Rightarrow> 'w rpc_state \<Rightarrow> bool" where
  "answered_early e sess params st =
     (case uri_param params of
        Inl _ \<Rightarrow> False
      | Inr uri \<Rightarrow>
          if strictly_privileged uri \<and> \<not> CanReadResourceAsRoot (s_sudo (settings st)) (sess_User sess) uri ''*'' then True
          else fst (cache_Get (re_now e) uri (ResourceCache st)) \<noteq> None)"

lemma ro_sent_early:
  "ro_sent (HandleResourcesRead e l sess params st) =
   (if answered_early e sess params st then [ro_response (HandleResourcesRead e l sess params st)] else [])"
  by (auto simp: HandleResourcesRead_def answered_early_def Let_def split: sum.splits option.splits prod.splits)

lemma response_id: "map_of (members (response_json i r)) ''id'' = Some i"
  by (simp add: response_json_def members_def)

lemma chan_send_Finished: "chan_send gone x = Finished y \<longleftrightarrow> x = y \<and> \<not> (gone \<and> events x \<noteq> [])"
  by (auto simp: chan_send_def)

text \<open>
  C36. A notification has no effect at all: nothing is sent, started, logged or changed. Every other message
  is answered under its own id, once; except that a resource answered from the cache or refused before the
  read is answered twice, with the same document.
\<close>

theorem ProcessJSONRPC_answers:
  assumes "ProcessJSONRPC e l d gone sess req st = Finished out"
  shows "list_all (\<lambda>v. map_of (members v) ''id'' = Some (ID req)) (events out) \<and>
    (if ID req = JNull then out = \<lparr>events = [], rpc_after = st, spawned = [], call_log = None\<rparr>
     else \<exists>v. events out = (if Method req = ''resources/read'' \<and> answered_early e sess (Params req) st then [v, v] else [v]))"
proof (cases "ID req = JNull")
  case True
  then show ?thesis using assms by (auto simp: ProcessJSONRPC_def)
next
  case False
  then have "\<exists>r. events out = map (response_json (ID req))
      (if Method req = ''resources/read'' \<and> answered_early e sess (Params req) st then [r, r] else [r])"
    using assms
    by (auto simp: ProcessJSONRPC_def chan_send_Finished answer_def Let_def ro_sent_early split: if_splits outcome.splits)
  then obtain r where "events out = map (response_json (ID req))
      (if Method req = ''resources/read'' \<and> answered_early e sess (Params req) st then [r, r] else [r])" by blast
  then show ?thesis using False by (simp add: response_id)
qed


definition ex_docs :: static_docs where
  "ex_docs = \<lparr>base_tools = [], dockerTools_doc = [], cronTools_doc = [], reload_tool = JObj [(''name'', JStr ''daemon/reload-config'')],
     resources_doc = JObj [], templates_doc = JObj [], Version = ''1.0''\<rparr>"

definition ex_request :: "string \<Rightarrow> json option \<Rightarrow> JSONRPCRequest" where
  "ex_request m ps = \<lparr>ID = JNum 7 0, Method = m, Params = ps\<rparr>"

definition ex_process :: "string \<Rightarrow> json option \<Rightarrow> unit rpc_out outcome" where
  "ex_process m ps = ProcessJSONRPC ex_rpc_env ex_local ex_docs False ex_session (ex_request m ps) (ex_state ex_res_sudo)"

theorem ProcessJSONRPC_answers_witness:
  "\<exists>out v. ex_process ''ping'' None = Finished out \<and> events out = [v] \<and> map_of (members v) ''id'' = Some (JNum 7 0)"
proof -
  obtain out where o: "ProcessJSONRPC ex_rpc_env ex_local ex_docs False ex_session (ex_request ''ping'' None) (ex_state ex_res_sudo) = Finished out"
    by (simp add: ProcessJSONRPC_def ex_request_def chan_send_def)
  have "list_all (\<lambda>v. map_of (members v) ''id'' = Some (JNum 7 0)) (events out) \<and> (\<exists>v. events out = [v])"
    using ProcessJSONRPC_answers [OF o] by (auto simp: ex_request_def)
  then show ?thesis using o by (auto simp: ex_process_def)
qed

subsection \<open>Where the protocol is not kept\<close>

text \<open>The refusal of a strictly privileged resource arrives twice.\<close>

lemma refusal_sent_twice:
  "\<exists>out v. ex_process ''resources/read'' (ex_read ''kernel://modules'') = Finished out \<and> events out = [v, v]"
proof -
  have "strictly_privileged ''kernel://modules''" "\<not> CanReadResourceAsRoot ex_res_sudo ''alice'' ''kernel://modules'' ''*''"
    by code_simp+
  then have "answered_early ex_rpc_env ex_session (ex_read ''kernel://modules'') (ex_state ex_res_sudo)"
    by (simp add: answered_early_def ex_rpc_defs)
  then show ?thesis by (simp add: ex_process_def ProcessJSONRPC_def ex_request_def chan_send_def Let_def ro_sent_early)
qed

text \<open>The answer to \<open>ping\<close> has neither a result nor an error.\<close>

lemma ping_without_result:
  "ex_process ''ping'' None = Finished (answer (JNum 7 0) no_response (ex_state ex_res_sudo)) \<and>
   response_json (JNum 7 0) no_response = JObj [(''jsonrpc'', JStr ''2.0''), (''id'', JNum 7 0)]"
  by (simp add: ex_process_def ProcessJSONRPC_def ex_request_def chan_send_def answer_def response_json_def no_response_def)

text \<open>A request that is still running when its stream closes the channel ends the daemon.\<close>

lemma late_answer_panics:
  "ID req \<noteq> JNull \<Longrightarrow> ProcessJSONRPC e l d True sess req st = Panicked"
  by (auto simp: ProcessJSONRPC_def chan_send_def answer_def Let_def split: outcome.split)

subsection \<open>The list of tools\<close>

text \<open>Every tool a call can reach has a row of annotations.\<close>

lemma tools_annotated:
  assumes "tool \<in> set (standardWorkers @ [CronTool, ''auth/sudo-rules'', ''daemon/reload-config''])"
  shows "map_of toolAnnotations tool \<noteq> None"
proof -
  have "list_all (\<lambda>t. map_of toolAnnotations t \<noteq> None) (standardWorkers @ [CronTool, ''auth/sudo-rules'', ''daemon/reload-config''])"
    by code_simp
  then show ?thesis using assms by (auto simp: list_all_iff)
qed

text \<open>
  What the annotations promise is what the audit log assumes: a tool whose every call is written to the
  audit log is announced as not read-only and destructive, and a tool announced as read-only is never one of
  those.
\<close>

lemma annotations_agree_with_audit:
  assumes "map_of toolAnnotations tool = Some a"
  shows "(tool \<in> set mutatingTools \<longrightarrow> Destructive a) \<and> \<not> (ReadOnly a \<and> Destructive a) \<and>
    (ReadOnly a \<longrightarrow> tl_kind (logToolCall e sess tool args logged_args res None) \<noteq> AuditLine)"
proof -
  have t: "list_all (\<lambda>(t, x). (t \<in> set mutatingTools \<longrightarrow> Destructive x) \<and> \<not> (ReadOnly x \<and> Destructive x) \<and>
      (ReadOnly x \<longrightarrow> t \<notin> set mutatingTools \<and> t \<noteq> ''kernel/system-control'')) toolAnnotations"
    by code_simp
  have "(tool, a) \<in> set toolAnnotations" using assms by (rule map_of_SomeD)
  then have "(tool \<in> set mutatingTools \<longrightarrow> Destructive a) \<and> \<not> (ReadOnly a \<and> Destructive a) \<and>
      (ReadOnly a \<longrightarrow> tool \<notin> set mutatingTools \<and> tool \<noteq> ''kernel/system-control'')"
    using t by (auto simp: list_all_iff)
  then show ?thesis by (auto simp: logToolCall_def Let_def split: option.splits)
qed

lemma ex_annotations_agree_with_audit:
  "Destructive (the (map_of toolAnnotations ''docker/exec''))"
proof -
  have "map_of toolAnnotations ''docker/exec'' = Some (annotation ''Run command in container'' False True False False)" by code_simp
  from annotations_agree_with_audit [OF this] have "''docker/exec'' \<in> set mutatingTools \<longrightarrow>
      Destructive (annotation ''Run command in container'' False True False False)" by blast
  then show ?thesis using \<open>map_of toolAnnotations _ = _\<close> by (simp add: mutatingTools_def)
qed

end
