(* ===== verification/Limiter.thy ===== *)
theory Limiter
  imports Prelude Complex_Main
begin

text \<open>
  The per-user rate limiters (\<^verbatim>\<open>internal/auth/limiter.go\<close>). The token bucket itself is
  \<^verbatim>\<open>golang.org/x/time/rate\<close>, which is not part of the program: a bucket is a value of
  any type \<open>'l\<close>, made by \<open>newl rps burst\<close>, and \<open>allow now l\<close> is the answer of
  \<open>Limiter.Allow\<close> at an instant together with the bucket it leaves. What is shown holds for every
  such library: each user has one bucket, made on first use, and no other user's calls touch it.

  Limiters are pointers, so the manager maps a user to an address and the buckets live in a heap.
\<close>

record 'l limiter_manager =
  limiters :: "(string \<times> nat) list"
  buckets :: "'l list"
  defaultRPS :: rat
  defaultBurst :: int

definition NewLimiterManager :: "rat \<Rightarrow> int \<Rightarrow> 'l limiter_manager" where
  "NewLimiterManager rps burst =
     \<lparr>limiters = [], buckets = [], defaultRPS = rps, defaultBurst = burst\<rparr>"

text \<open>The section under the write lock: look again, and allocate when the user still has none.\<close>

definition lm_create :: "(rat \<Rightarrow> int \<Rightarrow> 'l) \<Rightarrow> string \<Rightarrow> 'l limiter_manager \<Rightarrow> nat \<times> 'l limiter_manager" where
  "lm_create newl u m =
     (case map_of (limiters m) u of
        Some a \<Rightarrow> (a, m)
      | None \<Rightarrow>
          (length (buckets m),
           m\<lparr>limiters := map_put u (length (buckets m)) (limiters m),
             buckets := buckets m @ [newl (defaultRPS m) (defaultBurst m)]\<rparr>))"

text \<open>\<open>limiter.Allow()\<close> on the bucket at an address.\<close>

definition lm_use :: "(int \<Rightarrow> 'l \<Rightarrow> bool \<times> 'l) \<Rightarrow> int \<Rightarrow> nat \<Rightarrow> 'l limiter_manager \<Rightarrow> bool \<times> 'l limiter_manager" where
  "lm_use allow now a m =
     (let (ok, l) = allow now (buckets m ! a) in (ok, m\<lparr>buckets := (buckets m)[a := l]\<rparr>))"

text \<open>\<open>Allow\<close> as one caller runs it.\<close>

definition lm_Allow ::
  "(rat \<Rightarrow> int \<Rightarrow> 'l) \<Rightarrow> (int \<Rightarrow> 'l \<Rightarrow> bool \<times> 'l) \<Rightarrow> int \<Rightarrow> string \<Rightarrow> 'l limiter_manager \<Rightarrow>
   bool \<times> 'l limiter_manager" where
  "lm_Allow newl allow now u m =
     (case map_of (limiters m) u of
        Some a \<Rightarrow> lm_use allow now a m
      | None \<Rightarrow> (let (a, m') = lm_create newl u m in lm_use allow now a m'))"

definition SetOverride :: "(rat \<Rightarrow> int \<Rightarrow> 'l) \<Rightarrow> string \<Rightarrow> rat \<Rightarrow> int \<Rightarrow> 'l limiter_manager \<Rightarrow> 'l limiter_manager" where
  "SetOverride newl u rps burst m =
     m\<lparr>limiters := map_put u (length (buckets m)) (limiters m), buckets := buckets m @ [newl rps burst]\<rparr>"

text \<open>Every address is allocated and belongs to one user.\<close>

definition lm_wf :: "'l limiter_manager \<Rightarrow> bool" where
  "lm_wf m \<longleftrightarrow>
     (\<forall>u a. map_of (limiters m) u = Some a \<longrightarrow> a < length (buckets m)) \<and>
     (\<forall>u v a. map_of (limiters m) u = Some a \<longrightarrow> map_of (limiters m) v = Some a \<longrightarrow> u = v)"

lemma lm_wf_New [simp]: "lm_wf (NewLimiterManager rps burst)"
  by (simp add: lm_wf_def NewLimiterManager_def)

lemma lm_wf_create: "lm_wf m \<Longrightarrow> lm_wf (snd (lm_create newl u m))"
  by (fastforce simp: lm_wf_def lm_create_def less_Suc_eq split: option.split if_splits)

lemma lm_wf_use: "lm_wf m \<Longrightarrow> lm_wf (snd (lm_use allow now a m))"
  by (auto simp: lm_wf_def lm_use_def split: prod.split)

lemma lm_wf_Allow: "lm_wf m \<Longrightarrow> lm_wf (snd (lm_Allow newl allow now u m))"
  using lm_wf_create [of m newl u]
  by (auto simp: lm_Allow_def lm_wf_use split: option.split prod.split)

lemma lm_wf_SetOverride: "lm_wf m \<Longrightarrow> lm_wf (SetOverride newl u rps burst m)"
  by (fastforce simp: lm_wf_def SetOverride_def less_Suc_eq split: if_splits)

text \<open>The bucket a user's next call draws from.\<close>

definition bucket_of :: "(rat \<Rightarrow> int \<Rightarrow> 'l) \<Rightarrow> 'l limiter_manager \<Rightarrow> string \<Rightarrow> 'l" where
  "bucket_of newl m u =
     (case map_of (limiters m) u of
        Some a \<Rightarrow> buckets m ! a
      | None \<Rightarrow> newl (defaultRPS m) (defaultBurst m))"

lemma lm_Allow_bucket:
  assumes "lm_wf m"
  shows "fst (lm_Allow newl allow now u m) = fst (allow now (bucket_of newl m u))"
    and "bucket_of newl (snd (lm_Allow newl allow now u m)) v =
      (if v = u then snd (allow now (bucket_of newl m u)) else bucket_of newl m v)"
  using assms
  by (auto simp: lm_Allow_def lm_use_def lm_create_def bucket_of_def lm_wf_def nth_append nth_list_update
      split: option.split prod.split)

subsection \<open>Concurrent callers\<close>

text \<open>
  Where a goroutine stands in \<open>Allow\<close>: before the read-locked lookup, after a lookup that found
  nothing, with a limiter in hand, or finished.
\<close>

datatype lm_pc = Start | Missed | Holding nat | Finished bool

record 'l lm_state =
  mgr :: "'l limiter_manager"
  threads :: "(string \<times> lm_pc) list"
  decisions :: "(string \<times> int \<times> bool) list"

inductive lm_step :: "(rat \<Rightarrow> int \<Rightarrow> 'l) \<Rightarrow> (int \<Rightarrow> 'l \<Rightarrow> bool \<times> 'l) \<Rightarrow> 'l lm_state \<Rightarrow> 'l lm_state \<Rightarrow> bool"
  for newl :: "rat \<Rightarrow> int \<Rightarrow> 'l" and allow :: "int \<Rightarrow> 'l \<Rightarrow> bool \<times> 'l" where
  call: "lm_step newl allow s (s\<lparr>threads := threads s @ [(u, Start)]\<rparr>)"
| found: "i < length (threads s) \<Longrightarrow> threads s ! i = (u, Start) \<Longrightarrow> map_of (limiters (mgr s)) u = Some a \<Longrightarrow>
    lm_step newl allow s (s\<lparr>threads := (threads s)[i := (u, Holding a)]\<rparr>)"
| missed: "i < length (threads s) \<Longrightarrow> threads s ! i = (u, Start) \<Longrightarrow> map_of (limiters (mgr s)) u = None \<Longrightarrow>
    lm_step newl allow s (s\<lparr>threads := (threads s)[i := (u, Missed)]\<rparr>)"
| create: "i < length (threads s) \<Longrightarrow> threads s ! i = (u, Missed) \<Longrightarrow> lm_create newl u (mgr s) = (a, m) \<Longrightarrow>
    lm_step newl allow s (s\<lparr>mgr := m, threads := (threads s)[i := (u, Holding a)]\<rparr>)"
| decide: "i < length (threads s) \<Longrightarrow> threads s ! i = (u, Holding a) \<Longrightarrow> lm_use allow now a (mgr s) = (ok, m) \<Longrightarrow>
    lm_step newl allow s (s\<lparr>mgr := m, threads := (threads s)[i := (u, Finished ok)],
      decisions := decisions s @ [(u, now, ok)]\<rparr>)"

inductive_cases lm_stepE: "lm_step newl allow s s'"

definition lm_init :: "rat \<Rightarrow> int \<Rightarrow> 'l lm_state" where
  "lm_init rps burst = \<lparr>mgr = NewLimiterManager rps burst, threads = [], decisions = []\<rparr>"

text \<open>One bucket asked at a series of instants: its answers and the bucket left over.\<close>

definition replay :: "(int \<Rightarrow> 'l \<Rightarrow> bool \<times> 'l) \<Rightarrow> 'l \<Rightarrow> int list \<Rightarrow> bool list \<times> 'l" where
  "replay allow l ts = foldl (\<lambda>(oks, l) t. let (ok, l') = allow t l in (oks @ [ok], l')) ([], l) ts"

lemma replay_Nil [simp]: "replay allow l [] = ([], l)"
  by (simp add: replay_def)

lemma replay_snoc [simp]:
  "replay allow l (ts @ [t]) =
     (fst (replay allow l ts) @ [fst (allow t (snd (replay allow l ts)))],
      snd (allow t (snd (replay allow l ts))))"
  by (simp add: replay_def split_beta)

definition of_user :: "string \<Rightarrow> (string \<times> int \<times> bool) list \<Rightarrow> (int \<times> bool) list" where
  "of_user u ds = map snd (filter (\<lambda>d. fst d = u) ds)"

lemma of_user_simps [simp]:
  "of_user u [] = []" "of_user u (ds @ [(v, t, ok)]) = of_user u ds @ (if v = u then [(t, ok)] else [])"
  by (simp_all add: of_user_def)

text \<open>
  The invariant: a goroutine past the lookup holds its user's one bucket, and that bucket has seen
  exactly the decisions made for the user, in their order.
\<close>

definition lm_inv :: "(rat \<Rightarrow> int \<Rightarrow> 'l) \<Rightarrow> (int \<Rightarrow> 'l \<Rightarrow> bool \<times> 'l) \<Rightarrow> rat \<Rightarrow> int \<Rightarrow> 'l lm_state \<Rightarrow> bool" where
  "lm_inv newl allow rps burst s \<longleftrightarrow>
     lm_wf (mgr s) \<and> defaultRPS (mgr s) = rps \<and> defaultBurst (mgr s) = burst \<and>
     (\<forall>u a. (u, Holding a) \<in> set (threads s) \<longrightarrow> map_of (limiters (mgr s)) u = Some a) \<and>
     (\<forall>u. replay allow (newl rps burst) (map fst (of_user u (decisions s))) =
          (map snd (of_user u (decisions s)), bucket_of newl (mgr s) u))"

lemma lm_create_props:
  assumes "lm_create newl u m = (a, m')" and "lm_wf m"
  shows "lm_wf m'" "defaultRPS m' = defaultRPS m" "defaultBurst m' = defaultBurst m"
    "map_of (limiters m') u = Some a" "map_of (limiters m) v = Some b \<Longrightarrow> map_of (limiters m') v = Some b"
    "bucket_of newl m' v = bucket_of newl m v"
proof -
  show "lm_wf m'" using lm_wf_create [OF assms(2), of newl u] assms(1) by simp
  show "defaultRPS m' = defaultRPS m" "defaultBurst m' = defaultBurst m" "map_of (limiters m') u = Some a"
    "map_of (limiters m) v = Some b \<Longrightarrow> map_of (limiters m') v = Some b"
    using assms by (auto simp: lm_create_def split: option.splits)
  show "bucket_of newl m' v = bucket_of newl m v"
    using assms by (fastforce simp: lm_create_def bucket_of_def lm_wf_def nth_append split: option.splits if_splits)
qed

lemma lm_use_props:
  assumes "lm_use allow now a m = (ok, m')" and "lm_wf m" and "map_of (limiters m) u = Some a"
  shows "lm_wf m'" "defaultRPS m' = defaultRPS m" "defaultBurst m' = defaultBurst m"
    "limiters m' = limiters m" "ok = fst (allow now (bucket_of newl m u))"
    "bucket_of newl m' v = (if v = u then snd (allow now (bucket_of newl m u)) else bucket_of newl m v)"
proof -
  have m': "ok = fst (allow now (buckets m ! a))" "m' = m\<lparr>buckets := (buckets m)[a := snd (allow now (buckets m ! a))]\<rparr>"
    using assms(1) by (auto simp: lm_use_def split: prod.splits)
  show "lm_wf m'" "defaultRPS m' = defaultRPS m" "defaultBurst m' = defaultBurst m"
    "limiters m' = limiters m" "ok = fst (allow now (bucket_of newl m u))"
    using assms(2,3) m' by (auto simp: lm_wf_def bucket_of_def)
  have "map_of (limiters m) v = Some b \<Longrightarrow> v \<noteq> u \<Longrightarrow> b \<noteq> a" for b
    using assms(2,3) by (auto simp: lm_wf_def)
  then show "bucket_of newl m' v = (if v = u then snd (allow now (bucket_of newl m u)) else bucket_of newl m v)"
    using assms(2,3) by (auto simp: m' bucket_of_def lm_wf_def split: option.split)
qed

lemma lm_inv_init: "lm_inv newl allow rps burst (lm_init rps burst)"
  by (simp add: lm_inv_def lm_init_def NewLimiterManager_def bucket_of_def lm_wf_def)

lemma set_threads_update:
  "(v, pc) \<in> set (ts[i := (u, pc')]) \<Longrightarrow> (v, pc) \<in> set ts \<or> (v = u \<and> pc = pc')"
  using set_update_subset_insert [of ts i "(u, pc')"] by auto

lemma lm_inv_step:
  assumes "lm_step newl allow s s'" and inv: "lm_inv newl allow rps burst s"
  shows "lm_inv newl allow rps burst s'"
  using assms(1)
proof cases
  case (create i u a m)
  then show ?thesis using inv lm_create_props [OF create(4)]
    by (auto simp: lm_inv_def dest!: set_threads_update)
next
  case (decide i u a now ok m)
  have "(u, Holding a) \<in> set (threads s)" using decide(2,3) nth_mem by metis
  then have a: "map_of (limiters (mgr s)) u = Some a" using inv by (simp add: lm_inv_def)
  have wf: "lm_wf (mgr s)" using inv by (simp add: lm_inv_def)
  show ?thesis using inv decide lm_use_props(1-4) [OF decide(4) wf a]
      lm_use_props(5,6) [OF decide(4) wf a, where newl = newl]
    by (auto simp: lm_inv_def dest!: set_threads_update)
qed (use inv in \<open>auto simp: lm_inv_def dest!: set_threads_update\<close>)

lemma lm_inv_reachable:
  "(lm_step newl allow)\<^sup>*\<^sup>* s s' \<Longrightarrow> lm_inv newl allow rps burst s \<Longrightarrow> lm_inv newl allow rps burst s'"
  by (induction rule: rtranclp_induct) (simp_all add: lm_inv_step)

text \<open>
  C27. However the calls of any number of goroutines interleave, the answers a user gets are those of one
  token bucket, made with the configured rate and burst and asked at the instants of that user's calls,
  in order: no two goroutines ever give a user two buckets, and no other user's calls take from it.
\<close>

theorem Allow_linearizable:
  assumes "(lm_step newl allow)\<^sup>*\<^sup>* (lm_init rps burst) s"
  shows "map snd (of_user u (decisions s)) =
      fst (replay allow (newl rps burst) (map fst (of_user u (decisions s))))"
  using lm_inv_reachable [OF assms lm_inv_init] by (simp add: lm_inv_def)

text \<open>A bucket of \<open>burst\<close> tokens that never refills, for the witness.\<close>

definition ex_bucket :: "int \<Rightarrow> nat \<Rightarrow> bool \<times> nat" where
  "ex_bucket now n = (case n of 0 \<Rightarrow> (False, 0) | Suc k \<Rightarrow> (True, k))"

theorem Allow_linearizable_witness:
  "\<exists>s. (lm_step (\<lambda>_ b. nat b) ex_bucket)\<^sup>*\<^sup>* (lm_init 1 1) s \<and>
     decisions s = [(''alice'', 0, True), (''alice'', 0, False)] \<and>
     map snd (of_user ''alice'' (decisions s)) = fst (replay ex_bucket (nat 1) [0, 0])"
proof -
  let ?S = "lm_step (\<lambda>_ b. nat b) ex_bucket"
  let ?m = "\<lambda>n::nat. \<lparr>limiters = [(''alice'', 0)], buckets = [n], defaultRPS = 1, defaultBurst = 1\<rparr>"
  let ?u = "''alice''"
  let ?s = "\<lambda>m ts ds. \<lparr>mgr = m, threads = ts, decisions = ds\<rparr>"
  let ?new = "NewLimiterManager 1 1 :: nat limiter_manager"
  have 1: "?S (lm_init 1 1) (?s ?new [(?u, Start)] [])"
    using lm_step.call [of _ _ "lm_init 1 1" ?u] by (simp add: lm_init_def)
  have 2: "?S (?s ?new [(?u, Start)] []) (?s ?new [(?u, Start), (?u, Start)] [])"
    using lm_step.call [of _ _ "?s ?new [(?u, Start)] []" ?u] by simp
  have 3: "?S (?s ?new [(?u, Start), (?u, Start)] []) (?s ?new [(?u, Missed), (?u, Start)] [])"
    using lm_step.missed [of 0 "?s ?new [(?u, Start), (?u, Start)] []" ?u] by (simp add: NewLimiterManager_def)
  have 4: "?S (?s ?new [(?u, Missed), (?u, Start)] []) (?s ?new [(?u, Missed), (?u, Missed)] [])"
    using lm_step.missed [of 1 "?s ?new [(?u, Missed), (?u, Start)] []" ?u] by (simp add: NewLimiterManager_def)
  have 5: "?S (?s ?new [(?u, Missed), (?u, Missed)] []) (?s (?m 1) [(?u, Holding 0), (?u, Missed)] [])"
    using lm_step.create [of 0 "?s ?new [(?u, Missed), (?u, Missed)] []" ?u "\<lambda>_ b. nat b" 0 "?m 1"]
    by (simp add: NewLimiterManager_def lm_create_def map_put_def)
  have 6: "?S (?s (?m 1) [(?u, Holding 0), (?u, Missed)] []) (?s (?m 1) [(?u, Holding 0), (?u, Holding 0)] [])"
    using lm_step.create [of 1 "?s (?m 1) [(?u, Holding 0), (?u, Missed)] []" ?u "\<lambda>_ b. nat b" 0 "?m 1"]
    by (simp add: lm_create_def)
  have 7: "?S (?s (?m 1) [(?u, Holding 0), (?u, Holding 0)] [])
      (?s (?m 0) [(?u, Finished True), (?u, Holding 0)] [(?u, 0, True)])"
    using lm_step.decide [of 0 "?s (?m 1) [(?u, Holding 0), (?u, Holding 0)] []" ?u 0 ex_bucket 0 True "?m 0"]
    by (simp add: lm_use_def ex_bucket_def)
  have 8: "?S (?s (?m 0) [(?u, Finished True), (?u, Holding 0)] [(?u, 0, True)])
      (?s (?m 0) [(?u, Finished True), (?u, Finished False)] [(?u, 0, True), (?u, 0, False)])"
    using lm_step.decide [of 1 "?s (?m 0) [(?u, Finished True), (?u, Holding 0)] [(?u, 0, True)]" ?u 0 ex_bucket 0 False "?m 0"]
    by (simp add: lm_use_def ex_bucket_def)
  note steps = 1 2 3 4 5 6 7 8
  have run: "?S\<^sup>*\<^sup>* (lm_init 1 1)
      (?s (?m 0) [(?u, Finished True), (?u, Finished False)] [(?u, 0, True), (?u, 0, False)])"
    using steps by (meson rtranclp.rtrancl_into_rtrancl rtranclp.rtrancl_refl)
  show ?thesis
    using Allow_linearizable [OF run, of ?u]
    by (intro exI [of _ "?s (?m 0) [(?u, Finished True), (?u, Finished False)] [(?u, 0, True), (?u, 0, False)]"]
        conjI run) (simp_all add: of_user_def)
qed

end
