(* ===== verification/YamlEdit.thy ===== *)
theory YamlEdit
  imports KvStore
begin

text \<open>
  The in-place edits of YAML mapping nodes (\<^verbatim>\<open>internal/yamledit/yamledit.go\<close>). A node
  is its kind, its scalar value, its comments and its children; a mapping lists its keys and values
  alternately in \<open>Content\<close>. The edits are shown to implement the key-value interface while
  leaving every other entry, with its comments, where and as it was.
\<close>

datatype kind = DocumentNode | SequenceNode | MappingNode | ScalarNodeKind | AliasNode

datatype node = Node (node_kind: kind) (node_value: string) (comments: "string list") (Content: "node list")

text \<open>The loops step by two over \<open>Content\<close> and leave a dangling last key alone.\<close>

fun content_get :: "string \<Rightarrow> node list \<Rightarrow> node option" where
  "content_get key (k # v # rest) = (if node_value k = key then Some v else content_get key rest)"
| "content_get key _ = None"

definition MapGet :: "node option \<Rightarrow> string \<Rightarrow> node option" where
  "MapGet m key = (case m of None \<Rightarrow> None | Some n \<Rightarrow> content_get key (Content n))"

definition ScalarNode :: "string \<Rightarrow> node" where
  "ScalarNode v = Node ScalarNodeKind v [] []"

definition EmptyMapNode :: node where
  "EmptyMapNode = Node MappingNode [] [] []"

text \<open>\<open>None\<close> when no entry has the key: the caller then appends a new one.\<close>

fun content_replace :: "string \<Rightarrow> node \<Rightarrow> node list \<Rightarrow> node list option" where
  "content_replace key v' (k # v # rest) =
     (if node_value k = key then Some (k # v' # rest)
      else map_option (\<lambda>r. k # v # r) (content_replace key v' rest))"
| "content_replace key v' _ = None"

definition MapSet :: "string \<Rightarrow> node \<Rightarrow> node \<Rightarrow> node" where
  "MapSet key v m =
     (case content_replace key v (Content m) of
        Some c \<Rightarrow> Node (node_kind m) (node_value m) (comments m) c
      | None \<Rightarrow> Node (node_kind m) (node_value m) (comments m) (Content m @ [ScalarNode key, v]))"

fun content_delete :: "string \<Rightarrow> node list \<Rightarrow> node list option" where
  "content_delete key (k # v # rest) =
     (if node_value k = key then Some rest
      else map_option (\<lambda>r. k # v # r) (content_delete key rest))"
| "content_delete key _ = None"

definition MapDelete :: "string \<Rightarrow> node \<Rightarrow> bool \<times> node" where
  "MapDelete key m =
     (case content_delete key (Content m) of
        Some c \<Rightarrow> (True, Node (node_kind m) (node_value m) (comments m) c)
      | None \<Rightarrow> (False, m))"

subsection \<open>Mappings as a key-value store\<close>

fun content_keys :: "node list \<Rightarrow> string list" where
  "content_keys (k # v # rest) = node_value k # content_keys rest"
| "content_keys _ = []"

text \<open>The mappings a YAML parser builds: complete pairs, no key twice.\<close>

definition mapping_wf :: "node \<Rightarrow> bool" where
  "mapping_wf m \<longleftrightarrow> even (length (Content m)) \<and> distinct (content_keys (Content m))"

lemma content_get_None: "content_get key c = None \<longleftrightarrow> key \<notin> set (content_keys c)"
  by (induction key c rule: content_get.induct) auto

lemma content_replace_None: "content_replace key v c = None \<longleftrightarrow> key \<notin> set (content_keys c)"
  by (induction key v c rule: content_replace.induct) auto

lemma content_delete_None: "content_delete key c = None \<longleftrightarrow> key \<notin> set (content_keys c)"
  by (induction key c rule: content_delete.induct) auto

lemma content_replace_keys:
  "content_replace key v c = Some c' \<Longrightarrow> content_keys c' = content_keys c \<and> length c' = length c"
  by (induction key v c arbitrary: c' rule: content_replace.induct) (auto split: if_splits)

lemma content_replace_get:
  "content_replace key v c = Some c' \<Longrightarrow>
   content_get k c' = (if k = key then Some v else content_get k c)"
  by (induction key v c arbitrary: c' rule: content_replace.induct) (auto split: if_splits)

lemma content_delete_keys:
  "content_delete key c = Some c' \<Longrightarrow> distinct (content_keys c) \<Longrightarrow>
   content_keys c' = filter (\<lambda>k. k \<noteq> key) (content_keys c) \<and> Suc (Suc (length c')) = length c"
proof (induction key c arbitrary: c' rule: content_delete.induct)
  case (1 key k v rest)
  have "filter (\<lambda>k'. k' \<noteq> key) (content_keys rest) = content_keys rest" if "node_value k = key"
    using 1(3) that by (auto intro: filter_True)
  then show ?case using 1 by (auto split: if_splits)
qed auto

lemma content_delete_get:
  "content_delete key c = Some c' \<Longrightarrow> distinct (content_keys c) \<Longrightarrow>
   content_get k c' = (if k = key then None else content_get k c)"
proof (induction key c arbitrary: c' rule: content_delete.induct)
  case (1 key k0 v rest)
  have "content_get key rest = None" if "node_value k0 = key"
    using 1(3) that by (simp add: content_get_None)
  then show ?case using 1 by (auto split: if_splits)
qed auto

lemma content_append_keys:
  "even (length c) \<Longrightarrow> content_keys (c @ [k, v]) = content_keys c @ [node_value k]"
  by (induction c rule: content_keys.induct) auto

lemma content_append_get:
  "even (length c) \<Longrightarrow> node_value k \<notin> set (content_keys c) \<Longrightarrow>
   content_get x (c @ [k, v]) = (if x = node_value k then Some v else content_get x c)"
  by (induction c rule: content_keys.induct) auto

lemma mapping_wf_MapSet: "mapping_wf m \<Longrightarrow> mapping_wf (MapSet k v m)"
proof (cases "content_replace k v (Content m)")
  case None
  then have "k \<notin> set (content_keys (Content m))" by (simp add: content_replace_None)
  then show "mapping_wf m \<Longrightarrow> ?thesis"
    using None by (simp add: mapping_wf_def MapSet_def ScalarNode_def content_append_keys)
next
  case (Some c)
  then show "mapping_wf m \<Longrightarrow> ?thesis"
    using content_replace_keys [OF Some] by (simp add: mapping_wf_def MapSet_def)
qed

lemma mapping_wf_MapDelete: "mapping_wf m \<Longrightarrow> mapping_wf (snd (MapDelete k m))"
proof (cases "content_delete k (Content m)")
  case None
  then show "mapping_wf m \<Longrightarrow> ?thesis" by (simp add: MapDelete_def)
next
  case (Some c)
  show "mapping_wf m \<Longrightarrow> ?thesis"
    using content_delete_keys [OF Some] Some even_Suc [of "Suc (length c)"]
    by (auto simp: mapping_wf_def MapDelete_def)
qed

lemma MapGet_MapSet:
  "mapping_wf m \<Longrightarrow> MapGet (Some (MapSet k v m)) k' = (if k' = k then Some v else MapGet (Some m) k')"
  by (auto simp: mapping_wf_def MapGet_def MapSet_def content_replace_get content_append_get
      content_replace_None ScalarNode_def split: option.split)

lemma MapGet_MapDelete:
  "mapping_wf m \<Longrightarrow>
   MapGet (Some (snd (MapDelete k m))) k' = (if k' = k then None else MapGet (Some m) k')"
proof (cases "content_delete k (Content m)")
  case None
  then have "content_get k (Content m) = None" by (simp add: content_delete_None content_get_None)
  then show "mapping_wf m \<Longrightarrow> ?thesis" using None by (simp add: MapGet_def MapDelete_def)
next
  case (Some c)
  then show "mapping_wf m \<Longrightarrow> ?thesis"
    by (simp add: mapping_wf_def MapGet_def MapDelete_def content_delete_get)
qed

interpretation yaml: kv_store mapping_wf "\<lambda>m k. MapGet (Some m) k" MapSet "\<lambda>k m. snd (MapDelete k m)"
  by unfold_locales (simp_all add: mapping_wf_MapSet mapping_wf_MapDelete MapGet_MapSet MapGet_MapDelete)

primrec apply_edit :: "(string, node) edit \<Rightarrow> node \<Rightarrow> node" where
  "apply_edit (Put k v) m = MapSet k v m"
| "apply_edit (Del k) m = snd (MapDelete k m)"

lemma yaml_edit: "yaml.edit = apply_edit"
proof
  fix e show "yaml.edit e = apply_edit e" by (cases e) (simp_all add: fun_eq_iff)
qed

lemma apply_edit_keeps: "node_kind (apply_edit e m) = node_kind m \<and> comments (apply_edit e m) = comments m"
  by (cases e) (auto simp: MapSet_def MapDelete_def split: option.split)

text \<open>
  C39. Any sequence of \<open>MapSet\<close> and \<open>MapDelete\<close> on a YAML mapping keeps it a mapping
  without duplicate keys, and afterwards \<open>MapGet\<close> finds for each key what the last edit of that
  key said, and what was there before for every key no edit named; the node itself keeps its kind and
  its comments.
\<close>

theorem yamledit_edits:
  assumes "mapping_wf m"
  shows "mapping_wf (fold apply_edit es m) \<and>
    MapGet (Some (fold apply_edit es m)) k = edits_at es k (MapGet (Some m) k) \<and>
    node_kind (fold apply_edit es m) = node_kind m \<and> comments (fold apply_edit es m) = comments m"
proof -
  have "node_kind (fold apply_edit es m) = node_kind m \<and> comments (fold apply_edit es m) = comments m"
    by (induction es arbitrary: m) (simp_all add: apply_edit_keeps)
  then show ?thesis using yaml.wf_edits [OF assms, of es] yaml.get_edits [OF assms, of es k]
    by (simp add: yaml_edit)
qed

theorem yamledit_edits_witness:
  "MapGet (Some (MapSet ''token'' (ScalarNode ''new'') (snd (MapDelete ''pinned_uid''
      (Node MappingNode [] [''# alice''] [ScalarNode ''pinned_uid'', ScalarNode ''1000'',
         ScalarNode ''token'', ScalarNode ''old''])))))
     ''token'' = Some (ScalarNode ''new'')"
proof -
  let ?m = "Node MappingNode [] [''# alice''] [ScalarNode ''pinned_uid'', ScalarNode ''1000'',
         ScalarNode ''token'', ScalarNode ''old'']"
  have wf: "mapping_wf ?m" by (simp add: mapping_wf_def ScalarNode_def)
  show ?thesis
    using yamledit_edits [OF wf, of "[Del ''pinned_uid'', Put ''token'' (ScalarNode ''new'')]" "''token''"]
    by simp
qed

text \<open>
  A \<open>MapSet\<close> of a key that is present changes exactly the value node after it: every other
  child, the key node with its own comments included, keeps its position and its content. A new key
  goes to the end.
\<close>

lemma MapSet_in_place:
  "(MapGet (Some m) key \<noteq> None \<longrightarrow>
     (\<exists>i. Suc i < length (Content m) \<and> even i \<and> node_value (Content m ! i) = key \<and>
          Content (MapSet key v m) = (Content m)[Suc i := v])) \<and>
   (MapGet (Some m) key = None \<longrightarrow>
     Content (MapSet key v m) = Content m @ [ScalarNode key, v])"
proof -
  have "content_replace key v c = Some c' \<Longrightarrow>
      \<exists>i. Suc i < length c \<and> even i \<and> node_value (c ! i) = key \<and> c' = c[Suc i := v]" for c c'
  proof (induction key v c arbitrary: c' rule: content_replace.induct)
    case (1 key v' k v rest)
    show ?case
    proof (cases "node_value k = key")
      case True
      then show ?thesis using 1(2) by (intro exI [of _ 0]) auto
    next
      case False
      then obtain r where r: "content_replace key v' rest = Some r" "c' = k # v # r"
        using 1(2) by auto
      then obtain i where "Suc i < length rest" "even i" "node_value (rest ! i) = key" "r = rest[Suc i := v']"
        using 1(1) False by blast
      then show ?thesis using r by (intro exI [of _ "Suc (Suc i)"]) auto
    qed
  qed auto
  then show ?thesis
    by (auto simp: MapGet_def MapSet_def content_get_None content_replace_None split: option.split)
      (metis content_replace_None option.distinct(1))
qed

end
