(* ===== verification/DaemonAuth.thy ===== *)
theory DaemonAuth
  imports Rpc Limiter YamlEdit
begin

text \<open>
  Who is calling: bearer tokens (\<^verbatim>\<open>cmd/mcpd/http.go\<close>) and the pinning of each user to the
  uid first seen behind the name (\<^verbatim>\<open>cmd/mcpd/uid_pin.go\<close>). The state is the daemon's
  global variables of \<^verbatim>\<open>cmd/mcpd/types.go\<close>; the YAML files on disk are part of it, as
  document trees, since pins are written back to them. SHA-256, the account table and the outcome of a
  write to disk are parameters.
\<close>

subsection \<open>The daemon's variables\<close>

text \<open>An SSE session: the session of the RPC layer and whether its \<open>Done\<close> channel is closed.\<close>

record sse_session =
  sse :: session
  Done :: bool

definition sess_Close :: "sse_session \<Rightarrow> sse_session" where
  "sess_Close s = s\<lparr>Done := True\<rparr>"

record 'l daemon =
  daemonConfig :: daemon_config
  usersPath :: string
  disk :: "string \<Rightarrow> node result"
  limiterManager :: "'l limiter_manager"
  sessions :: "(string \<times> sse_session) list"
  sessionCounter :: int
  log_settings :: log_state

subsection \<open>Pinning\<close>

text \<open>The loop over the entries of \<open>users:\<close>: the first one with this name is edited.\<close>

definition item_username :: "node \<Rightarrow> string option" where
  "item_username item = map_option node_value (MapGet (Some item) ''username'')"

definition pin_item :: "string \<Rightarrow> string \<Rightarrow> node \<Rightarrow> node" where
  "pin_item pinned osuid item =
     MapSet ''os_uid'' (ScalarNode osuid) (MapSet ''pinned_uid'' (ScalarNode pinned) item)"

fun pin_items :: "string \<Rightarrow> string \<Rightarrow> string \<Rightarrow> node list \<Rightarrow> node list option" where
  "pin_items username pinned osuid [] = None"
| "pin_items username pinned osuid (item # items) =
     (if item_username item = Some username then Some (pin_item pinned osuid item # items)
      else map_option (\<lambda>r. item # r) (pin_items username pinned osuid items))"

definition with_content :: "node \<Rightarrow> node list \<Rightarrow> node" where
  "with_content n c = Node (node_kind n) (node_value n) (comments n) c"

text \<open>
  The node trees are shared by pointers, so the edit of an entry shows in the document: it is rebuilt along
  the path from the root.
\<close>

definition persistUIDPin ::
  "(string \<Rightarrow> goerr option) \<Rightarrow> string \<Rightarrow> string \<Rightarrow> string \<Rightarrow> string \<Rightarrow> (string \<Rightarrow> node result) \<Rightarrow>
   unit result \<times> (string \<Rightarrow> node result)" where
  "persistUIDPin saveErr path username pinned osuid dsk =
     (case dsk path of
        Inl e \<Rightarrow> (Inl (''loading '' @ path @ '': '' @ e), dsk)
      | Inr doc \<Rightarrow>
     (case Content doc of
        [] \<Rightarrow> (Inl (path @ '' is empty''), dsk)
      | rnode # others \<Rightarrow>
     (case MapGet (Some rnode) ''users'' of
        None \<Rightarrow> (Inl (path @ '' has no users: list''), dsk)
      | Some seq \<Rightarrow>
     (case pin_items username pinned osuid (Content seq) of
        None \<Rightarrow> (Inl (''user '' @ quoted username @ '' not found in '' @ path), dsk)
      | Some items \<Rightarrow>
          (case saveErr path of
             Some e \<Rightarrow> (Inl e, dsk)
           | None \<Rightarrow>
               (Inr (), dsk(path := Inr (with_content doc (MapSet ''users'' (with_content seq items) rnode # others)))))))))"

text \<open>The first user of the list with a name, updated in place.\<close>

fun update_user :: "string \<Rightarrow> (daemon_user \<Rightarrow> daemon_user) \<Rightarrow> daemon_user list \<Rightarrow> daemon_user list" where
  "update_user name f [] = []"
| "update_user name f (u # us) = (if Username u = name then f u # us else u # update_user name f us)"

definition find_user :: "string \<Rightarrow> daemon_user list \<Rightarrow> daemon_user option" where
  "find_user name us = find (\<lambda>u. Username u = name) us"

definition set_users :: "(daemon_user list \<Rightarrow> daemon_user list) \<Rightarrow> 'l daemon \<Rightarrow> 'l daemon" where
  "set_users f d = d\<lparr>daemonConfig := (daemonConfig d)\<lparr>dc_Users := f (dc_Users (daemonConfig d))\<rparr>\<rparr>"

abbreviation users_of :: "'l daemon \<Rightarrow> daemon_user list" where
  "users_of d \<equiv> dc_Users (daemonConfig d)"

definition checkAndPinUID :: "accounts \<Rightarrow> (string \<Rightarrow> goerr option) \<Rightarrow> string \<Rightarrow> 'l daemon \<Rightarrow> bool \<times> 'l daemon" where
  "checkAndPinUID lookup saveErr username d =
     (case lookup username of
        Inl _ \<Rightarrow> (True, d)
      | Inr osUser \<Rightarrow>
          (let currentUID = Uid osUser in
           case find_user username (users_of d) of
             None \<Rightarrow> (True, d)
           | Some u \<Rightarrow>
               if PinnedUID u = [] then
                 (let d1 = set_users (update_user username (\<lambda>x. x\<lparr>PinnedUID := currentUID, OSUID := currentUID\<rparr>)) d
                  in (True, d1\<lparr>disk := snd (persistUIDPin saveErr (usersPath d1) username currentUID currentUID (disk d1))\<rparr>))
               else if PinnedUID u = currentUID then (True, d)
               else
                 (let d1 = set_users (update_user username (\<lambda>x. x\<lparr>OSUID := currentUID\<rparr>)) d
                  in (False, d1\<lparr>disk := snd (persistUIDPin saveErr (usersPath d1) username (PinnedUID u) currentUID (disk d1))\<rparr>))))"

subsection \<open>Bearer tokens\<close>

text \<open>Whether a token is this user's; the comparison is that of \<open>subtle.ConstantTimeCompare\<close>.\<close>

definition token_matches :: "(string \<Rightarrow> string) \<Rightarrow> string \<Rightarrow> daemon_user \<Rightarrow> bool" where
  "token_matches sha provided u =
     (if TokenHash u \<noteq> [] then sha (TokenSalt u @ provided) = TokenHash u
      else Token u = provided \<and> Token u \<noteq> [])"

fun auth_loop ::
  "(string \<Rightarrow> string) \<Rightarrow> accounts \<Rightarrow> (string \<Rightarrow> goerr option) \<Rightarrow> string \<Rightarrow> daemon_user list \<Rightarrow> 'l daemon \<Rightarrow> string option \<times> 'l daemon" where
  "auth_loop sha lookup saveErr provided [] d = (None, d)"
| "auth_loop sha lookup saveErr provided (u # us) d =
     (if token_matches sha provided u
      then (let (ok, d') = checkAndPinUID lookup saveErr (Username u) d in (if ok then Some (Username u) else None, d'))
      else auth_loop sha lookup saveErr provided us d)"

definition authenticateRequest ::
  "(string \<Rightarrow> string) \<Rightarrow> accounts \<Rightarrow> (string \<Rightarrow> goerr option) \<Rightarrow> string \<Rightarrow> 'l daemon \<Rightarrow> string option \<times> 'l daemon" where
  "authenticateRequest sha lookup saveErr authHeader d =
     (if \<not> has_prefix authHeader ''Bearer '' then (None, d)
      else auth_loop sha lookup saveErr (trim_prefix authHeader ''Bearer '') (users_of d) d)"

subsection \<open>What pinning keeps\<close>

lemma find_user_update:
  "find_user n (update_user name f us) =
   (if n = name then map_option f (find_user n us) else find_user n us)"
  if "\<And>u. Username (f u) = Username u"
  using that by (induction us) (auto simp: find_user_def)

lemma usernames_update [simp]:
  "(\<And>u. Username (f u) = Username u) \<Longrightarrow> map Username (update_user name f us) = map Username us"
  by (induction us) auto

lemma find_user_name: "find_user n us = Some u \<Longrightarrow> Username u = n \<and> u \<in> set us"
  by (auto simp: find_user_def find_Some_iff)

lemma users_of_set_users [simp]: "users_of (set_users f d) = f (users_of d)"
  by (simp add: set_users_def)

text \<open>The pin of a user, empty when there is none.\<close>

definition pin_of :: "string \<Rightarrow> 'l daemon \<Rightarrow> string" where
  "pin_of n d = (case find_user n (users_of d) of None \<Rightarrow> [] | Some u \<Rightarrow> PinnedUID u)"

lemma pin_of_disk [simp]: "pin_of n (d\<lparr>disk := x\<rparr>) = pin_of n d"
  by (simp add: pin_of_def)

lemma checkAndPinUID_pins:
  "pin_of n (snd (checkAndPinUID lookup saveErr username d)) =
   (if n = username \<and> pin_of n d = [] \<and> find_user n (users_of d) \<noteq> None
    then (case lookup n of Inl _ \<Rightarrow> [] | Inr a \<Rightarrow> Uid a) else pin_of n d)"
  by (auto simp: checkAndPinUID_def pin_of_def find_user_update Let_def split: sum.split option.split)

lemma checkAndPinUID_ok:
  assumes "fst (checkAndPinUID lookup saveErr username d)" and "lookup username = Inr a"
    and "find_user username (users_of d) \<noteq> None"
  shows "pin_of username (snd (checkAndPinUID lookup saveErr username d)) = Uid a"
  using assms by (auto simp: checkAndPinUID_pins) (auto simp: checkAndPinUID_def pin_of_def Let_def split: if_splits option.splits)

lemma checkAndPinUID_names [simp]:
  "map Username (users_of (snd (checkAndPinUID lookup saveErr username d))) = map Username (users_of d)"
  by (auto simp: checkAndPinUID_def Let_def split: sum.split option.split)

lemma find_user_None_iff: "find_user n us = None \<longleftrightarrow> n \<notin> set (map Username us)"
  by (auto simp: find_user_def find_None_iff)

lemma auth_loop_cases:
  obtains "auth_loop sha lookup saveErr provided us d = (None, d)"
  | u where "u \<in> set us" "token_matches sha provided u"
    "auth_loop sha lookup saveErr provided us d =
       (if fst (checkAndPinUID lookup saveErr (Username u) d) then Some (Username u) else None,
        snd (checkAndPinUID lookup saveErr (Username u) d))"
proof (induction us)
  case (Cons u us)
  show ?case
  proof (cases "token_matches sha provided u")
    case True
    then show ?thesis using Cons.prems(2) [of u] by (simp add: split_beta)
  next
    case False
    then show ?thesis using Cons by (metis auth_loop.simps(2) list.set_intros(2))
  qed
qed simp

lemma authenticateRequest_cases:
  obtains "authenticateRequest sha lookup saveErr hdr d = (None, d)"
  | u where "u \<in> set (users_of d)" "has_prefix hdr ''Bearer ''" "token_matches sha (trim_prefix hdr ''Bearer '') u"
    "authenticateRequest sha lookup saveErr hdr d =
       (if fst (checkAndPinUID lookup saveErr (Username u) d) then Some (Username u) else None,
        snd (checkAndPinUID lookup saveErr (Username u) d))"
proof (cases "has_prefix hdr ''Bearer ''")
  case True
  then have a: "authenticateRequest sha lookup saveErr hdr d =
      auth_loop sha lookup saveErr (trim_prefix hdr ''Bearer '') (users_of d) d" by (simp add: authenticateRequest_def)
  show ?thesis
    by (rule auth_loop_cases [of sha lookup saveErr "trim_prefix hdr ''Bearer ''" "users_of d" d])
      (use a True that in simp_all)
qed (use that in \<open>simp add: authenticateRequest_def\<close>)

lemma authenticateRequest_names [simp]:
  "map Username (users_of (snd (authenticateRequest sha lookup saveErr hdr d))) = map Username (users_of d)"
  by (cases rule: authenticateRequest_cases [of sha lookup saveErr hdr d]) simp_all

lemma authenticateRequest_keeps_pin:
  "pin_of n d \<noteq> [] \<Longrightarrow> pin_of n (snd (authenticateRequest sha lookup saveErr hdr d)) = pin_of n d"
  by (cases rule: authenticateRequest_cases [of sha lookup saveErr hdr d]) (simp_all add: checkAndPinUID_pins)

lemma authenticateRequest_pinned:
  assumes "fst (authenticateRequest sha lookup saveErr hdr d) = Some n" and "lookup n = Inr a"
  shows "pin_of n (snd (authenticateRequest sha lookup saveErr hdr d)) = Uid a"
proof (cases rule: authenticateRequest_cases [of sha lookup saveErr hdr d])
  case 1
  then show ?thesis using assms by simp
next
  case (2 u)
  then have n: "n = Username u" "fst (checkAndPinUID lookup saveErr n d)" using assms(1) by (auto split: if_splits)
  have "find_user n (users_of d) \<noteq> None" using 2(1) n(1) by (auto simp: find_user_None_iff)
  then show ?thesis using checkAndPinUID_ok [OF n(2) assms(2)] 2(4) n(1) by simp
qed

text \<open>
  A sequence of requests, each with the account table of its moment, the outcome of its write to disk and
  its \<open>Authorization\<close> header; with each answer.
\<close>

fun auth_run ::
  "(string \<Rightarrow> string) \<Rightarrow> (accounts \<times> (string \<Rightarrow> goerr option) \<times> string) list \<Rightarrow> 'l daemon \<Rightarrow> string option list \<times> 'l daemon" where
  "auth_run sha [] d = ([], d)"
| "auth_run sha ((lookup, saveErr, hdr) # rs) d =
     (let (r, d1) = authenticateRequest sha lookup saveErr hdr d; (out, d2) = auth_run sha rs d1 in (r # out, d2))"

lemma auth_run_keeps_pin: "pin_of n d \<noteq> [] \<Longrightarrow> pin_of n (snd (auth_run sha rs d)) = pin_of n d"
proof (induction sha rs d rule: auth_run.induct)
  case (2 sha lookup saveErr hdr rs d)
  then show ?case using "2.IH" [OF refl prod.collapse] by (simp add: split_beta Let_def authenticateRequest_keeps_pin)
qed simp

lemma auth_run_pinned:
  assumes "pin_of n d \<noteq> []" and "fst (auth_run sha rs d) ! j = Some n" and "j < length rs"
    and "fst (rs ! j) n = Inr a"
  shows "Uid a = pin_of n d"
  using assms
proof (induction sha rs d arbitrary: j rule: auth_run.induct)
  case (2 sha lookup saveErr hdr rs d)
  let ?d1 = "snd (authenticateRequest sha lookup saveErr hdr d)"
  have k: "pin_of n ?d1 = pin_of n d" using authenticateRequest_keeps_pin "2.prems"(1) .
  show ?case
  proof (cases j)
    case 0
    then show ?thesis using "2.prems" authenticateRequest_pinned k by (fastforce simp: split_beta Let_def)
  next
    case (Suc i)
    then show ?thesis using "2.IH" [OF refl prod.collapse, of i] "2.prems" k by (simp add: split_beta Let_def)
  qed
qed simp


definition ex_user :: "string \<Rightarrow> string \<Rightarrow> daemon_user" where
  "ex_user name tok = \<lparr>Username = name, Token = tok, TokenSalt = [], TokenHash = [], CreatedAt = [], PinnedUID = [], OSUID = []\<rparr>"

definition ex_users_doc :: node where
  "ex_users_doc = Node DocumentNode [] []
     [Node MappingNode [] []
       [ScalarNode ''users'', Node SequenceNode [] []
         [Node MappingNode [] [''# the operator''] [ScalarNode ''username'', ScalarNode ''alice'', ScalarNode ''token'', ScalarNode ''t'']]]]"

definition ex_dm :: "unit daemon" where
  "ex_dm = \<lparr>daemonConfig = ex_daemon\<lparr>dc_Users := [ex_user ''alice'' ''t'']\<rparr>, usersPath = ''configs/users.yaml'',
     disk = (\<lambda>p. if p = ''configs/users.yaml'' then Inr ex_users_doc else Inl ''no such file''),
     limiterManager = NewLimiterManager 50 100, sessions = [], sessionCounter = 0,
     log_settings = \<lparr>level = LevelInfo, accessOn = True, format = [], json_handler = None\<rparr>\<rparr>"

definition ex_requests :: "(accounts \<times> (string \<Rightarrow> goerr option) \<times> string) list" where
  "ex_requests = replicate 2 (ex_accounts, (\<lambda>_. None), ''Bearer t'')"

lemma ex_run: "fst (auth_run id ex_requests ex_dm) = [Some ''alice'', Some ''alice'']"
  by code_simp


lemma map_update_user: "(\<And>u. g (f u) = g u) \<Longrightarrow> map g (update_user name f us) = map g us"
  by (induction us) auto

lemma checkAndPinUID_frame:
  "snd (checkAndPinUID lookup saveErr username d) =
   d\<lparr>daemonConfig := (daemonConfig d)\<lparr>dc_Users := users_of (snd (checkAndPinUID lookup saveErr username d))\<rparr>,
     disk := disk (snd (checkAndPinUID lookup saveErr username d))\<rparr>"
  "map (\<lambda>u. (Username u, Token u, TokenSalt u, TokenHash u)) (users_of (snd (checkAndPinUID lookup saveErr username d))) =
   map (\<lambda>u. (Username u, Token u, TokenSalt u, TokenHash u)) (users_of d)"
  by (auto simp: checkAndPinUID_def set_users_def Let_def map_update_user split: sum.split option.split)

lemma checkAndPinUID_allowed:
  assumes "fst (checkAndPinUID lookup saveErr n d)" and "lookup n = Inr a" and "find_user n (users_of d) \<noteq> None"
  shows "pin_of n d \<in> {[], Uid a}"
  using assms by (auto simp: checkAndPinUID_def pin_of_def Let_def split: if_splits option.splits)



text \<open>The entries of \<open>users:\<close> in a document.\<close>

definition users_items :: "node \<Rightarrow> node list option" where
  "users_items doc =
     (case Content doc of [] \<Rightarrow> None | rnode # _ \<Rightarrow> map_option Content (MapGet (Some rnode) ''users''))"

lemma pin_items_Some:
  "pin_items username pinned osuid items = Some items' \<Longrightarrow>
   \<exists>i. i < length items \<and> item_username (items ! i) = Some username \<and> (\<forall>j < i. item_username (items ! j) \<noteq> Some username) \<and>
       items' = items[i := pin_item pinned osuid (items ! i)]"
proof (induction items arbitrary: items')
  case (Cons item items)
  show ?case
  proof (cases "item_username item = Some username")
    case True
    then show ?thesis using Cons.prems by (intro exI [of _ 0]) auto
  next
    case False
    then obtain r where r: "pin_items username pinned osuid items = Some r" "items' = item # r" using Cons.prems by auto
    then obtain i where "i < length items" "item_username (items ! i) = Some username"
        "\<forall>j < i. item_username (items ! j) \<noteq> Some username" "r = items[i := pin_item pinned osuid (items ! i)]"
      using Cons.IH by blast
    then show ?thesis using r False by (intro exI [of _ "Suc i"]) (auto simp: less_Suc_eq_0_disj)
  qed
qed simp

lemma pin_item_get:
  "mapping_wf item \<Longrightarrow> MapGet (Some (pin_item pinned osuid item)) k =
     (if k = ''os_uid'' then Some (ScalarNode osuid) else if k = ''pinned_uid'' then Some (ScalarNode pinned)
      else MapGet (Some item) k)"
  by (simp add: pin_item_def MapGet_MapSet mapping_wf_MapSet)

lemma MapGet_replaced: "MapGet (Some m) k = Some v \<Longrightarrow> MapGet (Some (MapSet k w m)) k = Some w"
  by (auto simp: MapGet_def MapSet_def content_replace_get content_get_None content_replace_None split: option.splits)
    (metis content_get_None content_replace_None option.distinct(1))



end
