(* ===== verification/DaemonReload.thy ===== *)
theory DaemonReload
  imports DaemonAuth
begin

text \<open>
  Loading and reloading the configuration (\<^verbatim>\<open>cmd/mcpd/reload.go\<close>,
  \<^verbatim>\<open>cmd/mcpd/types.go\<close>). The handler's state carries the daemon's variables in
  \<open>outer\<close>, so \<open>reloadConfig\<close> is the reload callback of the RPC layer. The files are given as
  what their decoders say of them. A difference between a nil and an empty list, which
  \<open>reflect.DeepEqual\<close> would report, does not exist in the model; it only shows in the text of the answer.
\<close>

subsection \<open>What changed\<close>

definition sortedKeys :: "string list \<Rightarrow> string list" where
  "sortedKeys ks = sort (remdups ks)"

definition orDefault :: "string \<Rightarrow> string \<Rightarrow> string" where
  "orDefault s d = (if s = [] then d else s)"

text \<open>\<open>%v\<close> and \<open>%q\<close> of a slice of strings.\<close>

definition list_v :: "string list \<Rightarrow> string" where
  "list_v xs = ''['' @ join_with '' '' xs @ '']''"

definition list_q :: "string list \<Rightarrow> string" where
  "list_q xs = ''['' @ join_with '' '' (map quoted xs) @ '']''"

definition grantDetail :: "tool_privilege \<Rightarrow> string" where
  "grantDetail t =
     '' ('' @ join_with ''; ''
       ([if tp_Allowed t then ''root'' else ''no root''] @
        (if Paths t \<noteq> [] then [''paths '' @ list_v (Paths t)] else []) @
        (if Containers t \<noteq> [] then [''containers '' @ list_v (Containers t)] else []) @
        (if Network t \<noteq> None then [''network policy''] else []) @
        (case Sysctl t of
           Some s \<Rightarrow> if WriteKeys s \<noteq> [] then [''sysctl write_keys '' @ list_v (WriteKeys s)] else []
         | None \<Rightarrow> [])) @ '')''"

type_synonym secrets = "string \<times> string \<times> string"

definition token_map :: "daemon_user list \<Rightarrow> (string \<times> secrets) list" where
  "token_map us = foldl (\<lambda>m u. map_put (Username u) (Token u, TokenSalt u, TokenHash u) m) [] us"

text \<open>One line per difference between two maps, over the sorted keys of both.\<close>

definition map_changes ::
  "(string \<Rightarrow> string) \<Rightarrow> (string \<Rightarrow> 'v \<Rightarrow> string) \<Rightarrow> (string \<Rightarrow> 'v \<Rightarrow> string) \<Rightarrow> (string \<times> 'v) list \<Rightarrow> (string \<times> 'v) list \<Rightarrow> string list" where
  "map_changes removed added changed p n =
     concat (map (\<lambda>k. case (map_of p k, map_of n k) of
         (_, None) \<Rightarrow> [removed k]
       | (None, Some v) \<Rightarrow> [added k v]
       | (Some w, Some v) \<Rightarrow> if w \<noteq> v then [changed k v] else [])
       (sortedKeys (map fst p @ map fst n)))"

text \<open>The users whose sessions must end: removed, or their token changed.\<close>

definition close_users :: "daemon_user list \<Rightarrow> daemon_user list \<Rightarrow> string list" where
  "close_users prev next1 =
     (let p = token_map prev; n = token_map next1
      in filter (\<lambda>k. map_of n k = None \<or> (map_of p k \<noteq> None \<and> map_of p k \<noteq> map_of n k)) (sortedKeys (map fst p @ map fst n)))"

definition user_changes :: "daemon_user list \<Rightarrow> daemon_user list \<Rightarrow> string list" where
  "user_changes prev next1 =
     map_changes (\<lambda>k. ''user '' @ k @ '': removed'') (\<lambda>k _. ''user '' @ k @ '': added'') (\<lambda>k _. ''user '' @ k @ '': token changed'')
       (token_map prev) (token_map next1)"

definition no_grants :: privileged_config where
  "no_grants = \<lparr>Tools = [], Resources = []\<rparr>"

definition grants_for :: "sudo_config \<Rightarrow> string \<Rightarrow> privileged_config" where
  "grants_for c u = (case map_of (Users c) u of None \<Rightarrow> no_grants | Some us \<Rightarrow> Privileged us)"

definition grant_changes :: "sudo_config \<Rightarrow> sudo_config \<Rightarrow> string list" where
  "grant_changes prev next1 =
     concat (map (\<lambda>name.
       (let p = grants_for prev name; n = grants_for next1 name; g = ''grants '' @ name @ '': '' in
        map_changes (\<lambda>t. g @ ''- '' @ t) (\<lambda>t v. g @ ''+ '' @ t @ grantDetail v) (\<lambda>t v. g @ ''~ '' @ t @ grantDetail v)
          (Tools p) (Tools n) @
        map_changes (\<lambda>r. g @ ''- resource '' @ r) (\<lambda>r v. g @ ''+ resource '' @ r @ '' '' @ list_q v)
          (\<lambda>r v. g @ ''~ resource '' @ r @ '' '' @ list_q v) (Resources p) (Resources n)))
       (sortedKeys (map fst (Users prev) @ map fst (Users next1))))"

text \<open>\<open>fmt_g\<close> is \<open>fmt\<close>'s \<open>%g\<close> of a rate.\<close>

definition configChanges ::
  "(rat \<Rightarrow> string) \<Rightarrow> daemon_config \<Rightarrow> daemon_config \<Rightarrow> sudo_config \<Rightarrow> sudo_config \<Rightarrow> string list \<times> string list" where
  "configChanges fmt_g prev next1 prevSudo nextSudo =
     (user_changes (dc_Users prev) (dc_Users next1) @ grant_changes prevSudo nextSudo @
      (if RateLimits prev \<noteq> RateLimits next1
       then [''rate limits: '' @ fmt_g (DefaultRPS (RateLimits next1)) @ '' rps, burst '' @ int_str (DefaultBurst (RateLimits next1))]
       else []) @
      (if Logging prev \<noteq> Logging next1
       then [''logging: level '' @ orDefault (log_Level (Logging next1)) ''info'' @ '', format '' @
             orDefault (log_Format (Logging next1)) ''text'' @ '', access log '' @ bool_str (AccessLog (Logging next1) \<noteq> Some False)]
       else []) @
      (if TimeoutSeconds (Worker prev) \<noteq> TimeoutSeconds (Worker next1) \<or> dc_Tools prev \<noteq> dc_Tools next1
       then [''tool timeouts: default '' @ int_str (TimeoutSeconds (Worker next1)) @ ''s''] else []),
      close_users (dc_Users prev) (dc_Users next1))"

definition restartOnlyChanges :: "daemon_config \<Rightarrow> daemon_config \<Rightarrow> string list" where
  "restartOnlyChanges running onDisk =
     (let r = Server running; d = Server onDisk; rw = Worker running; dw = Worker onDisk in
      (if Port d \<noteq> Port r then [''server.port: '' @ int_str (Port r) @ '' -> '' @ int_str (Port d)] else []) @
      (if TLS d \<noteq> TLS r then [''server.tls''] else []) @
      (if SSEKeepaliveSeconds d \<noteq> SSEKeepaliveSeconds r
       then [''server.sse_keepalive_seconds: '' @ int_str (SSEKeepaliveSeconds r) @ '' -> '' @ int_str (SSEKeepaliveSeconds d)] else []) @
      (if HTTP d \<noteq> HTTP r then [''server.http''] else []) @
      (if cfg_Containerized dw \<noteq> cfg_Containerized rw
       then [''worker.containerized: '' @ bool_str (cfg_Containerized rw) @ '' -> '' @ bool_str (cfg_Containerized dw)] else []) @
      (if DockerSocket dw \<noteq> DockerSocket rw
       then [''worker.docker_socket: '' @ quoted (DockerSocket rw) @ '' -> '' @ quoted (DockerSocket dw)] else []))"

subsection \<open>Reloading\<close>

text \<open>The files a reload reads, as the decoders' answers, and the directory they are in.\<close>

record config_files =
  cf_lookup :: accounts
  cf_dir :: string
  cf_daemon :: "string \<Rightarrow> (bool \<Rightarrow> daemon_config result) file_read"
  cf_users :: "string \<Rightarrow> (bool \<Rightarrow> daemon_user list result) file_read"
  cf_sudo :: "(bool \<Rightarrow> sudo_config result) result"
  cf_fmt_g :: "rat \<Rightarrow> string"

definition sudoConfigPath :: "config_files \<Rightarrow> string" where
  "sudoConfigPath f = join_path (cf_dir f) SudoFile"

definition closeSessions :: "string list \<Rightarrow> (string \<times> sse_session) list \<Rightarrow> nat \<times> (string \<times> sse_session) list" where
  "closeSessions users ss =
     (if users = [] then (0, ss)
      else (length (filter (\<lambda>(i, s). sess_User (sse s) \<in> set users) ss),
            map (\<lambda>(i, s). (i, if sess_User (sse s) \<in> set users then sess_Close s else s)) ss))"

definition legacyUsersWarning :: "string \<Rightarrow> daemon_config \<Rightarrow> string \<Rightarrow> string" where
  "legacyUsersWarning dir c users =
     (if users \<noteq> join_path dir DaemonFile \<or> dc_Users c = [] then []
      else ''users are still listed in '' @ join_path dir DaemonFile @ '' - they now belong in '' @ join_path dir UsersFile @
           '' (linuxctl moves them on its next user change)'')"

text \<open>The settings of the listeners and of the worker's namespaces stay as they are until a restart.\<close>

definition keep_running :: "daemon_config \<Rightarrow> daemon_config \<Rightarrow> daemon_config" where
  "keep_running prev next1 =
     next1\<lparr>Server := Server prev,
           Worker := (Worker next1)\<lparr>cfg_Containerized := cfg_Containerized (Worker prev), DockerSocket := DockerSocket (Worker prev)\<rparr>\<rparr>"

definition reload_text :: "config_files \<Rightarrow> string \<Rightarrow> daemon_config \<Rightarrow> string list \<Rightarrow> nat \<Rightarrow> string list \<Rightarrow> string" where
  "reload_text f path next1 changes n restartOnly =
     (let daemonPath = join_path (cf_dir f) DaemonFile; indent = concat \<circ> map (\<lambda>c. ''  '' @ c @ newline) in
      (if path = daemonPath then ''Reloaded '' @ daemonPath @ '' (including its users) and '' @ sudoConfigPath f @ ''.'' @ newline
       else ''Reloaded '' @ daemonPath @ '', '' @ path @ '' and '' @ sudoConfigPath f @ ''.'' @ newline) @
      (if changes = [] then ''No changes.'' @ newline else ''Changes:'' @ newline @ indent changes) @
      (if n > 0 then ''Closed '' @ nat_str n @ '' session(s) of removed users or users whose token changed.'' @ newline else []) @
      (if restartOnly \<noteq> [] then ''Need a restart to take effect (not applied):'' @ newline @ indent restartOnly else []) @
      (let w = legacyUsersWarning (cf_dir f) next1 path in if w \<noteq> [] then ''Note: '' @ w @ newline else []))"

definition reloadConfig ::
  "config_files \<Rightarrow> string \<Rightarrow> 'l daemon rpc_state \<Rightarrow> string result \<times> 'l daemon rpc_state" where
  "reloadConfig f byUser st =
     (case LoadConfigDir (cf_lookup f) (cf_daemon f) (cf_users f) (cf_dir f) True of
        Inl e \<Rightarrow> (Inl (''config not reloaded, the current one stays in effect: '' @ e), st)
      | Inr (next1, nextUsersPath) \<Rightarrow>
     (case LoadSudoConfigStrict (sudoConfigPath f) (cf_sudo f) of
        Inl e \<Rightarrow> (Inl (''config not reloaded, the current one stays in effect: '' @ e), st)
      | Inr nextSudo \<Rightarrow>
          (let d = outer st; prev = daemonConfig d;
               restartOnly = restartOnlyChanges prev next1;
               (changes, closing) = configChanges (cf_fmt_g f) prev next1 (s_sudo (settings st)) nextSudo;
               next2 = keep_running prev next1;
               (n, ss) = closeSessions closing (sessions d);
               d' = d\<lparr>daemonConfig := next2, usersPath := nextUsersPath,
                      limiterManager := NewLimiterManager (DefaultRPS (RateLimits next2)) (DefaultBurst (RateLimits next2)),
                      sessions := ss, log_settings := Configure (Logging next2) (log_settings d)\<rparr>;
               st' = (Reconfigure nextSudo (TimeoutSeconds (Worker next2)) (dc_Tools next2) st)\<lparr>outer := d'\<rparr>
           in (Inr (reload_text f nextUsersPath next2 changes n restartOnly), st'))))"

text \<open>The start-up: strict first, then once more ignoring unknown keys.\<close>

definition loadConfig :: "config_files \<Rightarrow> (daemon_config \<times> string) result" where
  "loadConfig f =
     (case LoadConfigDir (cf_lookup f) (cf_daemon f) (cf_users f) (cf_dir f) True of
        Inr r \<Rightarrow> Inr r
      | Inl _ \<Rightarrow> LoadConfigDir (cf_lookup f) (cf_daemon f) (cf_users f) (cf_dir f) False)"


subsection \<open>What a reload guarantees\<close>

definition secret_of :: "daemon_user list \<Rightarrow> string \<Rightarrow> secrets option" where
  "secret_of us n = map_option (\<lambda>u. (Token u, TokenSalt u, TokenHash u)) (find_user n us)"

lemma map_of_token_map_gen:
  "distinct (map Username us) \<Longrightarrow>
   map_of (foldl (\<lambda>m u. map_put (Username u) (Token u, TokenSalt u, TokenHash u) m) m0 us) n =
   (case secret_of us n of Some s \<Rightarrow> Some s | None \<Rightarrow> map_of m0 n)"
proof (induction us arbitrary: m0)
  case (Cons u us)
  then have "n = Username u \<Longrightarrow> secret_of us n = None" by (simp add: secret_of_def find_user_None_iff)
  then show ?case using Cons by (auto simp: secret_of_def find_user_def split: option.split)
qed (simp add: secret_of_def find_user_def)

lemma map_of_token_map: "distinct (map Username us) \<Longrightarrow> map_of (token_map us) n = secret_of us n"
  by (simp add: token_map_def map_of_token_map_gen split: option.split)

lemma set_sortedKeys: "set (sortedKeys ks) = set ks"
  by (simp add: sortedKeys_def)

lemma token_map_keys: "distinct (map Username us) \<Longrightarrow> n \<in> set (map fst (token_map us)) \<longleftrightarrow> secret_of us n \<noteq> None"
  using map_of_eq_None_iff [of "token_map us" n] by (simp add: map_of_token_map)

lemma close_users_iff:
  assumes "distinct (map Username prev)" and "distinct (map Username next1)"
  shows "n \<in> set (close_users prev next1) \<longleftrightarrow> secret_of prev n \<noteq> None \<and> secret_of prev n \<noteq> secret_of next1 n"
  using token_map_keys [OF assms(1), of n] token_map_keys [OF assms(2), of n]
  unfolding close_users_def Let_def set_filter mem_Collect_eq set_sortedKeys set_append Un_iff
    map_of_token_map [OF assms(1)] map_of_token_map [OF assms(2)] by auto

lemma LoadDaemonConfig_users_ok:
  "LoadDaemonConfig lookup files p strict = Inr c \<Longrightarrow> users_ok lookup (dc_Users c)"
  using ParseDaemonConfig_cases by (auto simp: LoadDaemonConfig_def split: file_read.splits sum.splits) metis

lemma LoadConfigDir_users_ok:
  "LoadConfigDir lookup files ufiles dir strict = Inr (c, p) \<Longrightarrow> users_ok lookup (dc_Users c)"
  using validateUsers_iff LoadDaemonConfig_users_ok
  by (fastforce simp: LoadConfigDir_def Let_def ParseUsersConfig_def split: sum.splits file_read.splits if_splits)

lemma keep_running_simps [simp]:
  "dc_Users (keep_running prev next1) = dc_Users next1" "Server (keep_running prev next1) = Server prev"
  "RateLimits (keep_running prev next1) = RateLimits next1"
  by (simp_all add: keep_running_def)

lemma closeSessions_spec:
  "snd (closeSessions users ss) = map (\<lambda>(i, s). (i, if sess_User (sse s) \<in> set users then sess_Close s else s)) ss"
  by (auto simp: closeSessions_def)

lemma reloadConfig_cases:
  obtains e where "reloadConfig f byUser st = (Inl e, st)"
  | next1 path sudo ans where "LoadConfigDir (cf_lookup f) (cf_daemon f) (cf_users f) (cf_dir f) True = Inr (next1, path)"
      "LoadSudoConfigStrict (sudoConfigPath f) (cf_sudo f) = Inr sudo"
      "reloadConfig f byUser st = (Inr ans,
         (Reconfigure sudo (TimeoutSeconds (Worker (keep_running (daemonConfig (outer st)) next1))) (dc_Tools next1) st)
         \<lparr>outer := (outer st)\<lparr>daemonConfig := keep_running (daemonConfig (outer st)) next1, usersPath := path,
            limiterManager := NewLimiterManager (DefaultRPS (RateLimits next1)) (DefaultBurst (RateLimits next1)),
            sessions := snd (closeSessions (close_users (users_of (outer st)) (dc_Users next1)) (sessions (outer st))),
            log_settings := Configure (Logging next1) (log_settings (outer st))\<rparr>\<rparr>)"
proof (cases "LoadConfigDir (cf_lookup f) (cf_daemon f) (cf_users f) (cf_dir f) True")
  case (Inl e)
  then show ?thesis using that(1) by (simp add: reloadConfig_def)
next
  case (Inr r)
  obtain next1 path where r: "r = (next1, path)" by fastforce
  show ?thesis
  proof (cases "LoadSudoConfigStrict (sudoConfigPath f) (cf_sudo f)")
    case (Inl e)
    then show ?thesis using that(1) Inr r by (simp add: reloadConfig_def)
  next
    case Sudo: (Inr sudo)
    then show ?thesis using that(2) [of next1 path sudo] Inr r
      by (simp add: reloadConfig_def Let_def split_beta configChanges_def keep_running_def)
  qed
qed

text \<open>
  C6. A reload is all or nothing. When any of the files is refused nothing changes at all. Otherwise users and
  grants switch together to validated files, every cached answer is dropped, the rate limiter starts
  afresh with the new limits, the listeners keep their settings, and of the open sessions exactly those end
  whose user was removed or has another token now.
\<close>

theorem reloadConfig_atomic:
  assumes "reloadConfig f byUser st = (r, st')" and "distinct (map Username (users_of (outer st)))"
  shows "case r of
      Inl _ \<Rightarrow> st' = st
    | Inr _ \<Rightarrow>
        LoadSudoConfigStrict (sudoConfigPath f) (cf_sudo f) = Inr (s_sudo (settings st')) \<and>
        users_ok (cf_lookup f) (users_of (outer st')) \<and> RpcCache st' = [] \<and> ResourceCache st' = [] \<and>
        limiterManager (outer st') = NewLimiterManager (DefaultRPS (RateLimits (daemonConfig (outer st'))))
          (DefaultBurst (RateLimits (daemonConfig (outer st')))) \<and>
        Server (daemonConfig (outer st')) = Server (daemonConfig (outer st)) \<and>
        sessions (outer st') = map (\<lambda>(i, s). (i,
          if secret_of (users_of (outer st)) (sess_User (sse s)) \<noteq> None \<and>
             secret_of (users_of (outer st)) (sess_User (sse s)) \<noteq> secret_of (users_of (outer st')) (sess_User (sse s))
          then s\<lparr>Done := True\<rparr> else s)) (sessions (outer st))"
proof (cases rule: reloadConfig_cases [of f byUser st])
  case (1 e)
  then show ?thesis using assms(1) by auto
next
  case (2 next1 path sudo ans)
  have u: "users_ok (cf_lookup f) (dc_Users next1)" using LoadConfigDir_users_ok [OF 2(1)] .
  then have d: "distinct (map Username (dc_Users next1))" by (simp add: users_ok_def)
  show ?thesis using assms(1) 2 u
    by (auto simp: Reconfigure_def cache_Clear_def closeSessions_spec sess_Close_def close_users_iff [OF assms(2) d])
qed


definition ex_files :: config_files where
  "ex_files = \<lparr>cf_lookup = ex_accounts, cf_dir = ''configs'', cf_daemon = (\<lambda>_. Readable (\<lambda>_. Inr (ex_daemon\<lparr>dc_Users := []\<rparr>))),
     cf_users = (\<lambda>_. Readable (\<lambda>_. Inr [ex_user ''bob'' ''b''])), cf_sudo = Inr (\<lambda>_. Inr \<lparr>Users = []\<rparr>), cf_fmt_g = (\<lambda>_. [])\<rparr>"

definition ex_dm_state :: "unit daemon rpc_state" where
  "ex_dm_state = NewRPCHandler ex_sudo 30 [] [(''os://uname'', \<lparr>Payload = [], MimeType = [], ExpiresAt = 9\<rparr>)]
     (ex_dm\<lparr>sessions := [(''s-1'', \<lparr>sse = ex_session, Done = False\<rparr>)]\<rparr>)"

lemma ex_reload_ok: "\<exists>t st'. reloadConfig ex_files ''alice'' ex_dm_state = (Inr t, st')"
proof -
  have v: "log_Validate (Logging ex_daemon) = Inr ()" by code_simp
  have "\<exists>r. LoadConfigDir ex_accounts (cf_daemon ex_files) (cf_users ex_files) ''configs'' True = Inr r"
    using v by (simp add: LoadConfigDir_def LoadDaemonConfig_def ParseUsersConfig_def ParseDaemonConfig_def ex_daemon_def
        default_ports_def default_cert_def default_limits_def Listeners_def validateUsers_def ex_accounts_def Let_def ex_files_def ex_user_def)
  moreover have "LoadSudoConfigStrict (sudoConfigPath ex_files) (cf_sudo ex_files) = Inr \<lparr>Users = []\<rparr>"
    by (simp add: LoadSudoConfigStrict_def ParseSudoConfig_def ex_files_def)
  moreover have "cf_lookup ex_files = ex_accounts" "cf_dir ex_files = ''configs''" by (simp_all add: ex_files_def)
  ultimately show ?thesis by (auto simp: reloadConfig_def Let_def split_beta)
qed

theorem reloadConfig_atomic_witness:
  "\<exists>t st'. reloadConfig ex_files ''alice'' ex_dm_state = (Inr t, st') \<and> ResourceCache st' = [] \<and>
     users_ok ex_accounts (users_of (outer st')) \<and> list_all (\<lambda>(i, s). Done s) (sessions (outer st'))"
proof -
  obtain t st' where r: "reloadConfig ex_files ''alice'' ex_dm_state = (Inr t, st')" using ex_reload_ok by blast
  have o: "outer ex_dm_state = ex_dm\<lparr>sessions := [(''s-1'', \<lparr>sse = ex_session, Done = False\<rparr>)]\<rparr>"
    by (simp add: ex_dm_state_def NewRPCHandler_def Reconfigure_def)
  then have d: "distinct (map Username (users_of (outer ex_dm_state)))" by (simp add: ex_dm_def ex_user_def)
  have n: "users_of (outer st') = [ex_user ''bob'' ''b'']"
    using r by (cases rule: reloadConfig_cases [of ex_files "''alice''" ex_dm_state])
      (auto simp: LoadConfigDir_def ex_files_def Let_def ParseUsersConfig_def split: sum.splits if_splits)
  have "sess_User ex_session = ''alice''" by (simp add: ex_session_def)
  then show ?thesis using reloadConfig_atomic [OF r d] r n
    by (simp add: o ex_files_def secret_of_def find_user_def ex_user_def ex_dm_def)
qed

end
