(* ===== verification/Daemon.thy ===== *)
theory Daemon
  imports DaemonReload
begin

text \<open>
  The network daemon and the stdio server (\<^verbatim>\<open>cmd/mcpd/http.go\<close>,
  \<^verbatim>\<open>cmd/mcpd/stdio.go\<close>, \<^verbatim>\<open>cmd/mcpd/main.go\<close>) as a whole: the HTTP
  handlers, the sessions, and a step relation in which requests of any number of clients interleave with
  each other, with reloads and with streams that end. The properties of the components meet here: whatever
  happens, nothing runs as root that the grants did not give to the user whose token was presented.
\<close>

subsection \<open>HTTP\<close>

record http_request =
  hr_Method :: string
  hr_Authorization :: string
  hr_ForwardedFor :: string
  hr_RemoteAddr :: string
  hr_session_id :: string
  hr_Body :: "json option result"

definition clientIP :: "http_request \<Rightarrow> string" where
  "clientIP r =
     (if hr_ForwardedFor r \<noteq> [] then trim_space (hd (split_on CHR '','' (hr_ForwardedFor r)))
      else case SplitHostPort (hr_RemoteAddr r) of Inl _ \<Rightarrow> hr_RemoteAddr r | Inr (hst, _) \<Rightarrow> hst)"

text \<open>\<open>userFromContext\<close>: the name the middleware authenticated, unless it is empty.\<close>

definition userFromContext :: "string option \<Rightarrow> string option" where
  "userFromContext c = (case c of Some u \<Rightarrow> if u = [] then None else Some u | None \<Rightarrow> None)"

datatype http_answer = HttpError nat string | StatusAccepted | EventStream string

definition hex_digit :: "nat \<Rightarrow> char" where
  "hex_digit n = (if n < 10 then char_of (48 + n) else char_of (87 + n))"

definition hex_string :: "8 word list \<Rightarrow> string" where
  "hex_string bs = concat (map (\<lambda>b. [hex_digit (unat b div 16), hex_digit (unat b mod 16)]) bs)"

text \<open>
  \<open>newSessionID\<close>: eight random bytes, or, when the random source fails, the clock's 64 bits in
  big-endian order.
\<close>

definition big_endian64 :: "64 word \<Rightarrow> 8 word list" where
  "big_endian64 t = map (\<lambda>i. ucast (drop_bit (8 * (7 - i)) t)) [0..<8]"

definition newSessionID :: "8 word list option \<Rightarrow> 64 word \<Rightarrow> string" where
  "newSessionID random now = hex_string (case random of Some b \<Rightarrow> b | None \<Rightarrow> big_endian64 now)"

text \<open>The first half of \<open>handleSSE\<close>: a new session is registered and its id sent.\<close>

definition handleSSE_open :: "string \<Rightarrow> string option \<Rightarrow> 'l daemon \<Rightarrow> http_answer \<times> 'l daemon" where
  "handleSSE_open newid ctx d =
     (case userFromContext ctx of
        None \<Rightarrow> (HttpError 401 ''Unauthorized'', d)
      | Some u \<Rightarrow>
          (let n = sessionCounter d + 1; i = newid @ ''-'' @ int_str n
           in (EventStream i, d\<lparr>sessionCounter := n,
                 sessions := map_put i \<lparr>sse = \<lparr>sess_ID = i, sess_User = u\<rparr>, Done = False\<rparr> (sessions d)\<rparr>)))"

text \<open>
  Its end, when the client goes away or \<open>Done\<close> is closed: the session leaves the table and its
  channel is closed, so a session's channel is open exactly while it is in the table.
\<close>

definition handleSSE_end :: "string \<Rightarrow> 'l daemon \<Rightarrow> 'l daemon" where
  "handleSSE_end i d = d\<lparr>sessions := map_del i (sessions d)\<rparr>"

text \<open>The interval of the keepalive comments; a stored value that is not positive means the default.\<close>

definition keepalive_interval :: "int \<Rightarrow> int" where
  "keepalive_interval stored = (if stored \<le> 0 then DefaultSSEKeepalive else stored)"

text \<open>The lines of a stream.\<close>

datatype sse_line = Endpoint string | Message json | Ping

definition sse_text :: "(json \<Rightarrow> string) \<Rightarrow> sse_line \<Rightarrow> string" where
  "sse_text enc l =
     (case l of
        Endpoint i \<Rightarrow> ''event: endpoint'' @ newline @ ''data: /message?session_id='' @ i @ newline @ newline
      | Message v \<Rightarrow> ''event: message'' @ newline @ ''data: '' @ enc v @ newline @ newline
      | Ping \<Rightarrow> '': ping'' @ newline @ newline)"

text \<open>
  \<open>handleMessage\<close>: the answer, the request to be processed in its own goroutine, if any, and the
  state, in which only the rate limiter may have changed.
\<close>

definition handleMessage ::
  "(rat \<Rightarrow> int \<Rightarrow> 'l) \<Rightarrow> (int \<Rightarrow> 'l \<Rightarrow> bool \<times> 'l) \<Rightarrow> int \<Rightarrow> http_request \<Rightarrow> string option \<Rightarrow> 'l daemon \<Rightarrow>
   http_answer \<times> (session \<times> JSONRPCRequest) option \<times> 'l daemon" where
  "handleMessage newl allow now r ctx d =
     (if hr_Method r \<noteq> ''POST'' then (HttpError 405 ''Method Not Allowed'', None, d)
      else case userFromContext ctx of
        None \<Rightarrow> (HttpError 401 ''Unauthorized'', None, d)
      | Some username \<Rightarrow>
     (if hr_session_id r = [] then (HttpError 400 ''Missing session_id in query parameters'', None, d)
      else case map_of (sessions d) (hr_session_id r) of
        None \<Rightarrow> (HttpError 400 ''No active SSE session'', None, d)
      | Some s \<Rightarrow>
     (if sess_User (sse s) \<noteq> username then (HttpError 403 ''Forbidden'', None, d)
      else
        (let (ok, lm) = lm_Allow newl allow now username (limiterManager d); d1 = d\<lparr>limiterManager := lm\<rparr> in
         if \<not> ok then (HttpError 429 ''Rate limit exceeded'', None, d1)
         else case hr_Body r of
           Inl _ \<Rightarrow> (HttpError 400 ''Bad Request'', None, d1)
         | Inr body \<Rightarrow>
             (case (case body of None \<Rightarrow> Inl ''invalid JSON'' | Some v \<Rightarrow> parse_request v) of
                Inl _ \<Rightarrow> (HttpError 400 ''Invalid JSON-RPC'', None, d1)
              | Inr req \<Rightarrow> (StatusAccepted, Some (sse s, req), d1))))))"

text \<open>
  C7. A message reaches the RPC layer only as a POST by an authenticated user for a session that exists and
  belongs to that very user, and only when that user's rate limit admits it; its answer is then 202. Knowing
  another user's session id is not enough.
\<close>

theorem handleMessage_gate:
  assumes "handleMessage newl allow now r ctx d = (ans, go, d')"
  shows "(ans = StatusAccepted \<longleftrightarrow> go \<noteq> None) \<and>
    (\<forall>sess req. go = Some (sess, req) \<longrightarrow>
       hr_Method r = ''POST'' \<and> ctx = Some (sess_User sess) \<and> sess_User sess \<noteq> [] \<and>
       (\<exists>s v. map_of (sessions d) (hr_session_id r) = Some s \<and> sse s = sess \<and>
          hr_Body r = Inr (Some v) \<and> parse_request v = Inr req) \<and>
       fst (lm_Allow newl allow now (sess_User sess) (limiterManager d))) \<and>
    d' = d\<lparr>limiterManager := limiterManager d'\<rparr>"
  using assms
  by (auto simp: handleMessage_def userFromContext_def Let_def split_beta
      split: if_splits option.splits sum.splits)

definition ex_message :: http_request where
  "ex_message = \<lparr>hr_Method = ''POST'', hr_Authorization = ''Bearer t'', hr_ForwardedFor = [], hr_RemoteAddr = ''192.0.2.1:4711'',
     hr_session_id = ''s-1'', hr_Body = Inr (Some (JObj [(''id'', JNum 1 0), (''method'', JStr ''ping'')]))\<rparr>"

theorem handleMessage_gate_witness:
  "\<exists>sess req d'. handleMessage (\<lambda>_ _. ()) (\<lambda>_ l. (True, l)) 0 ex_message (Some ''alice'') (outer ex_dm_state) =
       (StatusAccepted, Some (sess, req), d') \<and> Method req = ''ping'' \<and> sess_User sess = ''alice''"
proof -
  have o: "sessions (outer ex_dm_state) = [(''s-1'', \<lparr>sse = ex_session, Done = False\<rparr>)]"
    by (simp add: ex_dm_state_def NewRPCHandler_def Reconfigure_def)
  have p: "parse_request (JObj [(''id'', JNum 1 0), (''method'', JStr ''ping'')]) = Inr \<lparr>ID = JNum 1 0, Method = ''ping'', Params = None\<rparr>"
    by (simp add: parse_request_def request_fields_def field_vals_def members_def json_field_def is_structdoc_def is_str_def
        dec_string_def float64_ok_def Let_def)
  have ok: "fst (lm_Allow (\<lambda>_ _. ()) (\<lambda>_ l. (True, l)) 0 u m)" for u and m :: "unit limiter_manager"
    by (simp add: lm_Allow_def lm_use_def split_beta Let_def split: option.split)
  have m: "hr_Method ex_message = ''POST''" "hr_session_id ex_message = ''s-1''" "sess_User ex_session = ''alice''"
    "hr_Body ex_message = Inr (Some (JObj [(''id'', JNum 1 0), (''method'', JStr ''ping'')]))"
    by (simp_all add: ex_message_def ex_session_def)
  have "\<exists>d'. handleMessage (\<lambda>_ _. ()) (\<lambda>_ l. (True, l)) 0 ex_message (Some ''alice'') (outer ex_dm_state) =
       (StatusAccepted, Some (ex_session, \<lparr>ID = JNum 1 0, Method = ''ping'', Params = None\<rparr>), d')"
    unfolding handleMessage_def userFromContext_def m o split_beta Let_def using ok by (simp add: m p)
  then obtain d' where h: "handleMessage (\<lambda>_ _. ()) (\<lambda>_ l. (True, l)) 0 ex_message (Some ''alice'') (outer ex_dm_state) =
       (StatusAccepted, Some (ex_session, \<lparr>ID = JNum 1 0, Method = ''ping'', Params = None\<rparr>), d')" by blast
  have "Some ''alice'' = Some (sess_User ex_session)" using handleMessage_gate [OF h] by blast
  then have u: "sess_User ex_session = ''alice''" by simp
  show ?thesis by (intro exI conjI, rule h, simp, rule u)
qed


subsection \<open>The server\<close>

text \<open>
  What a goroutine was started with: the authenticated caller, the session and the request. For every worker
  process ever started, the caller, the request and the grants in force are kept as history.
\<close>

record start_event =
  ev_by :: string
  ev_req :: JSONRPCRequest
  ev_sudo :: sudo_config
  ev_proc :: process

record 'l server =
  srv :: "'l daemon rpc_state"
  pending :: "(string option \<times> http_request) list"
  running :: "(string \<times> session \<times> JSONRPCRequest) list"
  delivered :: "(string \<times> json) list"
  started :: "start_event list"
  crashed :: bool

definition start_events :: "string \<Rightarrow> JSONRPCRequest \<Rightarrow> sudo_config \<Rightarrow> process list \<Rightarrow> start_event list" where
  "start_events by1 req c ps = map (\<lambda>p. \<lparr>ev_by = by1, ev_req = req, ev_sudo = c, ev_proc = p\<rparr>) ps"

definition with_daemon :: "'l daemon \<Rightarrow> 'l server \<Rightarrow> 'l server" where
  "with_daemon d s = s\<lparr>srv := (srv s)\<lparr>outer := d\<rparr>\<rparr>"

definition chan_closed :: "session \<Rightarrow> 'l server \<Rightarrow> bool" where
  "chan_closed sess s \<longleftrightarrow> map_of (sessions (outer (srv s))) (sess_ID sess) = None"

text \<open>
  The steps. A request first passes the middleware (\<open>arrive\<close>) and later its handler
  (\<open>open_stream\<close>, \<open>message\<close>); an accepted message runs in a goroutine of its own
  (\<open>run\<close>), which ends with its answer on the session's channel or with a panic that stops the daemon
  (\<open>crash\<close>: the request's work is done by then); a stream may end at any time. The accounts, the
  clock, the files a reload reads and the random ids are any at every step.
\<close>

inductive server_step ::
  "(string \<Rightarrow> string) \<Rightarrow> (rat \<Rightarrow> int \<Rightarrow> 'l) \<Rightarrow> (int \<Rightarrow> 'l \<Rightarrow> bool \<times> 'l) \<Rightarrow> static_docs \<Rightarrow> 'l server \<Rightarrow> 'l server \<Rightarrow> bool"
  for sha newl allow docs where
  arrive: "\<not> crashed s \<Longrightarrow> authenticateRequest sha lookup saveErr (hr_Authorization r) (outer (srv s)) = (ctx, d) \<Longrightarrow>
     server_step sha newl allow docs s ((with_daemon d s)\<lparr>pending := pending s @ [(ctx, r)]\<rparr>)"
| open_stream: "\<not> crashed s \<Longrightarrow> pending s = xs @ (ctx, r) # ys \<Longrightarrow> handleSSE_open newid ctx (outer (srv s)) = (ans, d) \<Longrightarrow>
     server_step sha newl allow docs s ((with_daemon d s)\<lparr>pending := xs @ ys\<rparr>)"
| refused: "\<not> crashed s \<Longrightarrow> pending s = xs @ (ctx, r) # ys \<Longrightarrow>
     handleMessage newl allow now r ctx (outer (srv s)) = (ans, None, d) \<Longrightarrow>
     server_step sha newl allow docs s ((with_daemon d s)\<lparr>pending := xs @ ys\<rparr>)"
| message: "\<not> crashed s \<Longrightarrow> pending s = xs @ (Some by1, r) # ys \<Longrightarrow>
     handleMessage newl allow now r (Some by1) (outer (srv s)) = (ans, Some (sess, req), d) \<Longrightarrow>
     server_step sha newl allow docs s ((with_daemon d s)\<lparr>pending := xs @ ys, running := running s @ [(by1, sess, req)]\<rparr>)"
| run: "\<not> crashed s \<Longrightarrow> running s = xs @ (by1, sess, req) # ys \<Longrightarrow> uids32 (wenv e) \<Longrightarrow>
     ReloadConfig e = Some (reloadConfig f) \<Longrightarrow>
     ProcessJSONRPC e l docs (chan_closed sess s) sess req (srv s) = outcome.Finished out \<Longrightarrow>
     server_step sha newl allow docs s (s\<lparr>srv := rpc_after out, running := xs @ ys,
       delivered := delivered s @ map (Pair (sess_ID sess)) (events out),
       started := started s @ start_events by1 req (s_sudo (settings (srv s))) (spawned out)\<rparr>)"
| crash: "\<not> crashed s \<Longrightarrow> running s = xs @ (by1, sess, req) # ys \<Longrightarrow> uids32 (wenv e) \<Longrightarrow>
     ReloadConfig e = Some (reloadConfig f) \<Longrightarrow>
     ProcessJSONRPC e l docs (chan_closed sess s) sess req (srv s) = Panicked \<Longrightarrow>
     server_step sha newl allow docs s (s\<lparr>crashed := True,
       started := started s @ (case ProcessJSONRPC e l docs False sess req (srv s) of
          Panicked \<Rightarrow> [] | outcome.Finished out \<Rightarrow> start_events by1 req (s_sudo (settings (srv s))) (spawned out))\<rparr>)"
| end_stream: "\<not> crashed s \<Longrightarrow> server_step sha newl allow docs s (with_daemon (handleSSE_end i (outer (srv s))) s)"

inductive_cases server_stepE: "server_step sha newl allow docs s s'"

definition server_init :: "'l daemon rpc_state \<Rightarrow> 'l server" where
  "server_init st =
     \<lparr>srv = st\<lparr>outer := (outer st)\<lparr>sessions := [], sessionCounter := 0\<rparr>\<rparr>, pending = [], running = [], delivered = [],
      started = [], crashed = False\<rparr>"

subsection \<open>Nothing runs as root without a grant\<close>

text \<open>The grant under which a started process may be root.\<close>

definition root_permitted :: "start_event \<Rightarrow> bool" where
  "root_permitted ev \<longleftrightarrow>
     (Method (ev_req ev) = ''tools/call'' \<and> CanRunAsRoot (ev_sudo ev) (ev_by ev) (proc_tool (ev_proc ev))) \<or>
     (Method (ev_req ev) = ''resources/read'' \<and>
      (\<exists>uri. uri_param (Params (ev_req ev)) = Inr uri \<and> resource_grant (ev_sudo ev) (ev_by ev) uri (ev_proc ev)))"

definition runs_as_root :: "process \<Rightarrow> bool" where
  "runs_as_root p \<longleftrightarrow> (\<exists>gid groups. credential p = Some (0, gid, groups))"

lemma runs_as_root_uid: "runs_as_root p \<Longrightarrow> run_uid env p = 0"
  by (auto simp: runs_as_root_def run_uid_def)

lemma ProcessJSONRPC_root:
  assumes "ProcessJSONRPC e l docs gone sess req st = outcome.Finished out" and "p \<in> set (spawned out)"
    and "uids32 (wenv e)" and "runs_as_root p"
  shows "root_permitted \<lparr>ev_by = sess_User sess, ev_req = req, ev_sudo = s_sudo (settings st), ev_proc = p\<rparr>"
proof -
  note r = runs_as_root_uid [OF assms(4), of "wenv e"]
  consider "Method req = ''resources/read''" "p \<in> set (ro_spawned (HandleResourcesRead e l sess (Params req) st))"
    | o1 where "Method req = ''tools/call''" "HandleToolsCall e sess (Params req) st = outcome.Finished o1" "p \<in> set (out_spawned o1)"
    using assms(1,2) by (auto simp: ProcessJSONRPC_def chan_send_Finished answer_def Let_def split: if_splits outcome.splits)
  then show ?thesis
  proof cases
    case 1
    then show ?thesis using HandleResourcesRead_root [OF 1(2) assms(3) r] by (auto simp: root_permitted_def)
  next
    case (2 o1)
    then show ?thesis using HandleToolsCall_root [OF 2(2,3) assms(3) r] by (simp add: root_permitted_def)
  qed
qed

lemma start_events_permitted:
  assumes "ProcessJSONRPC e l docs gone sess req st = outcome.Finished out" and "uids32 (wenv e)" and "by1 = sess_User sess"
    and "ev \<in> set (start_events by1 req (s_sudo (settings st)) (spawned out))" and "runs_as_root (ev_proc ev)"
  shows "root_permitted ev"
  using assms ProcessJSONRPC_root [OF assms(1) _ assms(2)] by (auto simp: start_events_def)

definition callers_ok :: "'l server \<Rightarrow> bool" where
  "callers_ok s \<longleftrightarrow> (\<forall>(by1, sess, req) \<in> set (running s). by1 = sess_User sess)"

definition roots_ok :: "'l server \<Rightarrow> bool" where
  "roots_ok s \<longleftrightarrow> (\<forall>ev \<in> set (started s). runs_as_root (ev_proc ev) \<longrightarrow> root_permitted ev)"

lemma with_daemon_simps [simp]:
  "pending (with_daemon d s) = pending s" "running (with_daemon d s) = running s" "started (with_daemon d s) = started s"
  "crashed (with_daemon d s) = crashed s" "delivered (with_daemon d s) = delivered s" "outer (srv (with_daemon d s)) = d"
  "settings (srv (with_daemon d s)) = settings (srv s)"
  by (simp_all add: with_daemon_def)

lemma handleMessage_caller:
  "handleMessage newl allow now r ctx d = (ans, Some (sess, req), d') \<Longrightarrow> ctx = Some (sess_User sess)"
  by (auto simp: handleMessage_def userFromContext_def Let_def split_beta split: if_splits option.splits sum.splits)

lemma callers_ok_step: "server_step sha newl allow docs s s' \<Longrightarrow> callers_ok s \<Longrightarrow> callers_ok s'"
  by (induction rule: server_step.induct) (auto simp: callers_ok_def dest: handleMessage_caller)

lemma roots_ok_step:
  assumes "server_step sha newl allow docs s s'" and "callers_ok s" and "roots_ok s"
  shows "roots_ok s'"
  using assms
proof (induction rule: server_step.induct)
  case (run s xs by1 sess req ys e f l out)
  then have "by1 = sess_User sess" by (simp add: callers_ok_def)
  then show ?case using run start_events_permitted [OF run(5,3)] by (auto simp: roots_ok_def)
next
  case (crash s xs by1 sess req ys e f l)
  then have c: "by1 = sess_User sess" by (simp add: callers_ok_def)
  show ?case
  proof (cases "ProcessJSONRPC e l docs False sess req (srv s)")
    case Panicked
    then show ?thesis using crash by (simp add: roots_ok_def)
  next
    case (Finished out)
    then show ?thesis using crash start_events_permitted [OF Finished crash(3) c] by (auto simp: roots_ok_def)
  qed
qed (simp_all add: roots_ok_def)



definition ex_usb_message :: http_request where
  "ex_usb_message = ex_message\<lparr>hr_session_id := ''x-1'', hr_Body := Inr (Some (JObj [(''id'', JNum 1 0),
     (''method'', JStr ''resources/read''), (''params'', JObj [(''uri'', JStr ''devices://usb'')])]))\<rparr>"

definition ex_usb_request :: JSONRPCRequest where
  "ex_usb_request = \<lparr>ID = JNum 1 0, Method = ''resources/read'', Params = ex_read ''devices://usb''\<rparr>"

lemma ex_usb_parsed:
  "parse_request (JObj [(''id'', JNum 1 0), (''method'', JStr ''resources/read''), (''params'', JObj [(''uri'', JStr ''devices://usb'')])]) =
   Inr ex_usb_request"
  by (simp add: parse_request_def request_fields_def field_vals_def members_def json_field_def is_structdoc_def is_str_def
      dec_string_def float64_ok_def Let_def ex_usb_request_def ex_read_def)

lemma ex_usb_spawned:
  assumes "s_sudo (settings st) = ex_res_sudo" and "ResourceCache st = []" and "sess_User sess = ''alice''" and "wenv e = ex_env"
  shows "ro_spawned (HandleResourcesRead e l sess (ex_read ''devices://usb'') st) = [root_process ''read_usb'' (Some (JObj []))]"
proof -
  have f: "CanReadResourceAsRoot ex_res_sudo ''alice'' ''devices://usb'' ''*''" "atoi_value ''1000'' = 1000" by code_simp+
  have r: "read_resource e l (settings st) ''alice'' ''devices://usb'' = strict_read e ex_res_sudo ''alice'' ''devices://usb'' ''read_usb''"
    using assms(1) by (simp add: read_resource_def has_prefix_def docker_uri_def)
  have "fst (strict_read e ex_res_sudo ''alice'' ''devices://usb'' ''read_usb'') = [root_process ''read_usb'' (Some (JObj []))]"
    using f assms(4) by (simp add: strict_read_def resource_worker_def SpawnWorker_def spawn_process_def target_identity_def
        ex_env_def ex_accounts_def root_process_def has_prefix_def)
  then show ?thesis using assms f(1) r
    by (cases "strict_read e ex_res_sudo ''alice'' ''devices://usb'' ''read_usb''")
      (simp add: HandleResourcesRead_def strictly_privileged_def cache_Get_def cache_lookup_def Let_def split: prod.split sum.split)
qed

lemma authenticate_frame:
  "authenticateRequest sha lookup saveErr hdr d = (ctx, d') \<Longrightarrow> sessions d' = sessions d \<and> sessionCounter d' = sessionCounter d"
proof (cases rule: authenticateRequest_cases [of sha lookup saveErr hdr d])
  case (2 u)
  assume "authenticateRequest sha lookup saveErr hdr d = (ctx, d')"
  then have "d' = snd (checkAndPinUID lookup saveErr (Username u) d)" using 2(4) by auto
  then show ?thesis using checkAndPinUID_frame(1) [of lookup saveErr "Username u" d] by (metis daemon.ext_inject daemon.surjective daemon.update_convs(1,3))
qed simp


definition ex_server :: "unit server" where
  "ex_server = server_init (NewRPCHandler ex_res_sudo 30 [] [] ex_dm)"

definition ex_srv_env :: "unit daemon rpc_env" where
  "ex_srv_env = \<lparr>wenv = ex_env, re_run = (\<lambda>_. \<lparr>deadline = False, run_error = None, stdout = ''[]'', stderr = []\<rparr>), SocketPath = [],
      re_now = 0, re_later = 0, in_flight = (\<lambda>_. None), raw_text = (\<lambda>_. []), re_indent = (\<lambda>_. []), re_sha256 = (\<lambda>_. []),
      prune_parse = (\<lambda>_. None), ReloadConfig = Some (reloadConfig ex_files)\<rparr>"

abbreviation ex_step :: "unit server \<Rightarrow> unit server \<Rightarrow> bool" where
  "ex_step \<equiv> server_step id (\<lambda>_ _. ()) (\<lambda>_ l. (True, l)) ex_docs"

text \<open>Two requests of one client have passed the middleware.\<close>

lemma ex_two_arrived:
  "\<exists>s. ex_step\<^sup>*\<^sup>* ex_server s \<and> \<not> crashed s \<and> pending s = [(Some ''alice'', ex_usb_message), (Some ''alice'', ex_usb_message)] \<and>
     running s = [] \<and> started s = [] \<and> sessions (outer (srv s)) = [] \<and> sessionCounter (outer (srv s)) = 0 \<and>
     s_sudo (settings (srv s)) = ex_res_sudo \<and> ResourceCache (srv s) = []"
proof -
  let ?d = "outer (srv ex_server)"
  let ?auth = "authenticateRequest id ex_accounts (\<lambda>_. None) ''Bearer t''"
  have d: "?d = ex_dm" by (simp add: ex_server_def server_init_def NewRPCHandler_def Reconfigure_def ex_dm_def)
  obtain d1 d2 where a: "?auth ?d = (Some ''alice'', d1)" "?auth d1 = (Some ''alice'', d2)"
    using ex_run by (auto simp: d ex_requests_def numeral_2_eq_2 split_beta Let_def) (metis prod.collapse)
  have h: "hr_Authorization ex_usb_message = ''Bearer t''" by (simp add: ex_usb_message_def ex_message_def)
  let ?s1 = "(with_daemon d1 ex_server)\<lparr>pending := pending ex_server @ [(Some ''alice'', ex_usb_message)]\<rparr>"
  let ?s2 = "(with_daemon d2 ?s1)\<lparr>pending := pending ?s1 @ [(Some ''alice'', ex_usb_message)]\<rparr>"
  have c: "\<not> crashed ex_server" "pending ex_server = []" "running ex_server = []" "started ex_server = []"
    "sessions ?d = []" "sessionCounter ?d = 0" "s_sudo (settings (srv ex_server)) = ex_res_sudo" "ResourceCache (srv ex_server) = []"
    by (simp_all add: ex_server_def server_init_def NewRPCHandler_def Reconfigure_def cache_Clear_def)
  have "ex_step ex_server ?s1" by (rule arrive) (use c a(1) h in simp_all)
  moreover have "ex_step ?s1 ?s2" by (rule arrive) (use c a(2) h in simp_all)
  ultimately have "ex_step\<^sup>*\<^sup>* ex_server ?s2"
    by (rule rtranclp.rtrancl_into_rtrancl [OF r_into_rtranclp])
  moreover have "sessions d2 = []" "sessionCounter d2 = 0"
    using authenticate_frame [OF a(1)] authenticate_frame [OF a(2)] c by simp_all
  ultimately show ?thesis using c by (intro exI [of _ ?s2]) (simp add: with_daemon_def)
qed

text \<open>The first opens a stream, the second is accepted on it.\<close>

definition ex_sess :: session where
  "ex_sess = \<lparr>sess_ID = ''x-1'', sess_User = ''alice''\<rparr>"

lemma ex_accepted:
  "\<exists>s. ex_step\<^sup>*\<^sup>* ex_server s \<and> \<not> crashed s \<and> running s = [(''alice'', ex_sess, ex_usb_request)] \<and> started s = [] \<and>
     map_of (sessions (outer (srv s))) ''x-1'' \<noteq> None \<and> s_sudo (settings (srv s)) = ex_res_sudo \<and> ResourceCache (srv s) = []"
proof -
  obtain s where s: "ex_step\<^sup>*\<^sup>* ex_server s" "\<not> crashed s"
    "pending s = [(Some ''alice'', ex_usb_message), (Some ''alice'', ex_usb_message)]" "running s = []" "started s = []"
    "sessions (outer (srv s)) = []" "sessionCounter (outer (srv s)) = 0" "s_sudo (settings (srv s)) = ex_res_sudo"
    "ResourceCache (srv s) = []"
    using ex_two_arrived by blast
  have i: "int_str 1 = ''1''" by code_simp
  define d1 where "d1 = snd (handleSSE_open ''x'' (Some ''alice'') (outer (srv s)))"
  define s1 where "s1 = (with_daemon d1 s)\<lparr>pending := [] @ [(Some ''alice'', ex_usb_message)]\<rparr>"
  have o1: "ex_step s s1" unfolding s1_def
    by (rule open_stream [where newid = "''x''"]) (use s in \<open>simp_all add: prod_eq_iff d1_def\<close>)
  have ss: "sessions d1 = [(''x-1'', \<lparr>sse = ex_sess, Done = False\<rparr>)]"
    using s(6,7) i by (simp add: handleSSE_open_def userFromContext_def Let_def map_put_def ex_sess_def d1_def)
  have ok: "fst (lm_Allow (\<lambda>_ _. ()) (\<lambda>_ l. (True, l)) 0 u m)" for u and m :: "unit limiter_manager"
    by (simp add: lm_Allow_def lm_use_def split_beta Let_def split: option.split)
  have m: "hr_Method ex_usb_message = ''POST''" "hr_session_id ex_usb_message = ''x-1''" "sess_User ex_sess = ''alice''"
    "hr_Body ex_usb_message = Inr (Some (JObj [(''id'', JNum 1 0), (''method'', JStr ''resources/read''),
       (''params'', JObj [(''uri'', JStr ''devices://usb'')])]))"
    by (simp_all add: ex_usb_message_def ex_message_def ex_sess_def)
  have "\<exists>d2. handleMessage (\<lambda>_ _. ()) (\<lambda>_ l. (True, l)) 0 ex_usb_message (Some ''alice'') d1 =
      (StatusAccepted, Some (ex_sess, ex_usb_request), d2) \<and> sessions d2 = sessions d1"
    unfolding handleMessage_def userFromContext_def m ss split_beta Let_def using ok by (simp add: m ss ex_usb_parsed)
  then obtain d2 where d2: "handleMessage (\<lambda>_ _. ()) (\<lambda>_ l. (True, l)) 0 ex_usb_message (Some ''alice'') d1 =
      (StatusAccepted, Some (ex_sess, ex_usb_request), d2)" "sessions d2 = sessions d1" by blast
  define s2 where "s2 = (with_daemon d2 s1)\<lparr>pending := [] @ [], running := running s1 @ [(''alice'', ex_sess, ex_usb_request)]\<rparr>"
  have "ex_step s1 s2" unfolding s2_def by (rule message [where now = 0]) (use s d2(1) in \<open>simp_all add: s1_def\<close>)
  then have "ex_step\<^sup>*\<^sup>* ex_server s2" using s(1) o1 by (meson rtranclp.rtrancl_into_rtrancl)
  then show ?thesis using s d2(2) ss by (intro exI [of _ s2]) (simp add: s2_def s1_def with_daemon_def)
qed



subsection \<open>Sessions\<close>

definition numbered :: "int \<Rightarrow> string \<Rightarrow> bool" where
  "numbered k i \<longleftrightarrow> (\<exists>pre n. i = pre @ ''-'' @ int_str n \<and> 1 \<le> n \<and> n \<le> k)"

definition sessions_ok :: "'l daemon \<Rightarrow> bool" where
  "sessions_ok d \<longleftrightarrow>
     0 \<le> sessionCounter d \<and>
     list_all (\<lambda>(i, ss). sess_ID (sse ss) = i \<and> numbered (sessionCounter d) i) (sessions d)"

lemma dash_suffix_unique:
  assumes "p @ CHR ''-'' # s = q @ CHR ''-'' # t" and "CHR ''-'' \<notin> set s" and "CHR ''-'' \<notin> set t"
  shows "s = t"
  using assms
proof (induction p arbitrary: q)
  case Nil
  then show ?case by (cases q) auto
next
  case (Cons a p)
  then show ?case by (cases q) auto
qed

lemma int_str_no_dash: "0 \<le> n \<Longrightarrow> CHR ''-'' \<notin> set (int_str n)"
  using nat_str_digits [of "nat n"] by (auto simp: int_str_def list_all_iff is_digit_def)

lemma not_numbered_next: "0 \<le> k \<Longrightarrow> \<not> numbered k (newid @ ''-'' @ int_str (k + 1))"
proof
  assume k: "0 \<le> k" "numbered k (newid @ ''-'' @ int_str (k + 1))"
  then obtain pre n where n: "newid @ ''-'' @ int_str (k + 1) = pre @ ''-'' @ int_str n" "1 \<le> n" "n \<le> k"
    unfolding numbered_def by blast
  have "int_str (k + 1) = int_str n"
    by (rule dash_suffix_unique [of newid _ pre]) (use n k(1) int_str_no_dash in auto)
  then have "nat (k + 1) = nat n" using n k(1) nat_str_inj by (auto simp: int_str_def)
  then show False using n by simp
qed

lemma numbered_mono: "numbered k i \<Longrightarrow> k \<le> k' \<Longrightarrow> numbered k' i"
  unfolding numbered_def by (elim exE conjE) (intro exI conjI, assumption+, rule order.trans)

lemma numbered_next: "0 \<le> k \<Longrightarrow> numbered (k + 1) (newid @ ''-'' @ int_str (k + 1))"
  unfolding numbered_def by (intro exI [of _ newid] exI [of _ "k + 1"]) simp

lemma session_id_fresh:
  assumes "sessions_ok d"
  shows "map_of (sessions d) (newid @ ''-'' @ int_str (sessionCounter d + 1)) = None"
proof (rule ccontr)
  assume "map_of (sessions d) (newid @ ''-'' @ int_str (sessionCounter d + 1)) \<noteq> None"
  then obtain ss where "(newid @ ''-'' @ int_str (sessionCounter d + 1), ss) \<in> set (sessions d)" using map_of_SomeD by fastforce
  then have "numbered (sessionCounter d) (newid @ ''-'' @ int_str (sessionCounter d + 1))"
    using assms unfolding sessions_ok_def list_all_iff by blast
  then show False using not_numbered_next assms by (simp add: sessions_ok_def)
qed

lemma sessions_ok_frame:
  "sessions_ok d \<Longrightarrow> sessions d' = sessions d \<Longrightarrow> sessionCounter d' = sessionCounter d \<Longrightarrow> sessions_ok d'"
  by (simp add: sessions_ok_def)

lemma handleSSE_open_cases:
  assumes "handleSSE_open newid ctx d = (ans, d')"
  obtains "d' = d" "ans = HttpError 401 ''Unauthorized''"
  | u i where "ctx = Some u" "i = newid @ ''-'' @ int_str (sessionCounter d + 1)" "ans = EventStream i"
    "d' = d\<lparr>sessionCounter := sessionCounter d + 1,
       sessions := map_put i \<lparr>sse = \<lparr>sess_ID = i, sess_User = u\<rparr>, Done = False\<rparr> (sessions d)\<rparr>"
proof (cases "userFromContext ctx")
  case None
  then show ?thesis using that(1) assms by (simp add: handleSSE_open_def)
next
  case (Some u)
  then have "ctx = Some u" by (auto simp: userFromContext_def split: option.splits if_splits)
  then show ?thesis using that(2) [of u] assms Some by (simp add: handleSSE_open_def Let_def)
qed

lemma sessions_ok_open:
  assumes "sessions_ok d" and "handleSSE_open newid ctx d = (ans, d')"
  shows "sessions_ok d'"
  using assms(2)
proof (cases rule: handleSSE_open_cases)
  case (2 u i)
  let ?k = "sessionCounter d"
  have "numbered (?k + 1) i" using 2(2) numbered_next assms(1) by (simp add: sessions_ok_def)
  moreover have "list_all (\<lambda>(i, ss). sess_ID (sse ss) = i \<and> numbered (?k + 1) i) (sessions d)"
    using assms(1) numbered_mono [of ?k _ "?k + 1"] by (auto simp: sessions_ok_def list_all_iff)
  ultimately show ?thesis using assms(1) 2(4) by (auto simp: sessions_ok_def list_all_iff map_put_def)
qed (use assms in simp)

lemma sessions_ok_end: "sessions_ok d \<Longrightarrow> sessions_ok (handleSSE_end i d)"
  by (auto simp: sessions_ok_def handleSSE_end_def map_del_def list_all_iff)

text \<open>The session a table has under an id, whether or not it has been told to end.\<close>

definition session_at :: "string \<Rightarrow> 'l daemon \<Rightarrow> session option" where
  "session_at i d = map_option sse (map_of (sessions d) i)"

lemma map_of_mapped: "map_of (map (\<lambda>(i, s). (i, f s)) m) k = map_option f (map_of m k)"
  by (induction m) auto

lemma sessions_mapped:
  assumes "\<And>x. sse (g x) = sse x" and "sessions d' = map (\<lambda>(i, x). (i, g x)) (sessions d)"
    and "sessionCounter d' = sessionCounter d"
  shows "sessions_ok d' \<longleftrightarrow> sessions_ok d" and "session_at i d' = session_at i d"
  using assms by (auto simp: sessions_ok_def session_at_def list_all_iff map_of_mapped option.map_comp comp_def)

lemma reloadConfig_sessions:
  assumes "reloadConfig f u st = (r, st')"
  shows "(sessions_ok (outer st') \<longleftrightarrow> sessions_ok (outer st)) \<and> session_at i (outer st') = session_at i (outer st)"
proof (cases rule: reloadConfig_cases [of f u st])
  case (1 e)
  then show ?thesis using assms by simp
next
  case (2 next1 path sudo ans)
  let ?g = "\<lambda>x. if sess_User (sse x) \<in> set (close_users (users_of (outer st)) (dc_Users next1)) then sess_Close x else x"
  have "sessions (outer st') = map (\<lambda>(i, x). (i, ?g x)) (sessions (outer st))"
    "sessionCounter (outer st') = sessionCounter (outer st)"
    using assms 2(3) by (auto simp: closeSessions_spec)
  moreover have "sse (?g x) = sse x" for x by (simp add: sess_Close_def)
  ultimately show ?thesis using sessions_mapped [of ?g "outer st'" "outer st"] by blast
qed

lemma run_standard_outer: "run_standard e st u tool args priv = (ps, r, st') \<Longrightarrow> outer st' = outer st"
  by (auto simp: run_standard_def Let_def split: if_splits option.splits sum.splits prod.splits)

lemma dispatch_outer:
  assumes "dispatch_tool e st u tool args = outcome.Finished (r, args', audit, ps, st')"
  shows "outer st' = outer st \<or> (\<exists>rel r'. ReloadConfig e = Some rel \<and> rel u st = (r', st'))"
  using assms
  by (auto simp: dispatch_tool_def Let_def split: if_splits option.splits sum.splits prod.splits outcome.splits
      dest: run_standard_outer)

lemma HandleToolsCall_outer:
  assumes "HandleToolsCall e sess params st = outcome.Finished out"
  shows "outer (out_state out) = outer st \<or> (\<exists>rel r. ReloadConfig e = Some rel \<and> rel (sess_User sess) st = (r, out_state out))"
proof (cases "call_params params")
  case (Inl m)
  then show ?thesis using assms by (auto simp: HandleToolsCall_def)
next
  case (Inr ta)
  obtain tool args where ta: "ta = (tool, args)" by fastforce
  then obtain r args' audit ps st' where d: "dispatch_tool e st (sess_User sess) tool args = outcome.Finished (r, args', audit, ps, st')"
    "out_state out = st'"
    using assms Inr by (auto simp: HandleToolsCall_def split: outcome.splits)
  show ?thesis using dispatch_outer [OF d(1)] d(2) by simp
qed

lemma HandleResourcesRead_outer: "outer (ro_state (HandleResourcesRead e l sess params st)) = outer st"
  by (auto simp: HandleResourcesRead_def Let_def split: sum.splits option.splits prod.splits)

lemma ProcessJSONRPC_outer:
  assumes "ProcessJSONRPC e l docs gone sess req st = outcome.Finished out"
  shows "outer (rpc_after out) = outer st \<or> (\<exists>rel r. ReloadConfig e = Some rel \<and> rel (sess_User sess) st = (r, rpc_after out))"
proof (cases "ID req \<noteq> JNull \<and> Method req = ''tools/call''")
  case True
  then obtain o1 where o1: "HandleToolsCall e sess (Params req) st = outcome.Finished o1" "rpc_after out = out_state o1"
    using assms by (auto simp: ProcessJSONRPC_def chan_send_Finished split: outcome.splits)
  show ?thesis using HandleToolsCall_outer [OF o1(1)] o1(2) by simp
next
  case False
  then have "outer (rpc_after out) = outer st"
    using assms by (auto simp: ProcessJSONRPC_def chan_send_Finished answer_def HandleResourcesRead_outer Let_def
        split: outcome.splits if_splits)
  then show ?thesis by blast
qed

lemma authenticate_sessions:
  assumes "authenticateRequest sha lookup saveErr hdr d = (ctx, d')"
  shows "(sessions_ok d \<longrightarrow> sessions_ok d') \<and> session_at i d' = session_at i d"
  using authenticate_frame [OF assms] sessions_ok_frame by (auto simp: session_at_def)

lemma handleMessage_frame:
  "handleMessage newl allow now r ctx d = (ans, go, d') \<Longrightarrow> sessions d' = sessions d \<and> sessionCounter d' = sessionCounter d"
  by (auto simp: handleMessage_def userFromContext_def Let_def split_beta split: if_splits option.splits sum.splits)

lemma handleMessage_sessions:
  assumes "handleMessage newl allow now r ctx d = (ans, go, d')"
  shows "(sessions_ok d \<longrightarrow> sessions_ok d') \<and> session_at i d' = session_at i d"
  using handleMessage_frame [OF assms] sessions_ok_frame by (auto simp: session_at_def)

lemma server_step_sessions:
  assumes "server_step sha newl allow docs s s'" and "sessions_ok (outer (srv s))"
  shows "sessions_ok (outer (srv s')) \<and>
    (session_at i (outer (srv s)) = Some x \<longrightarrow> session_at i (outer (srv s')) \<in> {None, Some x})"
  using assms
proof (induction rule: server_step.induct)
  case (arrive s lookup saveErr r ctx d)
  then show ?case using authenticate_sessions [OF arrive(2)] by simp
next
  case (open_stream s xs ctx r ys newid ans d)
  have "session_at i (outer (srv s)) = Some x \<longrightarrow> session_at i d = Some x"
    using open_stream(3)
  proof (cases rule: handleSSE_open_cases)
    case (2 u j)
    then show ?thesis using session_id_fresh [OF open_stream(4), of newid] by (auto simp: session_at_def)
  qed simp
  then show ?case using sessions_ok_open [OF open_stream(4,3)] by simp
next
  case (refused s xs ctx r ys now ans d)
  then show ?case using handleMessage_sessions [OF refused(3)] by simp
next
  case (message s xs by1 r ys now ans sess req d)
  then show ?case using handleMessage_sessions [OF message(3)] by simp
next
  case (run s xs by1 sess req ys e f l out)
  consider "outer (rpc_after out) = outer (srv s)" | r where "reloadConfig f (sess_User sess) (srv s) = (r, rpc_after out)"
    using ProcessJSONRPC_outer [OF run(5)] run(4) by auto
  then show ?case
  proof cases
    case (2 r)
    then show ?thesis using reloadConfig_sessions [OF 2] run(6) by simp
  qed (use run in simp)
next
  case (end_stream s j)
  then show ?case using sessions_ok_end [OF end_stream(2)] by (auto simp: session_at_def handleSSE_end_def)
qed simp

lemma reachable_sessions_ok:
  assumes "(server_step sha newl allow docs)\<^sup>*\<^sup>* (server_init st) s"
  shows "sessions_ok (outer (srv s))"
  using assms
proof (induction rule: rtranclp_induct)
  case base
  show ?case by (simp add: server_init_def sessions_ok_def)
next
  case (step y z)
  then show ?case using server_step_sessions by blast
qed

text \<open>
  C8. A session id never changes hands: in a reachable state no step gives an id in the table to another
  session or another user; the id either keeps its session or leaves the table. The random part of an id
  may repeat, the counter makes it unique.
\<close>

theorem session_owner_stable:
  assumes "(server_step sha newl allow docs)\<^sup>*\<^sup>* (server_init st) s" and "server_step sha newl allow docs s s'"
    and "session_at i (outer (srv s)) = Some x"
  shows "sess_ID x = i \<and> session_at i (outer (srv s')) \<in> {None, Some x}"
proof -
  have ok: "sessions_ok (outer (srv s))" using reachable_sessions_ok [OF assms(1)] .
  obtain ss where "map_of (sessions (outer (srv s))) i = Some ss" "sse ss = x" using assms(3) by (auto simp: session_at_def)
  then have "sess_ID x = i" using ok map_of_SomeD unfolding sessions_ok_def list_all_iff by fastforce
  then show ?thesis using server_step_sessions [OF assms(2) ok, of i x] assms(3) by simp
qed

theorem session_owner_stable_witness:
  "\<exists>s x. ex_step\<^sup>*\<^sup>* ex_server s \<and> session_at ''x-1'' (outer (srv s)) = Some x \<and> sess_ID x = ''x-1''"
proof -
  obtain s where s: "ex_step\<^sup>*\<^sup>* ex_server s" "\<not> crashed s" "map_of (sessions (outer (srv s))) ''x-1'' \<noteq> None"
    using ex_accepted by blast
  then obtain x where x: "session_at ''x-1'' (outer (srv s)) = Some x" by (auto simp: session_at_def)
  have "ex_step s (with_daemon (handleSSE_end ''y-9'' (outer (srv s))) s)" by (rule end_stream [OF s(2)])
  then have "sess_ID x = ''x-1''" using session_owner_stable [OF s(1) [unfolded ex_server_def] _ x] by blast
  then show ?thesis using s(1) x by blast
qed

text \<open>A client that hangs up while its request runs stops the daemon.\<close>

lemma hang_up_crashes: "\<exists>s. ex_step\<^sup>*\<^sup>* ex_server s \<and> crashed s"
proof -
  obtain s where s: "ex_step\<^sup>*\<^sup>* ex_server s" "\<not> crashed s" "running s = [(''alice'', ex_sess, ex_usb_request)]"
    using ex_accepted by blast
  define s1 where "s1 = with_daemon (handleSSE_end ''x-1'' (outer (srv s))) s"
  have s1: "ex_step s s1" "\<not> crashed s1" "running s1 = [] @ (''alice'', ex_sess, ex_usb_request) # []" "chan_closed ex_sess s1"
    using s end_stream by (auto simp: s1_def chan_closed_def handleSSE_end_def ex_sess_def)
  have p: "ProcessJSONRPC ex_srv_env ex_local ex_docs (chan_closed ex_sess s1) ex_sess ex_usb_request (srv s1) = Panicked"
    using s1(4) late_answer_panics [of ex_usb_request] by (simp add: ex_usb_request_def)
  have e: "uids32 (wenv ex_srv_env)" "ReloadConfig ex_srv_env = Some (reloadConfig ex_files)"
    using ex_env_uids32 by (simp_all add: ex_srv_env_def)
  obtain s2 where "ex_step s1 s2" "crashed s2" using crash [OF s1(2,3) e p] by fastforce
  then show ?thesis using s(1) s1(1) by (meson rtranclp.rtrancl_into_rtrancl)
qed

end
