(* ===== verification/Stdio.thy ===== *)
theory Stdio
  imports Daemon
begin

text \<open>
  The program's entry point (\<^verbatim>\<open>cmd/mcpd/main.go\<close>): which mode the arguments select, the
  start-up of the network daemon and the table of worker tools; and the server over stdin and stdout
  (\<^verbatim>\<open>cmd/mcpd/stdio.go\<close>). Lines of stdin are processed in the order they are read; the
  program runs them in goroutines, and waits for all of them before it closes the channel.
\<close>

subsection \<open>Modes and arguments\<close>

datatype mode = VersionMode | WorkerMode "string list" | StdioMode "string list" | DaemonMode "string list"

definition main_mode :: "string list \<Rightarrow> mode" where
  "main_mode args =
     (case args of
        [] \<Rightarrow> DaemonMode []
      | a # rest \<Rightarrow>
          if rest = [] \<and> a \<in> {''--version'', ''-version'', ''version''} then VersionMode
          else if a = ''worker'' then WorkerMode rest
          else if a = ''stdio'' then StdioMode rest
          else DaemonMode args)"

text \<open>The daemon's own arguments; an unknown one is fatal.\<close>

fun daemon_args :: "string list \<Rightarrow> string \<Rightarrow> string result" where
  "daemon_args [] dir = Inr dir"
| "daemon_args [a] dir =
     (if has_prefix a ''--config-dir='' then Inr (trim_prefix a ''--config-dir='')
      else Inl (''unknown argument (usage: mcpd [--config-dir DIR] | mcpd stdio [--user NAME] [--config-dir DIR] | mcpd --version) '' @ a))"
| "daemon_args (a # b # rest) dir =
     (if a = ''--config-dir'' then daemon_args rest b
      else if has_prefix a ''--config-dir='' then daemon_args (b # rest) (trim_prefix a ''--config-dir='')
      else Inl (''unknown argument (usage: mcpd [--config-dir DIR] | mcpd stdio [--user NAME] [--config-dir DIR] | mcpd --version) '' @ a))"

definition daemon_dir :: "string \<Rightarrow> string list \<Rightarrow> string result" where
  "daemon_dir env args = daemon_args args (if env \<noteq> [] then env else ''configs'')"

fun stdio_args :: "string list \<Rightarrow> string \<times> string \<Rightarrow> (string \<times> string) result" where
  "stdio_args [] (u, d) = Inr (u, d)"
| "stdio_args [a] (u, d) =
     (if has_prefix a ''--user='' then Inr (trim_prefix a ''--user='', d)
      else if has_prefix a ''--config-dir='' then Inr (u, trim_prefix a ''--config-dir='')
      else Inl (''unknown argument (usage: mcpd stdio [--user NAME] [--config-dir DIR]) '' @ a))"
| "stdio_args (a # b # rest) (u, d) =
     (if a = ''--user'' then stdio_args rest (b, d)
      else if a = ''--config-dir'' then stdio_args rest (u, b)
      else if has_prefix a ''--user='' then stdio_args (b # rest) (trim_prefix a ''--user='', d)
      else if has_prefix a ''--config-dir='' then stdio_args (b # rest) (u, trim_prefix a ''--config-dir='')
      else Inl (''unknown argument (usage: mcpd stdio [--user NAME] [--config-dir DIR]) '' @ a))"

subsection \<open>The worker's tools\<close>

definition worker_handlers :: "string list" where
  "worker_handlers =
     [''files/list'', ''disks/free'', ''disks/usage'', ''processes/list'', ''processes/top'', ''processes/delete'',
      ''network/connections'', ''network/nslookup'', ''network/curl'', ''network/arp'', ''network/ping'', ''network/trace-path'',
      ''memory/usage'', ''cpu/list'', ''cpu/load-average'', ''disks/list'', ''disks/mounts'', ''disks/performance'',
      ''disks/health'', ''disks/partitions'', ''system/os-release'', ''system/packages'', ''users/list'', ''files/stat'',
      ''files/content'', ''files/read'', ''files/create'', ''files/update'', ''files/find'', ''files/filetype'', ''files/chmod'',
      ''files/chown'', ''read_usb'', ''read_pci'', ''read_dmi'', ''read_modules'', ''read_routes'', ''read_interfaces'',
      ''services/list'', ''timers/list'', ''cron/manage'', ''services/manage'', ''services/status'', ''logs/journal-control'',
      ''logs/logins'', ''logs/dmesg'', ''kernel/system-control'', ''processes/read'', ''docker/containers'', ''docker/manage'',
      ''docker/logs'', ''docker/exec'', ''docker/images'', ''docker/volumes'', ''docker/networks'', ''docker/prune'', ''docker/inspect'']"

subsection \<open>Start-up of the daemon\<close>

text \<open>The strict load, then the lenient one; the grants likewise.\<close>

definition load_sudo :: "config_files \<Rightarrow> sudo_config result" where
  "load_sudo f =
     (case LoadSudoConfigStrict (sudoConfigPath f) (cf_sudo f) of
        Inr c \<Rightarrow> Inr c
      | Inl _ \<Rightarrow> LoadSudoConfig (sudoConfigPath f) (cf_sudo f))"

definition start_daemon :: "config_files \<Rightarrow> (string \<Rightarrow> node result) \<Rightarrow> log_state \<Rightarrow> 'l daemon rpc_state result" where
  "start_daemon f dsk lg =
     (case loadConfig f of
        Inl e \<Rightarrow> Inl (''cannot load config: '' @ e)
      | Inr (c, path) \<Rightarrow>
     (case load_sudo f of
        Inl e \<Rightarrow> Inl (''cannot load mcp-sudo.yaml: '' @ e)
      | Inr sudo \<Rightarrow>
          Inr (NewRPCHandler sudo (TimeoutSeconds (Worker c)) (dc_Tools c) NewTTLCache
            \<lparr>daemonConfig = c, usersPath = path, disk = dsk,
             limiterManager = NewLimiterManager (DefaultRPS (RateLimits c)) (DefaultBurst (RateLimits c)),
             sessions = [], sessionCounter = 0, log_settings = Configure (Logging c) lg\<rparr>)))"

subsection \<open>stdio\<close>

text \<open>\<open>current\<close> is the account of the process, as \<open>user.Current\<close> says.\<close>

definition stdioUser :: "accounts \<Rightarrow> os_user result \<Rightarrow> string \<Rightarrow> int \<Rightarrow> string result" where
  "stdioUser lookup current asUser uid =
     (case (if uid = 0 then
              (if asUser = [] then Inl ''started as root: pass --user NAME (an unprivileged account) - mcpd stdio never runs tools as root''
               else Inr asUser)
            else (case current of
                    Inl e \<Rightarrow> Inl (''cannot look up the current user: '' @ e)
                  | Inr self \<Rightarrow>
                      if asUser \<noteq> [] \<and> asUser \<noteq> os_Username self
                      then Inl (''--user '' @ asUser @ '' needs root; running as '' @ os_Username self @ '', workers can only run as '' @ os_Username self)
                      else Inr (os_Username self))) of
        Inl e \<Rightarrow> Inl e
      | Inr name \<Rightarrow>
          (case lookup name of
             Inl e \<Rightarrow> Inl (''no OS account '' @ quoted name @ '': '' @ e)
           | Inr u \<Rightarrow>
               if Uid u = ''0'' then Inl (quoted name @ '' is uid 0 (root) - mcpd stdio never runs tools as root'')
               else Inr (os_Username u)))"

text \<open>
  The configuration of \<open>runStdio\<close>: the directory of the arguments or of the environment must load; the
  default one is used only when it has a daemon.yaml.
\<close>

definition stdio_settings :: "config_files \<Rightarrow> string \<Rightarrow> string \<Rightarrow> bool \<Rightarrow> (int \<times> tools_config) result" where
  "stdio_settings f arg env hasFile =
     (let dir0 = (if arg = [] then env else arg); explicit = (dir0 \<noteq> []); dir = (if explicit then dir0 else ''configs'') in
      if hasFile \<or> explicit then
        (case LoadConfigDir (cf_lookup f) (cf_daemon f) (cf_users f) dir False of
           Inl e \<Rightarrow> Inl (''cannot load config: '' @ e)
         | Inr (c, _) \<Rightarrow> Inr (TimeoutSeconds (Worker c), dc_Tools c))
      else Inr (30, []))"

definition no_sudo :: sudo_config where
  "no_sudo = \<lparr>Users = []\<rparr>"

definition stdio_state :: "int \<times> tools_config \<Rightarrow> unit rpc_state" where
  "stdio_state s = NewRPCHandler no_sudo (fst s) (snd s) NewTTLCache ()"

definition stdio_session :: "string \<Rightarrow> session" where
  "stdio_session username = \<lparr>sess_ID = ''stdio'', sess_User = username\<rparr>"

text \<open>One line: \<open>dec\<close> is the JSON decoder, \<open>None\<close> for what is no JSON.\<close>

definition stdio_line ::
  "(string \<Rightarrow> json option) \<Rightarrow> unit rpc_env \<Rightarrow> local_env \<Rightarrow> static_docs \<Rightarrow> string \<Rightarrow> string \<Rightarrow> unit rpc_state \<Rightarrow> unit rpc_out outcome" where
  "stdio_line dec e l docs username text st =
     (let line = trim_space text in
      if line = [] then outcome.Finished \<lparr>events = [], rpc_after = st, spawned = [], call_log = None\<rparr>
      else case (case dec line of None \<Rightarrow> Inl ''invalid JSON'' | Some v \<Rightarrow> parse_request v) of
        Inl _ \<Rightarrow> outcome.Finished (answer JNull (no_response\<lparr>Error := Some (-32700, ''Parse error'')\<rparr>) st)
      | Inr req \<Rightarrow> ProcessJSONRPC e l docs False (stdio_session username) req st)"

text \<open>\<open>serveStdio\<close>, each line with the surroundings of its moment: the lines written and the processes started.\<close>

fun serveStdio ::
  "(string \<Rightarrow> json option) \<Rightarrow> static_docs \<Rightarrow> string \<Rightarrow> (unit rpc_env \<times> local_env \<times> string) list \<Rightarrow> unit rpc_state \<Rightarrow>
   (json list \<times> process list \<times> unit rpc_state) outcome" where
  "serveStdio dec docs username [] st = outcome.Finished ([], [], st)"
| "serveStdio dec docs username ((e, l, text) # rest) st =
     (case stdio_line dec e l docs username text st of
        Panicked \<Rightarrow> Panicked
      | outcome.Finished out \<Rightarrow>
          (case serveStdio dec docs username rest (rpc_after out) of
             Panicked \<Rightarrow> Panicked
           | outcome.Finished (evs, ps, st') \<Rightarrow> outcome.Finished (events out @ evs, spawned out @ ps, st')))"


subsection \<open>Over stdio\<close>

lemma no_sudo_facts:
  "\<not> CanRunAsRoot no_sudo u tool" "GetAllowedPaths no_sudo u tool = []" "NetworkPolicy no_sudo u tool = None"
  "PathAllowed p [] = None"
  by (simp_all add: CanRunAsRoot_def GetAllowedPaths_def NetworkPolicy_def tool_grant_def no_sudo_def PathAllowed_def)

lemma prepare_standard_no_sudo: "prepare_standard e no_sudo u tool args \<noteq> Panicked"
proof -
  have p: "step_paths no_sudo u tool priv path s \<noteq> Panicked" for priv path s
    by (simp add: step_paths_def Let_def split_beta no_sudo_facts)
  have n: "step_network no_sudo u tool a \<noteq> Panicked" for a
    by (simp add: step_network_def no_sudo_facts split: sum.split option.split)
  show ?thesis using p n by (auto simp: prepare_standard_def Let_def split_beta split: outcome.split)
qed

lemma HandleToolsCall_no_sudo:
  assumes "s_sudo (settings st) = no_sudo"
  shows "HandleToolsCall e sess params st \<noteq> Panicked"
proof -
  have "dispatch_tool e st u tool args \<noteq> Panicked" for u tool args
    using prepare_standard_no_sudo assms
    by (auto simp: dispatch_tool_def Let_def no_sudo_facts split: outcome.split sum.split prod.split option.split)
  then show ?thesis by (auto simp: HandleToolsCall_def split: sum.split outcome.split)
qed

lemma HandleToolsCall_settings:
  assumes "HandleToolsCall e sess params st = outcome.Finished out" and "ReloadConfig e = None"
  shows "settings (out_state out) = settings st"
proof (cases "call_params params")
  case (Inl m)
  then show ?thesis using assms by (auto simp: HandleToolsCall_def)
next
  case (Inr ta)
  have r: "run_standard e st u tool args priv = (ps, r, st') \<Longrightarrow> settings st' = settings st" for u tool args priv ps r st'
    by (auto simp: run_standard_def Let_def split: if_splits option.splits sum.splits prod.splits)
  have d: "dispatch_tool e st u tool args = outcome.Finished (x, args', audit, ps, st') \<Longrightarrow> settings st' = settings st"
    for u tool args x args' audit ps st'
    using assms(2)
    by (auto simp: dispatch_tool_def Let_def split: if_splits option.splits sum.splits prod.splits outcome.splits dest: r)
  obtain tool args where "ta = (tool, args)" by fastforce
  then show ?thesis using assms(1) Inr d by (auto simp: HandleToolsCall_def split: outcome.splits)
qed

lemma HandleResourcesRead_settings: "settings (ro_state (HandleResourcesRead e l sess params st)) = settings st"
  by (auto simp: HandleResourcesRead_def Let_def split: sum.splits option.splits prod.splits)

lemma ProcessJSONRPC_settings:
  assumes "ProcessJSONRPC e l docs gone sess req st = outcome.Finished out" and "ReloadConfig e = None"
  shows "settings (rpc_after out) = settings st"
proof (cases "ID req \<noteq> JNull \<and> Method req = ''tools/call''")
  case True
  then obtain o1 where o1: "HandleToolsCall e sess (Params req) st = outcome.Finished o1" "rpc_after out = out_state o1"
    using assms(1) by (auto simp: ProcessJSONRPC_def chan_send_Finished split: outcome.splits)
  then show ?thesis using HandleToolsCall_settings [OF o1(1) assms(2)] by simp
next
  case False
  then show ?thesis using assms(1)
    by (auto simp: ProcessJSONRPC_def chan_send_Finished answer_def HandleResourcesRead_settings Let_def
        split: outcome.splits if_splits)
qed

lemma ProcessJSONRPC_no_sudo:
  assumes "s_sudo (settings st) = no_sudo"
  shows "ProcessJSONRPC e l docs False sess req st \<noteq> Panicked"
  using HandleToolsCall_no_sudo [OF assms]
  by (auto simp: ProcessJSONRPC_def chan_send_def Let_def split: outcome.split)

lemma ProcessJSONRPC_NoRoot:
  assumes "ProcessJSONRPC e l docs gone sess req st = outcome.Finished out" and "p \<in> set (spawned out)"
    and "uids32 (wenv e)" and "NoRoot (wenv e)"
  shows "run_uid (wenv e) p \<noteq> 0"
proof
  assume r: "run_uid (wenv e) p = 0"
  consider "p \<in> set (ro_spawned (HandleResourcesRead e l sess (Params req) st))"
    | o1 where "HandleToolsCall e sess (Params req) st = outcome.Finished o1" "p \<in> set (out_spawned o1)"
    using assms(1,2) by (auto simp: ProcessJSONRPC_def chan_send_Finished answer_def Let_def split: if_splits outcome.splits)
  then show False
    using HandleResourcesRead_root [OF _ assms(3) r] HandleToolsCall_root [OF _ _ assms(3) r] assms(4) by cases blast+
qed

text \<open>What \<open>runStdio\<close> sets up: no root, no host namespaces, no reload.\<close>

definition stdio_env :: "unit rpc_env \<Rightarrow> bool" where
  "stdio_env e \<longleftrightarrow> NoRoot (wenv e) \<and> \<not> Containerized (wenv e) \<and> ReloadConfig e = None \<and> uids32 (wenv e)"


text \<open>
  C10. Whoever starts the stdio server, the workers run as an account whose uid is not 0: started by an
  ordinary user, as that user and no other; started as root, as the account \<open>--user\<close> names.
\<close>

theorem stdioUser_unprivileged:
  assumes "stdioUser lookup current asUser uid = Inr name"
  shows "\<exists>u asked. lookup asked = Inr u \<and> os_Username u = name \<and> Uid u \<noteq> ''0'' \<and>
    (if uid = 0 then asked = asUser \<and> asUser \<noteq> []
     else \<exists>self. current = Inr self \<and> asked = os_Username self \<and> (asUser = [] \<or> asUser = asked))"
  using assms unfolding stdioUser_def by (auto split: if_splits sum.splits)

theorem stdioUser_unprivileged_witness:
  "stdioUser ex_accounts (Inl ''no'') ''alice'' 0 = Inr ''alice'' \<and> (\<exists>u. ex_accounts ''alice'' = Inr u \<and> Uid u \<noteq> ''0'')"
proof -
  have s: "stdioUser ex_accounts (Inl ''no'') ''alice'' 0 = Inr ''alice''" by (simp add: stdioUser_def ex_accounts_def)
  show ?thesis using s stdioUser_unprivileged [OF s] by auto
qed


definition ex_stdio_env :: "unit rpc_env" where
  "ex_stdio_env = ex_rpc_env\<lparr>wenv := ex_env\<lparr>NoRoot := True, Containerized := False, euid := 1000\<rparr>\<rparr>"


subsection \<open>Every worker has a handler\<close>

definition tools_known :: "read_answer \<Rightarrow> bool" where
  "tools_known a \<longleftrightarrow> (\<forall>p \<in> set (fst a). proc_tool p \<in> set worker_handlers)"

lemma spawn_process_tool: "spawn_process env c user tool args priv t = Inr p \<Longrightarrow> proc_tool p = tool"
  using spawn_process_uid by blast

lemma tools_known_nil [simp]: "tools_known ([], r)"
  by (simp add: tools_known_def)

lemma tools_known_worker:
  "tool \<in> set worker_handlers \<Longrightarrow> tools_known (resource_worker e c user tool args priv mime)"
  by (auto simp: tools_known_def resource_worker_def SpawnWorker_started split_beta dest: spawn_process_tool)

lemma read_resource_tools: "tools_known (read_resource e l s user uri)"
proof -
  have k: "''read_interfaces'' \<in> set worker_handlers" "''services/status'' \<in> set worker_handlers" "''processes/read'' \<in> set worker_handlers"
    "''docker/inspect'' \<in> set worker_handlers" "''read_usb'' \<in> set worker_handlers" "''read_pci'' \<in> set worker_handlers"
    "''read_dmi'' \<in> set worker_handlers" "''read_modules'' \<in> set worker_handlers" "''read_routes'' \<in> set worker_handlers"
    "''disks/performance'' \<in> set worker_handlers" "CronTool \<in> set worker_handlers"
    "''files/stat'' \<in> set worker_handlers" "''files/filetype'' \<in> set worker_handlers" "''files/content'' \<in> set worker_handlers"
    by (simp_all add: worker_handlers_def CronTool_def)
  have "fst (file_target uri) \<in> set worker_handlers" using file_tools(1) [of uri] k(12-14) by auto
  then have "tools_known (file_Handle e uri user c)" for c
    unfolding file_Handle_def split_beta Let_def by (rule tools_known_worker)
  moreover have "tools_known (readCrontabResource e s user uri)"
  proof -
    have "tools_known (fst (SpawnWorker env run user CronTool args priv c t), r)" for env run args priv c t r
      using k(11) spawn_process_tool by (auto simp: tools_known_def SpawnWorker_started)
    then show ?thesis by (simp add: readCrontabResource_def split_beta Let_def split: sum.split)
  qed
  moreover have "tools_known (docker_Handle e uri user c)" for c
    using k(4) by (auto simp: docker_Handle_def split_beta Let_def tools_known_worker split: option.split sum.split)
  moreover have "tools_known (process_Handle e uri user c)" for c
    using k(3) by (auto simp: process_Handle_def split_beta Let_def tools_known_worker split: option.split)
  ultimately show ?thesis
    using k by (simp add: read_resource_def service_Handle_def disks_Handle_def strict_read_def Let_def tools_known_worker)
qed

text \<open>
  C11. No request can make the daemon start a worker for a tool the worker does not have: whatever a tool call
  or a resource read starts is in the table of handlers of the worker mode, so no call ends in
  \<open>Unknown tool\<close>.
\<close>

theorem workers_have_handlers:
  assumes "ProcessJSONRPC e l docs gone sess req st = outcome.Finished out" and "p \<in> set (spawned out)"
  shows "proc_tool p \<in> set worker_handlers"
proof -
  have std: "list_all (\<lambda>t. t \<in> set worker_handlers) (CronTool # standardWorkers)"
    by code_simp
  consider "p \<in> set (ro_spawned (HandleResourcesRead e l sess (Params req) st))"
    | o1 where "HandleToolsCall e sess (Params req) st = outcome.Finished o1" "p \<in> set (out_spawned o1)"
    using assms by (auto simp: ProcessJSONRPC_def chan_send_Finished answer_def Let_def split: if_splits outcome.splits)
  then show ?thesis
  proof cases
    case 1
    obtain uri where "p \<in> set (fst (read_resource e l (settings st) (sess_User sess) uri))"
      by (rule HandleResourcesRead_spawned [OF 1])
    then show ?thesis using read_resource_tools unfolding tools_known_def by blast
  next
    case (2 o1)
    obtain tool args r args' audit st' where d: "dispatch_tool e st (sess_User sess) tool args = outcome.Finished (r, args', audit, out_spawned o1, st')"
      by (rule HandleToolsCall_dispatch [OF 2])
    have "tool \<in> set (CronTool # standardWorkers) \<and> proc_tool p = tool"
      using d 2(2) by (cases rule: dispatch_spawned) (auto dest: spawn_process_tool)
    then show ?thesis using std by (auto simp: list_all_iff)
  qed
qed

theorem workers_have_handlers_witness:
  "\<exists>out p. ProcessJSONRPC ex_rpc_env ex_local ex_docs False ex_session (ex_request ''resources/read'' (ex_read ''file:///srv/./a''))
       (ex_state ex_res_sudo) = outcome.Finished out \<and> spawned out = [p] \<and> proc_tool p \<in> set worker_handlers"
proof -
  let ?p = "root_process ''files/content'' (Some (file_args ex_res_sudo ''alice'' ''/srv/a'' True))"
  obtain out where o: "ProcessJSONRPC ex_rpc_env ex_local ex_docs False ex_session (ex_request ''resources/read'' (ex_read ''file:///srv/./a''))
       (ex_state ex_res_sudo) = outcome.Finished out" "spawned out = [?p]"
    using ex_file_spawned by (simp add: ProcessJSONRPC_def ex_request_def chan_send_def Let_def)
  then show ?thesis using workers_have_handlers [OF o(1), of ?p] by auto
qed

end
