(* ===== verification/GoFmt.thy ===== *)
theory GoFmt
  imports Prelude
begin

text \<open>
  Two more pieces of Go's library that the tools' requests and reports use: the query strings of
  \<^verbatim>\<open>net/url\<close> (\<open>Values.Encode\<close>) and the printing of sizes, where an \<open>int64\<close>
  is turned into a \<open>float64\<close>, divided by powers of 1024 and shown with one decimal
  (\<open>%.1f\<close>).
\<close>

subsection \<open>Query strings\<close>

definition hex_upper :: "nat \<Rightarrow> char" where
  "hex_upper n = (if n < 10 then char_of (48 + n) else char_of (55 + n))"

text \<open>\<open>url.QueryEscape\<close>.\<close>

definition unreserved :: "char \<Rightarrow> bool" where
  "unreserved c \<longleftrightarrow>
     (let n = (of_char c :: nat) in (97 \<le> n \<and> n \<le> 122) \<or> (65 \<le> n \<and> n \<le> 90) \<or> (48 \<le> n \<and> n \<le> 57)) \<or>
     c = CHR ''-'' \<or> c = CHR ''_'' \<or> c = CHR ''.'' \<or> c = CHR ''~''"

definition query_char :: "char \<Rightarrow> string" where
  "query_char c =
     (if unreserved c then [c]
      else if c = CHR '' '' then ''+''
      else CHR ''%'' # hex_upper (of_char c div 16) # [hex_upper (of_char c mod 16)])"

definition query_escape :: "string \<Rightarrow> string" where
  "query_escape s = concat (map query_char s)"

text \<open>\<open>Values.Encode\<close> of a value with one entry per key: sorted by key.\<close>

definition values_encode :: "(string \<times> string) list \<Rightarrow> string" where
  "values_encode v = join_with ''&'' (map (\<lambda>(k, x). query_escape k @ ''='' @ query_escape x) (sort_key fst v))"

subsection \<open>Sizes\<close>

definition round_half_even :: "nat \<Rightarrow> nat \<Rightarrow> nat" where
  "round_half_even a b =
     (let q = a div b; r = a mod b in if 2 * r < b \<or> (2 * r = b \<and> even q) then q else q + 1)"

text \<open>The binary exponent by which a number exceeds the 53 bits of a \<open>float64\<close>.\<close>

fun float_shift :: "nat \<Rightarrow> nat" where
  "float_shift n = (if n < 9007199254740992 then 0 else Suc (float_shift (n div 2)))"

declare float_shift.simps [simp del]

definition float64_of :: "nat \<Rightarrow> nat" where
  "float64_of n = (let k = float_shift n in round_half_even n (2 ^ k) * 2 ^ k)"

text \<open>\<open>%.1f\<close> of the exact quotient \<open>a / b\<close>, which is a \<open>float64\<close> when \<open>b\<close> is a power of two.\<close>

definition fixed1 :: "nat \<Rightarrow> nat \<Rightarrow> string" where
  "fixed1 a b = (let t = round_half_even (a * 10) b in nat_str (t div 10) @ ''.'' @ nat_str (t mod 10))"

definition signed_fixed1 :: "int \<Rightarrow> nat \<Rightarrow> string" where
  "signed_fixed1 a b = (if a < 0 then CHR ''-'' # fixed1 (nat (- a)) b else fixed1 (nat a) b)"

text \<open>The loop over the units: the value is the quotient of \<open>a\<close> by \<open>b\<close>.\<close>

fun size_loop :: "string list \<Rightarrow> int \<Rightarrow> nat \<Rightarrow> string" where
  "size_loop [] a b = signed_fixed1 a b"
| "size_loop [u] a b = signed_fixed1 a b @ '' '' @ u"
| "size_loop (u # us) a b =
     (if a < 1024 * int b then signed_fixed1 a b @ '' '' @ u else size_loop us a (1024 * b))"

definition size_units :: "string list" where
  "size_units = [''B'', ''KiB'', ''MiB'', ''GiB'', ''TiB'']"

definition humanSize :: "int \<Rightarrow> string" where
  "humanSize n =
     size_loop size_units (if n < 0 then - int (float64_of (nat (- n))) else int (float64_of (nat n))) 1"

end
