(* ===== verification/DockerClient.thy ===== *)
theory DockerClient
  imports DockerAllow GoJson GoFmt
begin

text \<open>
  The client of the Docker Engine (\<^verbatim>\<open>internal/docker/client.go\<close>): requests over a unix
  socket, the errors they end in, and the multiplexed streams of logs and exec. The Engine, the transport
  of \<^verbatim>\<open>net/http\<close> and the socket's file are a parameter; the client keeps the
  list of requests it has sent, so that what a tool asks of the Engine can be stated. The round trip of
  the stream format and its behaviour on a truncated stream are proved here.
\<close>

subsection \<open>Requests and answers\<close>

datatype http_method = GET | POST | DELETE

record api_request =
  rq_Method :: http_method
  rq_path :: string
  rq_body :: "json option"

text \<open>
  An error is either an answer of the Engine outside 200..299, which callers can recognise
  (\<open>errors.As\<close>), or another one: its text and whether it is \<open>context.DeadlineExceeded\<close>.
\<close>

datatype client_err = APIError int string | PlainErr bool string

fun err_Error :: "client_err \<Rightarrow> string" where
  "err_Error (APIError status m) =
     (if m = [] then ''docker API returned '' @ int_str status
      else ''docker API returned '' @ int_str status @ '': '' @ m)"
| "err_Error (PlainErr d t) = t"

text \<open>
  An answer: its status, the bytes of the body, the error that ends the body if it is cut off, the first
  JSON value of the body, and the document that the first 64 KiB of the body are, if they are one.
\<close>

record api_response =
  StatusCode :: int
  body_bytes :: string
  body_fail :: "client_err option"
  body_first :: "json option"
  body_64k :: "json option"

text \<open>A failed exchange: its text, and the text of the \<open>net.OpError\<close> inside when there is one.\<close>

record http_err =
  he_text :: string
  he_op :: "string option"

datatype stat_result = Present | NotExist | StatErr string

record 'w engine =
  host_root_env :: bool
  EvalSymlinks :: "string \<Rightarrow> string result"
  sock_stat :: "string \<Rightarrow> 'w \<Rightarrow> stat_result"
  new_request :: "string \<Rightarrow> unit result"
  http_do :: "string \<Rightarrow> int \<Rightarrow> api_request \<Rightarrow> 'w \<Rightarrow> (http_err + api_response) \<times> 'w"

record 'w wire =
  sent :: "api_request list"
  world :: 'w

record client =
  cl_socket :: string
  cl_dial :: string
  cl_Timeout :: int

definition DefaultSocket :: string where
  "DefaultSocket = ''/var/run/docker.sock''"

definition dialPath :: "('w, 'z) engine_scheme \<Rightarrow> string \<Rightarrow> string" where
  "dialPath E socket =
     (if \<not> host_root_env E \<or> has_prefix socket ''/proc/1/root/'' then socket
      else ''/proc/1/root'' @ (case EvalSymlinks E socket of Inr r \<Rightarrow> r | Inl _ \<Rightarrow> socket))"

text \<open>Timeouts are in seconds.\<close>

definition New :: "('w, 'z) engine_scheme \<Rightarrow> string \<Rightarrow> int \<Rightarrow> client" where
  "New E socket0 timeout =
     (let socket = (if socket0 = [] then DefaultSocket else socket0)
      in \<lparr>cl_socket = socket, cl_dial = dialPath E socket, cl_Timeout = (if timeout \<le> 0 then 30 else timeout)\<rparr>)"

definition dialError :: "('w, 'z) engine_scheme \<Rightarrow> client \<Rightarrow> http_err \<Rightarrow> 'w \<Rightarrow> client_err" where
  "dialError E c err w =
     (case sock_stat E (cl_dial c) w of
        NotExist \<Rightarrow> PlainErr False (''docker socket '' @ cl_socket c @ '' not found - is Docker installed and running on this host? (mcpd never installs it; set worker.docker_socket in daemon.yaml for a non-standard path)'')
      | StatErr t \<Rightarrow> PlainErr False (''docker socket '' @ cl_socket c @ '' is not usable: '' @ t)
      | Present \<Rightarrow>
          (case he_op err of
             Some t \<Rightarrow> PlainErr False (''docker socket '' @ cl_socket c @ '' is not responding: '' @ t)
           | None \<Rightarrow> PlainErr False (''docker socket '' @ cl_socket c @ '': '' @ he_text err)))"

text \<open>\<open>do\<close>: one exchange. The content type goes with a body.\<close>

definition client_do ::
  "('w, 'z) engine_scheme \<Rightarrow> client \<Rightarrow> http_method \<Rightarrow> string \<Rightarrow> json option \<Rightarrow> 'w wire \<Rightarrow> (client_err + api_response) \<times> 'w wire" where
  "client_do E c method path body s =
     (case new_request E (''http://docker'' @ path) of
        Inl t \<Rightarrow> (Inl (PlainErr False t), s)
      | Inr _ \<Rightarrow>
          (let rq = \<lparr>rq_Method = method, rq_path = path, rq_body = body\<rparr> in
           case http_do E (cl_dial c) (cl_Timeout c) rq (world s) of
             (Inl e, w) \<Rightarrow> (Inl (dialError E c e w), \<lparr>sent = sent s @ [rq], world = w\<rparr>)
           | (Inr r, w) \<Rightarrow> (Inr r, \<lparr>sent = sent s @ [rq], world = w\<rparr>)))"

definition apiError :: "api_response \<Rightarrow> client_err" where
  "apiError r =
     (let plain = trim_space (take 65536 (body_bytes r));
          msg = (case body_64k r of
                   None \<Rightarrow> plain
                 | Some v \<Rightarrow>
                     (let vs = field_vals [''message''] ''message'' v; m = dec_string [] vs in
                      if is_structdoc v \<and> list_all is_str vs \<and> m \<noteq> [] then m else plain))
      in APIError (StatusCode r) msg)"

definition refused :: "api_response \<Rightarrow> bool" where
  "refused r \<longleftrightarrow> StatusCode r < 200 \<or> 299 < StatusCode r"

text \<open>Decoding an answer: \<open>dec\<close> is the decoding into the caller's variable, \<open>None\<close> its type errors.\<close>

definition decode_body :: "(json \<Rightarrow> 'a option) \<Rightarrow> api_response \<Rightarrow> client_err + 'a" where
  "decode_body dec r =
     (case Option.bind (body_first r) dec of None \<Rightarrow> Inl (PlainErr False ''invalid JSON answer'') | Some x \<Rightarrow> Inr x)"

definition GetJSON ::
  "('w, 'z) engine_scheme \<Rightarrow> client \<Rightarrow> string \<Rightarrow> (json \<Rightarrow> 'a option) \<Rightarrow> 'w wire \<Rightarrow> (client_err + 'a) \<times> 'w wire" where
  "GetJSON E c path dec s =
     (case client_do E c GET path None s of
        (Inl e, s1) \<Rightarrow> (Inl e, s1)
      | (Inr r, s1) \<Rightarrow> (if refused r then Inl (apiError r) else decode_body dec r, s1))"

text \<open>\<open>io.ReadAll\<close> of a body, and of one behind an \<open>io.LimitReader\<close>, which ends first if it can.\<close>

definition read_all :: "api_response \<Rightarrow> client_err + string" where
  "read_all r = (case body_fail r of Some e \<Rightarrow> Inl e | None \<Rightarrow> Inr (body_bytes r))"

definition read_limited :: "nat \<Rightarrow> api_response \<Rightarrow> client_err + string" where
  "read_limited limit r =
     (if limit \<le> length (body_bytes r) then Inr (take limit (body_bytes r)) else read_all r)"

definition GetRaw ::
  "('w, 'z) engine_scheme \<Rightarrow> client \<Rightarrow> string \<Rightarrow> 'w wire \<Rightarrow> (client_err + string) \<times> 'w wire" where
  "GetRaw E c path s =
     (case client_do E c GET path None s of
        (Inl e, s1) \<Rightarrow> (Inl e, s1)
      | (Inr r, s1) \<Rightarrow> (if refused r then Inl (apiError r) else read_all r, s1))"

definition GetStream ::
  "('w, 'z) engine_scheme \<Rightarrow> client \<Rightarrow> string \<Rightarrow> 'w wire \<Rightarrow> (client_err + api_response) \<times> 'w wire" where
  "GetStream E c path s =
     (case client_do E c GET path None s of
        (Inl e, s1) \<Rightarrow> (Inl e, s1)
      | (Inr r, s1) \<Rightarrow> (if refused r then Inl (apiError r) else Inr r, s1))"

text \<open>\<open>PostJSON\<close>; without an \<open>out\<close> nothing is decoded, which is the decoder that accepts without looking.\<close>

definition PostJSON ::
  "('w, 'z) engine_scheme \<Rightarrow> client \<Rightarrow> string \<Rightarrow> json option \<Rightarrow> (json \<Rightarrow> 'a option) option \<Rightarrow> 'w wire \<Rightarrow>
   (client_err + 'a option) \<times> 'w wire" where
  "PostJSON E c path body out s =
     (case client_do E c POST path body s of
        (Inl e, s1) \<Rightarrow> (Inl e, s1)
      | (Inr r, s1) \<Rightarrow>
          (if refused r then Inl (apiError r)
           else case out of
                  None \<Rightarrow> Inr None
                | Some dec \<Rightarrow> (case decode_body dec r of Inl e \<Rightarrow> Inl e | Inr x \<Rightarrow> Inr (Some x)), s1))"

definition PostStream ::
  "('w, 'z) engine_scheme \<Rightarrow> client \<Rightarrow> string \<Rightarrow> json option \<Rightarrow> 'w wire \<Rightarrow> (client_err + api_response) \<times> 'w wire" where
  "PostStream E c path body s =
     (case client_do E c POST path body s of
        (Inl e, s1) \<Rightarrow> (Inl e, s1)
      | (Inr r, s1) \<Rightarrow> (if refused r then Inl (apiError r) else Inr r, s1))"

definition client_Delete ::
  "('w, 'z) engine_scheme \<Rightarrow> client \<Rightarrow> string \<Rightarrow> 'w wire \<Rightarrow> client_err option \<times> 'w wire" where
  "client_Delete E c path s =
     (case client_do E c DELETE path None s of
        (Inl e, s1) \<Rightarrow> (Some e, s1)
      | (Inr r, s1) \<Rightarrow> (if refused r then Some (apiError r) else None, s1))"

text \<open>\<open>Q\<close> skips empty values; a later pair replaces an earlier one with its key.\<close>

fun q_values :: "string list \<Rightarrow> (string \<times> string) list \<Rightarrow> (string \<times> string) list" where
  "q_values (k # x # rest) v = q_values rest (if x \<noteq> [] then map_put k x v else v)"
| "q_values _ v = v"

definition docker_Q :: "string list \<Rightarrow> string" where
  "docker_Q pairs = (let v = q_values pairs [] in if v = [] then [] else ''?'' @ values_encode v)"

subsection \<open>Streams\<close>

definition byte_val :: "char \<Rightarrow> nat" where
  "byte_val c = of_char c"

definition be_uint32 :: "string \<Rightarrow> nat" where
  "be_uint32 b = foldl (\<lambda>n c. n * 256 + byte_val c) 0 b"

text \<open>
  \<open>frames\<close>: what \<open>emit\<close> is called with, in order. The rest of the stream still to be read
  is \<open>rest\<close>; \<open>raw\<close> is the whole of it, which an unframed stream is taken to be.
\<close>

function frames_loop :: "string \<Rightarrow> string \<Rightarrow> (nat \<times> string) list" where
  "frames_loop raw rest =
     (if length rest < 8 then []
      else if 2 < byte_val (rest ! 0) \<or> byte_val (rest ! 1) \<noteq> 0 \<or> byte_val (rest ! 2) \<noteq> 0 \<or> byte_val (rest ! 3) \<noteq> 0
      then [(1, raw)]
      else let n = be_uint32 (take 4 (drop 4 rest)); r = drop 8 rest; m = min n (length r)
           in (byte_val (rest ! 0), take m r) # frames_loop raw (drop m r))"
  by pat_completeness auto
termination by (relation "measure (\<lambda>(raw, rest). length rest)") auto

declare frames_loop.simps [simp del]

definition frames :: "nat \<Rightarrow> api_response \<Rightarrow> client_err + (nat \<times> string) list" where
  "frames limit r = (case read_limited limit r of Inl e \<Rightarrow> Inl e | Inr raw \<Rightarrow> Inr (frames_loop raw raw))"

definition stdout_of :: "(nat \<times> string) list \<Rightarrow> string" where
  "stdout_of fs = concat (map snd (filter (\<lambda>f. fst f \<noteq> 2) fs))"

definition stderr_of :: "(nat \<times> string) list \<Rightarrow> string" where
  "stderr_of fs = concat (map snd (filter (\<lambda>f. fst f = 2) fs))"

definition Demux :: "nat \<Rightarrow> api_response \<Rightarrow> client_err + (string \<times> string)" where
  "Demux limit r =
     (case frames limit r of Inl e \<Rightarrow> Inl e | Inr fs \<Rightarrow> Inr (stdout_of fs, stderr_of fs))"

definition DemuxCombined :: "nat \<Rightarrow> api_response \<Rightarrow> client_err + string" where
  "DemuxCombined limit r =
     (case frames limit r of Inl e \<Rightarrow> Inl e | Inr fs \<Rightarrow> Inr (concat (map snd fs)))"


subsection \<open>The stream format\<close>

text \<open>How the Engine writes a frame, and what a stream cut after \<open>k\<close> bytes still tells.\<close>

definition be_bytes :: "nat \<Rightarrow> string" where
  "be_bytes n = [char_of (n div 16777216), char_of (n div 65536 mod 256), char_of (n div 256 mod 256), char_of (n mod 256)]"

definition frame_bytes :: "nat \<times> string \<Rightarrow> string" where
  "frame_bytes f = [char_of (fst f), CHR 0x00, CHR 0x00, CHR 0x00] @ be_bytes (length (snd f)) @ snd f"

definition frame_ok :: "nat \<times> string \<Rightarrow> bool" where
  "frame_ok f \<longleftrightarrow> fst f \<le> 2 \<and> length (snd f) < 4294967296"

definition stream_bytes :: "(nat \<times> string) list \<Rightarrow> string" where
  "stream_bytes fs = concat (map frame_bytes fs)"

fun cut_frames :: "nat \<Rightarrow> (nat \<times> string) list \<Rightarrow> (nat \<times> string) list" where
  "cut_frames k [] = []"
| "cut_frames k ((t, p) # fs) =
     (if k < 8 then []
      else if k - 8 < length p then [(t, take (k - 8) p)]
      else (t, p) # cut_frames (k - 8 - length p) fs)"

lemma be_uint32_bytes:
  assumes "n < 4294967296"
  shows "be_uint32 (be_bytes n) = n"
proof -
  have "n div 65536 = n div 256 div 256" "n div 16777216 = n div 256 div 256 div 256"
    by (simp_all add: div_mult2_eq [symmetric])
  moreover have "n div 16777216 < 256" using assms by (simp add: less_mult_imp_div_less)
  ultimately show ?thesis
    by (simp add: be_uint32_def be_bytes_def byte_val_def mult.commute)
qed

lemma frames_loop_frame:
  assumes "frame_ok (t, p)" and "8 \<le> k"
  shows "frames_loop raw (take k (frame_bytes (t, p) @ rest)) =
    (let r = take (k - 8) (p @ rest); m = min (length p) (length r) in (t, take m r) # frames_loop raw (drop m r))"
proof -
  define a where "a = [char_of t, CHR 0x00, CHR 0x00, CHR 0x00]"
  define b where "b = be_bytes (length p)"
  define r where "r = take (k - 8) (p @ rest)"
  have l: "length a = 4" "length b = 4" by (simp_all add: a_def b_def be_bytes_def)
  have s: "take k (frame_bytes (t, p) @ rest) = a @ b @ r"
    using assms(2) l by (simp add: frame_bytes_def r_def flip: a_def b_def)
  have d: "take 4 (drop 4 (a @ b @ r)) = b" "drop 8 (a @ b @ r) = r" using l by simp_all
  have n: "be_uint32 b = length p"
    unfolding b_def using assms(1) by (intro be_uint32_bytes) (simp add: frame_ok_def)
  have t: "byte_val (char_of t) = t" "t \<le> 2" using assms(1) by (simp_all add: frame_ok_def byte_val_def)
  have h: "(a @ b @ r) ! 0 = char_of t" "(a @ b @ r) ! 1 = CHR 0x00" "(a @ b @ r) ! 2 = CHR 0x00" "(a @ b @ r) ! 3 = CHR 0x00"
    by (simp_all add: a_def)
  have z: "byte_val (CHR 0x00) = 0" by (simp add: byte_val_def)
  have ge: "\<not> length (a @ b @ r) < 8" using l by simp
  have "frames_loop raw (a @ b @ r) =
      (let m = min (length p) (length r) in (t, take m r) # frames_loop raw (drop m r))"
    by (subst frames_loop.simps) (use t(2) in \<open>simp only: ge h z t(1) d n if_False Let_def\<close>, simp)
  then show ?thesis unfolding s by (simp only: Let_def r_def)
qed

lemma frames_loop_cut:
  "list_all frame_ok fs \<Longrightarrow> frames_loop raw (take k (stream_bytes fs)) = cut_frames k fs"
proof (induction fs arbitrary: k)
  case Nil
  then show ?case by (simp add: stream_bytes_def frames_loop.simps)
next
  case (Cons f fs)
  obtain t p where f: "f = (t, p)" by (cases f)
  have e: "frames_loop raw [] = []" by (simp add: frames_loop.simps)
  have st: "stream_bytes (f # fs) = frame_bytes (t, p) @ stream_bytes fs" by (simp add: stream_bytes_def f)
  consider "k < 8" | "8 \<le> k" "k - 8 < length p" | "8 \<le> k" "length p \<le> k - 8" by linarith
  then show ?case
  proof cases
    case 1
    then show ?thesis by (simp add: f frames_loop.simps)
  next
    case 2
    then show ?thesis
      using Cons.prems frames_loop_frame [of t p k raw "stream_bytes fs"] by (simp add: f st [unfolded f] Let_def e)
  next
    case 3
    then show ?thesis
      using Cons frames_loop_frame [of t p k raw "stream_bytes fs"] by (simp add: f st [unfolded f] Let_def)
  qed
qed

lemma cut_frames_all: "length (stream_bytes fs) \<le> k \<Longrightarrow> cut_frames k fs = fs"
  by (induction k fs rule: cut_frames.induct) (auto simp: stream_bytes_def frame_bytes_def be_bytes_def)

lemma cut_frames_prefix:
  assumes "\<And>t p q. P (t, p) = P (t, q)"
  shows "prefix (concat (map snd (filter P (cut_frames k fs)))) (concat (map snd (filter P fs)))"
proof (induction k fs rule: cut_frames.induct)
  case (2 k t p fs)
  have e: "P (t, take (k - 8) p) = P (t, p)" by (rule assms)
  consider "k < 8" | "8 \<le> k" "k - 8 < length p" | "8 \<le> k" "length p \<le> k - 8" by linarith
  then show ?case
  proof cases
    case 2
    then show ?thesis by (simp add: e prefix_prefix [OF take_is_prefix])
  next
    case 3
    then have "prefix (concat (map snd (filter P (cut_frames (k - 8 - length p) fs)))) (concat (map snd (filter P fs)))"
      by (intro "2.IH") auto
    with 3 show ?thesis by simp
  qed simp
qed simp

lemma cut_frames_length: "length (concat (map snd (cut_frames k fs))) \<le> k"
proof (induction k fs rule: cut_frames.induct)
  case (2 k t p fs)
  consider "k < 8" | "8 \<le> k" "k - 8 < length p" | "8 \<le> k" "length p \<le> k - 8" by linarith
  then show ?case
  proof cases
    case 3
    then have "length (concat (map snd (cut_frames (k - 8 - length p) fs))) \<le> k - 8 - length p"
      by (intro "2.IH") auto
    with 3 have "length p + length (concat (map snd (cut_frames (k - 8 - length p) fs))) \<le> k" by linarith
    with 3 show ?thesis by simp
  qed simp_all
qed simp


text \<open>
  C19. Reading a stream the Engine wrote loses nothing and adds nothing: with frames of types 0 to 2 the two
  outputs of \<open>Demux\<close>, and the interleaved one of \<open>DemuxCombined\<close>, are the payloads in order. When
  the limit cuts the stream, anywhere, the outputs are prefixes of the true ones of at most \<open>limit\<close> bytes,
  and no byte of a header ever shows.
\<close>

theorem Demux_frames:
  assumes "body_bytes r = stream_bytes fs" and "body_fail r = None" and "list_all frame_ok fs"
  shows "\<exists>out err all. Demux limit r = Inr (out, err) \<and> DemuxCombined limit r = Inr all \<and>
    prefix out (stdout_of fs) \<and> prefix err (stderr_of fs) \<and> prefix all (concat (map snd fs)) \<and>
    length all \<le> limit \<and> length out + length err = length all \<and>
    (length (stream_bytes fs) \<le> limit \<longrightarrow>
       out = stdout_of fs \<and> err = stderr_of fs \<and> all = concat (map snd fs))"
proof -
  let ?gs = "cut_frames limit fs"
  have "read_limited limit r = Inr (take limit (stream_bytes fs))"
    using assms(1,2) by (simp add: read_limited_def read_all_def)
  then have f: "frames limit r = Inr ?gs" using frames_loop_cut [OF assms(3)] by (simp add: frames_def)
  have "length (stdout_of gs) + length (stderr_of gs) = length (concat (map snd gs))" for gs
    by (induction gs) (auto simp: stdout_of_def stderr_of_def)
  moreover have "prefix (stdout_of ?gs) (stdout_of fs)" "prefix (stderr_of ?gs) (stderr_of fs)"
    unfolding stdout_of_def stderr_of_def by (rule cut_frames_prefix, simp)+
  moreover have "prefix (concat (map snd ?gs)) (concat (map snd fs))"
    using cut_frames_prefix [of "\<lambda>_. True" limit fs] by simp
  ultimately show ?thesis
    using cut_frames_length [of limit fs] by (auto simp: Demux_def DemuxCombined_def f cut_frames_all)
qed

definition ex_frames :: "(nat \<times> string) list" where
  "ex_frames = [(1, ''one ''), (2, ''bad!''), (1, ''two'')]"

definition ex_stream :: api_response where
  "ex_stream = \<lparr>StatusCode = 200, body_bytes = stream_bytes ex_frames, body_fail = None, body_first = None, body_64k = None\<rparr>"

theorem Demux_frames_witness:
  "\<exists>out err all. Demux 30 ex_stream = Inr (out, err) \<and> DemuxCombined 30 ex_stream = Inr all \<and>
     prefix out ''one two'' \<and> prefix err ''bad!'' \<and> prefix all ''one bad!two'' \<and> length all \<le> 30"
proof -
  have "list_all frame_ok ex_frames" by (simp add: ex_frames_def frame_ok_def)
  moreover have "stdout_of ex_frames = ''one two''" "stderr_of ex_frames = ''bad!''" "concat (map snd ex_frames) = ''one bad!two''"
    by code_simp+
  ultimately show ?thesis
    using Demux_frames [of ex_stream ex_frames 30] by (auto simp: ex_stream_def)
qed

text \<open>
  An unframed stream, of a container with a terminal, is shown whole only when it has at least eight
  bytes; a shorter one is dropped. And a stream that stops being framed in the middle is shown from its
  start, headers included, after the frames already shown.
\<close>

lemma short_terminal_output_lost:
  assumes "length (body_bytes r) < 8" and "body_fail r = None" and "0 < limit"
  shows "DemuxCombined limit r = Inr [] \<and> Demux limit r = Inr ([], [])"
proof -
  have "read_limited limit r = Inr (take limit (body_bytes r))" using assms(2) by (simp add: read_limited_def read_all_def)
  moreover have "frames_loop raw (take limit (body_bytes r)) = []" for raw
    using assms(1) by (subst frames_loop.simps) simp
  ultimately show ?thesis by (simp add: DemuxCombined_def Demux_def frames_def stdout_of_def stderr_of_def)
qed

lemma unframed_tail_repeats:
  assumes "frame_ok (t, p)" and "8 \<le> length x" and "2 < byte_val (hd x)" and "8 + length p + length x < limit"
    and "body_bytes r = frame_bytes (t, p) @ x" and "body_fail r = None"
  shows "DemuxCombined limit r = Inr (p @ frame_bytes (t, p) @ x)"
proof -
  let ?raw = "frame_bytes (t, p) @ x"
  have l: "length ?raw = 8 + length p + length x" by (simp add: frame_bytes_def be_bytes_def)
  have "read_limited limit r = Inr ?raw" using assms(4-6) l by (simp add: read_limited_def read_all_def)
  moreover have "x ! 0 = hd x" using assms(2) by (cases x) auto
  then have "frames_loop ?raw x = [(1, ?raw)]"
    using assms(2,3) by (subst frames_loop.simps) simp
  moreover have "frames_loop ?raw (take (length ?raw) ?raw) = (t, p) # frames_loop ?raw x"
    using frames_loop_frame [OF assms(1), of "length ?raw" ?raw x] l by (simp add: Let_def)
  ultimately show ?thesis by (simp add: DemuxCombined_def frames_def)
qed

end
