(* ===== verification/RpcGuards.thy ===== *)
theory RpcGuards
  imports RpcTools
begin

text \<open>
  The restrictions the daemon injects into a worker's arguments, seen from the worker: the docker
  socket and allow lists (\<open>CommonArgs\<close> of \<^verbatim>\<open>internal/docker/allow.go\<close> and the
  arguments of \<open>docker/prune\<close>), and the network policy of \<open>network/curl\<close> and
  \<open>network/ping\<close>. Each is the daemon's own value when the caller spells member names exactly;
  three theorems show what other spellings do.
\<close>

subsection \<open>The worker's view\<close>

text \<open>The embedded \<open>CommonArgs\<close> of a docker tool whose struct has the fields \<open>fs\<close>.\<close>

definition worker_Socket :: "string list \<Rightarrow> json \<Rightarrow> string" where
  "worker_Socket fs v = dec_string [] (field_vals fs ''_docker_socket'' v)"

definition worker_Containers :: "string list \<Rightarrow> json \<Rightarrow> string list" where
  "worker_Containers fs v = dec_strings [] (field_vals fs ''_containers'' v)"

definition worker_Prune :: "string list \<Rightarrow> json \<Rightarrow> string list" where
  "worker_Prune fs v = dec_strings [] (field_vals fs ''_prune'' v)"

definition docker_logs_fields :: "string list" where
  "docker_logs_fields = [''_docker_socket'', ''_containers'', ''container'', ''lines'', ''since'', ''until'', ''timestamps'',
     ''stdout'', ''stderr'', ''output_format'']"

text \<open>
  A \<open>*netpolicy.Policy\<close> field: \<open>null\<close> makes it nil; an object is decoded into the policy
  already there, so members it lacks keep what an earlier object set.
\<close>

definition policy_fields :: "string list" where
  "policy_fields = [''deny_private'', ''allow'', ''deny'']"

definition empty_policy :: policy where
  "empty_policy = \<lparr>DenyPrivate = False, Allow = [], Deny = []\<rparr>"

definition merge_policy :: "policy \<Rightarrow> json \<Rightarrow> policy" where
  "merge_policy p v =
     \<lparr>DenyPrivate = dec_bool (DenyPrivate p) (field_vals policy_fields ''deny_private'' v),
      Allow = dec_strings (Allow p) (field_vals policy_fields ''allow'' v),
      Deny = dec_strings (Deny p) (field_vals policy_fields ''deny'' v)\<rparr>"

definition dec_policy :: "json list \<Rightarrow> policy option" where
  "dec_policy vs =
     foldl (\<lambda>a v. case v of
        JNull \<Rightarrow> None
      | JObj _ \<Rightarrow> Some (merge_policy (case a of None \<Rightarrow> empty_policy | Some p \<Rightarrow> p) v)
      | _ \<Rightarrow> a) None vs"

definition worker_Policy :: "string list \<Rightarrow> json \<Rightarrow> policy option" where
  "worker_Policy fs v = dec_policy (field_vals fs ''_network_policy'' v)"

definition curl_fields :: "string list" where
  "curl_fields = [''url'', ''method'', ''headers'', ''body'', ''data'', ''insecure'', ''output_format'', ''timeout'', ''max_body'',
     ''_network_policy'']"

definition ping_fields :: "string list" where
  "ping_fields = [''host'', ''port'', ''timeout'', ''output_format'', ''_network_policy'']"

subsection \<open>Docker\<close>

lemma docker_group:
  "tool \<in> set DockerTools \<Longrightarrow> tool \<notin> set PathTools \<and> tool \<noteq> ''network/curl'' \<and> tool \<noteq> ''network/ping'' \<and> tool \<noteq> CronTool"
proof -
  have "list_all (\<lambda>t. t \<notin> set PathTools \<and> t \<noteq> ''network/curl'' \<and> t \<noteq> ''network/ping'' \<and> t \<noteq> CronTool) DockerTools"
    by code_simp
  then show "tool \<in> set DockerTools \<Longrightarrow> tool \<notin> set PathTools \<and> tool \<noteq> ''network/curl'' \<and> tool \<noteq> ''network/ping'' \<and> tool \<noteq> CronTool"
    by (auto simp: list_all_iff)
qed

lemma docker_args_distinct: "distinct (map fst m) \<Longrightarrow> distinct (map fst (docker_args sp c user tool m))"
  by (simp add: docker_args_def Let_def distinct_map_put distinct_map_del)

lemma prepared_docker:
  assumes "prepare_standard e c user tool args = Finished (priv, None, args')" and "tool \<in> set DockerTools"
  shows "priv \<and> CanRunAsRoot c user tool \<and>
    (\<exists>m0 m. distinct (map fst m0) \<and> m0 = (case unmarshal_map args of Inr (Some m) \<Rightarrow> m | _ \<Rightarrow> []) \<and>
       args' = Some (marshal_map m) \<and> distinct (map fst m) \<and>
       map_of m = (map_of (docker_args (SocketPath e) c user tool m0))(''_no_follow'' := None))"
proof -
  have g: "tool \<notin> set PathTools" "tool \<noteq> ''network/curl''" "tool \<noteq> ''network/ping''"
    using docker_group [OF assms(2)] by auto
  obtain args1 args3 where priv: "priv = (base_Privileged args \<or> tool \<in> set DockerTools)"
    and d: "step_docker e c user tool args = (None, args1)"
    and p: "step_paths c user tool priv (base_Path args) (None, withoutKey args1 ''_no_follow'') = Finished (None, args3)"
    and n: "step_network c user tool args3 = Finished args'"
    using prepare_standard_ok [OF assms(1)] by metis
  let ?m0 = "case unmarshal_map args of Inr (Some m) \<Rightarrow> m | _ \<Rightarrow> []"
  have d0: "distinct (map fst ?m0)"
    by (auto simp: unmarshal_map_def distinct_fill_map split: option.splits json.splits)
  have a1: "CanRunAsRoot c user tool" "args1 = Some (marshal_map (docker_args (SocketPath e) c user tool ?m0))"
    using d assms(2) by (auto simp: step_docker_def prepareDockerCall_def Let_def split: if_splits)
  have a': "args' = withoutKey args1 ''_no_follow''"
    using p n g by (simp add: step_paths_def step_network_def)
  show ?thesis
    using withoutKey_marshal [OF docker_args_distinct [OF d0], of "SocketPath e" c user tool "''_no_follow''"]
      priv assms(2) a1 a' d0 by auto
qed

text \<open>
  A worker of any docker tool is started only for a user whose grant allows that tool, always as root,
  and the worker of \<open>docker/prune\<close> sees exactly the grant's list of targets, however the caller
  spells or repeats the member: an empty list when the grant has none, which refuses every target.
\<close>

lemma docker_prune_scoped:
  assumes "HandleToolsCall e sess params st = Finished out" and "p \<in> set (out_spawned out)"
    and "proc_tool p \<in> set DockerTools" and "''_prune'' \<in> set fs"
  shows "CanRunAsRoot (s_sudo (settings st)) (sess_User sess) (proc_tool p) \<and>
    credential p \<in> {None, Some (0, 0, [0])} \<and>
    (proc_tool p = PruneTool \<longrightarrow> (\<exists>doc. proc_stdin p = Some doc \<and>
       worker_Prune fs doc = GetAllowedPruneTargets (s_sudo (settings st)) (sess_User sess) PruneTool))"
proof -
  let ?c = "s_sudo (settings st)" and ?u = "sess_User sess" and ?t = "proc_tool p"
  have nc: "?t \<noteq> CronTool" using docker_group [OF assms(3)] by simp
  obtain args priv where "call_params params = Inr (?t, args)"
    and pr: "prepare_standard e ?c ?u ?t args = Finished (priv, None, proc_stdin p)"
    and sp: "\<exists>t. spawn_process (wenv e) (Some ?c) ?u ?t (proc_stdin p) priv t = Inr p"
    by (rule dispatched_standard [OF assms(1,2) nc])
  obtain m0 m where priv and can: "CanRunAsRoot ?c ?u ?t"
    and m: "proc_stdin p = Some (marshal_map m)" "distinct (map fst m)"
      "map_of m = (map_of (docker_args (SocketPath e) ?c ?u ?t m0))(''_no_follow'' := None)"
    using prepared_docker [OF pr assms(3)] by blast
  obtain t where t: "spawn_process (wenv e) (Some ?c) ?u ?t (proc_stdin p) True t = Inr p" using sp \<open>priv\<close> by auto
  obtain u uid gid groups where "target_identity (wenv e) (Some ?c) ?u ?t True u = Inr (uid, gid, groups)"
    "credential p = (if euid (wenv e) = 0 then Some (uid, gid, groups) else None)"
    using spawn_processD [OF t] by metis
  then have cred: "credential p \<in> {None, Some (0, 0, [0])}" using target_identity_root by auto
  have "worker_Prune fs (marshal_map m) = GetAllowedPruneTargets ?c ?u PruneTool" if "?t = PruneTool"
  proof -
    have "map_of m ''_prune'' = Some (json_strings (GetAllowedPruneTargets ?c ?u PruneTool))"
      using m(3) that by (simp add: docker_args_def Let_def)
    then show ?thesis
      using field_vals_marshal_last [OF fold_safe_names(3) assms(4) m(2)] dec_strings_last
      by (auto simp: worker_Prune_def)
  qed
  then show ?thesis using can cred m(1) by auto
qed

definition ex_prune_args :: json where
  "ex_prune_args = JObj [(''target'', JStr ''volumes''), (''_PRUNE'', JArr [JStr ''volumes'']), (''_prune'', JArr [JStr ''volumes''])]"

definition ex_prune_doc :: json where
  "ex_prune_doc = JObj [(''_PRUNE'', JArr [JStr ''volumes'']), (''_prune'', JArr [JStr ''images'']), (''privileged'', JBool True),
     (''target'', JStr ''volumes'')]"

lemma ex_docker_prune_scoped:
  "\<exists>out p. HandleToolsCall ex_rpc_env ex_session (ex_call ''docker/prune'' ex_prune_args) (ex_state ex_root_sudo) = Finished out \<and>
     out_spawned out = [p] \<and> proc_stdin p = Some ex_prune_doc \<and>
     worker_Prune [''_prune'', ''target'', ''output_format''] ex_prune_doc = [''images'']"
proof -
  let ?t = "''docker/prune''" and ?p = "root_process ''docker/prune'' (Some ex_prune_doc)"
  have pr: "prepare_standard ex_rpc_env ex_root_sudo ''alice'' ?t (Some ex_prune_args) = Finished (True, None, Some ex_prune_doc)"
    by code_simp
  have c: "CanRunAsRoot ex_root_sudo ''alice'' ?t" "\<not> has_prefix ?t ''read_''" by code_simp+
  have s: "?t \<in> set standardWorkers" "?t \<notin> {''daemon/reload-config'', ''auth/sudo-rules'', CronTool}"
    by (simp_all add: standardWorkers_def CronTool_def)
  obtain out where o: "HandleToolsCall ex_rpc_env ex_session (ex_call ?t ex_prune_args) (ex_state ex_root_sudo) = Finished out"
    "out_spawned out = [?p]"
    using ex_root_call [OF c _ s pr] by auto
  have g: "?t \<in> set DockerTools" "?t = PruneTool" "GetAllowedPruneTargets ex_root_sudo ''alice'' PruneTool = [''images'']"
    by code_simp+
  have "worker_Prune [''_prune'', ''target'', ''output_format''] ex_prune_doc = [''images'']"
    using docker_prune_scoped [OF o(1), of ?p "[''_prune'', ''target'', ''output_format'']"] o(2) g
    by (auto simp: ex_root_facts)
  then show ?thesis using o ex_root_facts(6) by blast
qed

text \<open>
  The same holds of the list of containers and of the socket path when the caller spells no other
  variant of these names: the worker sees the grant's containers and the configured socket.
\<close>

lemma docker_containers_scoped:
  assumes "prepareDockerCall socket c user tool args = (None, Some doc)" and "tool \<in> set ContainerTools" and "tool \<noteq> PruneTool"
    and "unmarshal_map args = Inr (Some m0)" and "spelled_exactly fs m0" and "spelled_exactly fs
      [(''privileged'', JNull), (''_docker_socket'', JNull), (''_containers'', JNull)]"
    and "''_containers'' \<in> set fs" and "''_docker_socket'' \<in> set fs"
  shows "worker_Containers fs doc = GetAllowedContainers c user tool \<and> worker_Socket fs doc = socket"
proof -
  let ?m = "docker_args socket c user tool m0"
  have doc: "doc = marshal_map ?m"
    using assms(1,4) by (auto simp: prepareDockerCall_def Let_def split: if_splits)
  have "distinct (map fst m0)"
    using assms(4) by (auto simp: unmarshal_map_def distinct_fill_map split: option.splits json.splits if_splits)
  then have d: "distinct (map fst ?m)" by (rule docker_args_distinct)
  have sp: "spelled_exactly fs ?m"
    using assms(3,5,6) by (auto simp: docker_args_def Let_def spelled_exactly_def list_all_iff map_put_def map_del_def)
  have c: "map_of ?m ''_containers'' = Some (json_strings (GetAllowedContainers c user tool))"
    using assms(2,3) by (simp add: docker_args_def Let_def)
  have s: "map_of ?m ''_docker_socket'' = (if socket = [] then None else Some (JStr socket))"
    using assms(2,3) by (simp add: docker_args_def Let_def)
  have "worker_Containers fs doc = GetAllowedContainers c user tool"
    using field_vals_marshal_exact [OF sp assms(7) d] c dec_strings_last [of "[]" "[]"]
    by (simp add: doc worker_Containers_def del: map_of_eq_Some_iff)
  moreover have "worker_Socket fs doc = socket"
    using field_vals_marshal_exact [OF sp assms(8) d] s
    by (simp add: doc worker_Socket_def dec_string_def del: map_of_eq_Some_iff map_of_eq_None_iff split: if_splits)
  ultimately show ?thesis by blast
qed

text \<open>
  Other spellings get past the daemon. With no socket configured the daemon sets none, so
  \<open>_Docker_socket\<close> chooses the socket the root worker talks to. And the member whose last letter
  is the long s (bytes C5 BF) folds to \<open>_containers\<close> but sorts after it, so it replaces the
  grant's allow list: here every container instead of \<open>web-*\<close>.
\<close>

lemma docker_injected_overridden:
  "\<exists>doc. prepareDockerCall [] ex_root_sudo ''alice'' ''docker/logs''
       (Some (JObj [(''container'', JStr ''db-1''), (''_Docker_socket'', JStr ''/tmp/s''),
                    (''_container'' @ [CHR 0xC5, CHR 0xBF], JArr [JStr ''*''])])) = (None, Some doc) \<and>
     worker_Socket docker_logs_fields doc = ''/tmp/s'' \<and> worker_Containers docker_logs_fields doc = [''*''] \<and>
     GetAllowedContainers ex_root_sudo ''alice'' ''docker/logs'' = [''web-*'']"
proof -
  let ?a = "Some (JObj [(''container'', JStr ''db-1''), (''_Docker_socket'', JStr ''/tmp/s''),
      (''_container'' @ [CHR 0xC5, CHR 0xBF], JArr [JStr ''*''])])"
  let ?doc = "JObj [(''_Docker_socket'', JStr ''/tmp/s''), (''_containers'', JArr [JStr ''web-*'']),
      (''_container'' @ [CHR 0xC5, CHR 0xBF], JArr [JStr ''*'']), (''container'', JStr ''db-1''), (''privileged'', JBool True)]"
  have d: "prepareDockerCall [] ex_root_sudo ''alice'' ''docker/logs'' ?a = (None, Some ?doc)" by code_simp
  have w: "worker_Socket docker_logs_fields ?doc = ''/tmp/s''" "worker_Containers docker_logs_fields ?doc = [''*'']"
    by code_simp+
  have g: "GetAllowedContainers ex_root_sudo ''alice'' ''docker/logs'' = [''web-*'']" by code_simp
  show ?thesis using d w g by blast
qed

subsection \<open>The network policy\<close>

lemma dec_policy_single: "dec_policy [policy_json p] = Some p"
proof -
  have f: "json_field policy_fields ''deny_private'' = Some ''deny_private''" "json_field policy_fields ''allow'' = Some ''allow''"
    "json_field policy_fields ''deny'' = Some ''deny''" by code_simp+
  have s: "dec_strings [] [json_strings xs] = xs" for xs using dec_strings_last [of "[]" "[]"] by simp
  have n: "dec_strings [] [] = []" by (simp add: dec_strings_def)
  show ?thesis
    by (cases p)
      (auto simp: dec_policy_def policy_json_def merge_policy_def field_vals_def members_def f s n empty_policy_def dec_bool_def)
qed

text \<open>
  For arguments the master can decode, spelled exactly, the worker of \<open>network/curl\<close> and
  \<open>network/ping\<close> dials under exactly the user's policy for that tool, or unrestricted when there is
  none; a policy the caller sends is removed.
\<close>

lemma network_policy_injected:
  assumes "step_network c user tool args = Finished (Some doc)" and "tool \<in> {''network/curl'', ''network/ping''}"
    and "unmarshal_map args = Inr (Some m)" and "fs = (if tool = ''network/curl'' then curl_fields else ping_fields)"
    and "spelled_exactly fs m"
  shows "worker_Policy fs doc = NetworkPolicy c user tool"
proof -
  let ?m = "case NetworkPolicy c user tool of None \<Rightarrow> map_del ''_network_policy'' m
    | Some pol \<Rightarrow> map_put ''_network_policy'' (policy_json pol) (map_del ''_network_policy'' m)"
  have doc: "doc = marshal_map ?m"
    using assms(1-3) by (auto simp: step_network_def split: option.splits)
  have dm: "distinct (map fst m)"
    using assms(3) by (auto simp: unmarshal_map_def distinct_fill_map split: option.splits json.splits if_splits)
  have d: "distinct (map fst ?m)" using dm by (simp add: distinct_map_put distinct_map_del split: option.split)
  have f: "''_network_policy'' \<in> set fs" using assms(4) by (simp add: curl_fields_def ping_fields_def)
  have nf: "list_all (\<lambda>f. fold_name ''_network_policy'' = fold_name f \<longrightarrow> ''_network_policy'' = f) curl_fields"
    "list_all (\<lambda>f. fold_name ''_network_policy'' = fold_name f \<longrightarrow> ''_network_policy'' = f) ping_fields" by code_simp+
  have sp: "spelled_exactly fs ?m"
    using assms(4,5) nf unfolding spelled_exactly_def
    by (cases "NetworkPolicy c user tool") (auto simp: map_put_def map_del_def list_all_iff split: if_splits)
  have "map_of ?m ''_network_policy'' = map_option policy_json (NetworkPolicy c user tool)"
    by (simp split: option.split)
  then have "field_vals fs ''_network_policy'' doc = (case NetworkPolicy c user tool of None \<Rightarrow> [] | Some p \<Rightarrow> [policy_json p])"
    using field_vals_marshal_exact [OF sp f d] doc by (simp split: option.splits)
  moreover have "dec_policy [] = None" by (simp add: dec_policy_def)
  ultimately show ?thesis by (auto simp: worker_Policy_def dec_policy_single split: option.split)
qed

lemma ex_network_policy_injected:
  "\<exists>doc. step_network ex_root_sudo ''alice'' ''network/curl''
       (Some (JObj [(''url'', JStr ''http://x''), (''_network_policy'', JNull)])) = Finished (Some doc) \<and>
     worker_Policy curl_fields doc = Some \<lparr>DenyPrivate = True, Allow = [], Deny = []\<rparr>"
proof -
  let ?a = "Some (JObj [(''url'', JStr ''http://x''), (''_network_policy'', JNull)])"
  let ?m = "[(''_network_policy'', JNull), (''url'', JStr ''http://x'')]"
  let ?doc = "JObj [(''_network_policy'', JObj [(''deny_private'', JBool True)]), (''url'', JStr ''http://x'')]"
  have m: "unmarshal_map ?a = Inr (Some ?m)" by code_simp
  have s: "step_network ex_root_sudo ''alice'' ''network/curl'' ?a = Finished (Some ?doc)" by code_simp
  have sp: "spelled_exactly curl_fields ?m" by code_simp
  have n: "NetworkPolicy ex_root_sudo ''alice'' ''network/curl'' = Some \<lparr>DenyPrivate = True, Allow = [], Deny = []\<rparr>" by code_simp
  show ?thesis using s network_policy_injected [OF s _ m _ sp] n by auto
qed

text \<open>
  A policy of only \<open>deny_private\<close> can be widened by the caller: \<open>_Network_policy\<close> is
  decoded first, the daemon's own object is decoded into the same policy, and since it omits an empty
  \<open>allow\<close> list the caller's entries stay. A name that resolves to the cloud metadata address, blocked
  by the configured policy, is then permitted.
\<close>

lemma network_policy_widened:
  "\<exists>doc pol. step_network ex_root_sudo ''alice'' ''network/curl''
       (Some (JObj [(''url'', JStr ''http://metadata''), (''_Network_policy'', JObj [(''allow'', JArr [JStr ''metadata''])])])) = Finished (Some doc) \<and>
     worker_Policy curl_fields doc = Some pol \<and> Allow pol = [''metadata''] \<and>
     Check (NetworkPolicy ex_root_sudo ''alice'' ''network/curl'') ''metadata'' [169, 254, 169, 254] \<noteq> Inr () \<and>
     Check (Some pol) ''metadata'' [169, 254, 169, 254] = Inr ()"
proof -
  let ?a = "Some (JObj [(''url'', JStr ''http://metadata''), (''_Network_policy'', JObj [(''allow'', JArr [JStr ''metadata''])])])"
  let ?doc = "JObj [(''_Network_policy'', JObj [(''allow'', JArr [JStr ''metadata''])]),
      (''_network_policy'', JObj [(''deny_private'', JBool True)]), (''url'', JStr ''http://metadata'')]"
  let ?pol = "\<lparr>DenyPrivate = True, Allow = [''metadata''], Deny = []\<rparr>"
  have s: "step_network ex_root_sudo ''alice'' ''network/curl'' ?a = Finished (Some ?doc)" by code_simp
  have w: "worker_Policy curl_fields ?doc = Some ?pol" by code_simp
  have c1: "Check (NetworkPolicy ex_root_sudo ''alice'' ''network/curl'') ''metadata'' [169, 254, 169, 254] \<noteq> Inr ()" by code_simp
  have r: "parseRule ''metadata'' = Inr (empty_rule\<lparr>host := ''metadata''\<rparr>)" by code_simp
  have h: "trim_suffix (to_lower ''metadata'') ''.'' = ''metadata''" by code_simp
  have c2: "Check (Some ?pol) ''metadata'' [169, 254, 169, 254] = Inr ()"
    using r h by (simp add: Check_ok_iff matches_iff rule_matches_def empty_rule_def)
  show ?thesis using s w c1 c2 by (intro exI [of _ ?doc] exI [of _ ?pol]) simp
qed

text \<open>
  Sending \<open>null\<close> as the arguments of \<open>network/curl\<close> when the user has a network policy
  makes the daemon panic: the nil map is assigned to. Without a policy the call goes on.
\<close>

lemma network_null_arguments_panic:
  "HandleToolsCall ex_rpc_env ex_session (ex_call ''network/curl'' JNull) (ex_state ex_root_sudo) = Panicked"
proof -
  have "prepare_standard ex_rpc_env ex_root_sudo ''alice'' ''network/curl'' (Some JNull) = Panicked" by code_simp
  moreover have "''network/curl'' \<in> set standardWorkers" "''network/curl'' \<notin> {''daemon/reload-config'', ''auth/sudo-rules'', CronTool}"
    by (simp_all add: standardWorkers_def CronTool_def)
  ultimately show ?thesis by (simp add: HandleToolsCall_def dispatch_tool_def ex_root_facts Let_def)
qed

end
