(* ===== verification/DockerTools.thy ===== *)
theory DockerTools
  imports DockerClient RpcGuards
begin

text \<open>
  The docker workers (\<^verbatim>\<open>internal/tools/docker/\<close>): \<open>docker/manage\<close>,
  \<open>docker/exec\<close>, \<open>docker/logs\<close>, \<open>docker/prune\<close> and \<open>docker/containers\<close>, as functions
  of the arguments the daemon hands them and of the Engine. Their effect is the list of requests they
  send; the theorems say which requests these can be. The syntax of numbers and of RFC 3339 times
  (\<^verbatim>\<open>strconv\<close>, \<^verbatim>\<open>time\<close>) is a parameter.
\<close>

record 'w docker_env = "'w engine" +
  float_text :: "string \<Rightarrow> bool"
  time_unix :: "string \<Rightarrow> int option"
  time_text :: "int \<Rightarrow> string"

text \<open>\<open>id[:12]\<close>, which panics on a shorter string.\<close>

definition with_short_id :: "string \<Rightarrow> (string \<Rightarrow> 'a) \<Rightarrow> 'a outcome" where
  "with_short_id cid f = (if length cid < 12 then Panicked else Finished (f (take 12 cid)))"

definition common_ok :: "string list \<Rightarrow> json \<Rightarrow> bool" where
  "common_ok fs v \<longleftrightarrow> is_structdoc v \<and>
     list_all is_str (field_vals fs ''_docker_socket'' v) \<and> list_all is_strs (field_vals fs ''_containers'' v)"

definition doc_of :: "json option \<Rightarrow> json" where
  "doc_of raw = (case raw of None \<Rightarrow> JNull | Some v \<Rightarrow> v)"

definition dec_container :: "json \<Rightarrow> container option" where
  "dec_container v =
     (let fv = (\<lambda>f. field_vals [''Id'', ''Name''] f v) in
      if is_structdoc v \<and> list_all is_str (fv ''Id'') \<and> list_all is_str (fv ''Name'')
      then Some \<lparr>ct_ID = dec_string [] (fv ''Id''), ct_Name = dec_string [] (fv ''Name'')\<rparr> else None)"

definition inspect_path :: "string \<Rightarrow> string" where
  "inspect_path ref = ''/containers/'' @ ref @ ''/json''"

text \<open>
  \<open>docker.Authorize\<close> over the client: the identifier and the list are checked before the socket is
  touched, and the answer to the one inspect request decides the rest.
\<close>

definition client_Authorize ::
  "('w, 'z) engine_scheme \<Rightarrow> client \<Rightarrow> string \<Rightarrow> string list \<Rightarrow> 'w wire \<Rightarrow> (string \<times> string) result \<times> 'w wire" where
  "client_Authorize E c ref allow s =
     (case ValidIdentifier ref of
        Inl e \<Rightarrow> (Inl e, s)
      | Inr _ \<Rightarrow>
          if allow = [] then (Authorize (\<lambda>_. Inl []) ref allow, s)
          else case GetJSON E c (inspect_path ref) dec_container s of
                 (r, s1) \<Rightarrow>
                   (Authorize (\<lambda>_. case r of Inl e \<Rightarrow> Inl (err_Error e) | Inr ct \<Rightarrow> Inr ct) ref allow, s1))"

subsection \<open>docker/manage\<close>

record manage_args =
  mg_Socket :: string
  mg_Containers :: "string list"
  mg_Container :: string
  mg_Action :: string
  mg_OutputFormat :: string

definition manage_fields :: "string list" where
  "manage_fields = [''_docker_socket'', ''_containers'', ''container'', ''action'', ''output_format'']"

definition manage_parse :: "json option \<Rightarrow> manage_args result" where
  "manage_parse raw =
     (let v = doc_of raw; fv = (\<lambda>f. field_vals manage_fields f v) in
      if raw \<noteq> None \<and> common_ok manage_fields v \<and> list_all is_str (fv ''container'') \<and> list_all is_str (fv ''action'') \<and>
         list_all is_str (fv ''output_format'')
      then Inr \<lparr>mg_Socket = worker_Socket manage_fields v, mg_Containers = worker_Containers manage_fields v,
                mg_Container = dec_string [] (fv ''container''), mg_Action = dec_string [] (fv ''action''),
                mg_OutputFormat = dec_string [] (fv ''output_format'')\<rparr>
      else Inl ''invalid arguments'')"

definition actions :: "(string \<times> string) list" where
  "actions = [(''start'', ''start''), (''stop'', ''stop''), (''restart'', ''restart''), (''kill'', ''kill''),
     (''pause'', ''pause''), (''unpause'', ''unpause'')]"

definition sortedActions :: "string list" where
  "sortedActions = sort (map fst actions)"

definition manage_report :: "manage_args \<Rightarrow> string \<Rightarrow> string \<Rightarrow> string \<Rightarrow> string \<Rightarrow> tool_out result outcome" where
  "manage_report args name cid action res =
     (if Structured (mg_OutputFormat args)
      then Finished (Inr (Doc (marshal_map [(''container'', JStr name), (''id'', JStr cid), (''action'', JStr action), (''result'', JStr res)])))
      else if res = ''unchanged''
      then with_short_id cid (\<lambda>sid. Inr (Text (''Container '' @ name @ '' ('' @ sid @ ''): '' @ action @
             '' not needed, it is already in that state.'' @ [CHR 0x0A])))
      else with_short_id cid (\<lambda>sid. Inr (Text (''Container '' @ name @ '' ('' @ sid @ ''): '' @ action @ '' succeeded.'' @ [CHR 0x0A]))))"

definition docker_Manage ::
  "('w, 'z) engine_scheme \<Rightarrow> json option \<Rightarrow> 'w wire \<Rightarrow> tool_out result outcome \<times> 'w wire" where
  "docker_Manage E raw s =
     (case manage_parse raw of
        Inl e \<Rightarrow> (Finished (Inl e), s)
      | Inr args \<Rightarrow>
          (let action = to_lower (trim_space (mg_Action args)); endpoint = map_of actions action in
           if endpoint = None \<and> action \<noteq> ''remove''
           then (Finished (Inl (''unknown action '' @ quoted (mg_Action args) @ '': use one of '' @
                   join_with '', '' sortedActions @ '', remove'')), s)
           else
             (let c = New E (mg_Socket args) 60 in
              case client_Authorize E c (mg_Container args) (mg_Containers args) s of
                (Inl e, s1) \<Rightarrow> (Finished (Inl e), s1)
              | (Inr (cid, name), s1) \<Rightarrow>
                  if action = ''remove'' then
                    (case client_Delete E c (''/containers/'' @ cid) s1 of
                       (Some (APIError st m), s2) \<Rightarrow>
                         (Finished (Inl (if st = 409
                            then err_Error (APIError st m) @ '' - stop or kill it first (this tool never removes a running container by force)''
                            else err_Error (APIError st m))), s2)
                     | (Some e, s2) \<Rightarrow> (Finished (Inl (err_Error e)), s2)
                     | (None, s2) \<Rightarrow> (manage_report args name cid action ''ok'', s2))
                  else
                    (case PostJSON E c (''/containers/'' @ cid @ ''/'' @ the endpoint) None (None :: (json \<Rightarrow> unit option) option) s1 of
                       (Inr _, s2) \<Rightarrow> (manage_report args name cid action ''ok'', s2)
                     | (Inl (APIError st m), s2) \<Rightarrow>
                         (if st = 304 then manage_report args name cid action ''unchanged''
                          else Finished (Inl (err_Error (APIError st m))), s2)
                     | (Inl e, s2) \<Rightarrow> (Finished (Inl (err_Error e)), s2)))))"

subsection \<open>docker/exec\<close>

record exec_args =
  ex_Socket :: string
  ex_Containers :: "string list"
  ex_Container :: string
  ex_Command :: "string list"
  ex_User :: string
  ex_WorkingDir :: string
  ex_Timeout :: int
  ex_OutputFormat :: string

definition exec_fields :: "string list" where
  "exec_fields = [''_docker_socket'', ''_containers'', ''container'', ''command'', ''user'', ''working_dir'', ''timeout'', ''output_format'']"

definition exec_parse :: "json option \<Rightarrow> exec_args result" where
  "exec_parse raw =
     (let v = doc_of raw; fv = (\<lambda>f. field_vals exec_fields f v) in
      if raw \<noteq> None \<and> common_ok exec_fields v \<and> list_all is_str (fv ''container'') \<and> list_all is_strs (fv ''command'') \<and>
         list_all is_str (fv ''user'') \<and> list_all is_str (fv ''working_dir'') \<and> list_all is_int (fv ''timeout'') \<and>
         list_all is_str (fv ''output_format'')
      then Inr \<lparr>ex_Socket = worker_Socket exec_fields v, ex_Containers = worker_Containers exec_fields v,
                ex_Container = dec_string [] (fv ''container''), ex_Command = dec_strings [] (fv ''command''),
                ex_User = dec_string [] (fv ''user''), ex_WorkingDir = dec_string [] (fv ''working_dir''),
                ex_Timeout = dec_int 0 (fv ''timeout''), ex_OutputFormat = dec_string [] (fv ''output_format'')\<rparr>
      else Inl ''invalid arguments'')"

definition maxOutputBytes :: nat where
  "maxOutputBytes = 2 ^ 20"

definition defaultTimeout :: int where
  "defaultTimeout = 30"

definition maxTimeout :: int where
  "maxTimeout = 300"

definition exec_timeout :: "int \<Rightarrow> int" where
  "exec_timeout t0 = (let t = (if t0 \<le> 0 then defaultTimeout else t0) in if maxTimeout < t then maxTimeout else t)"

definition exec_create_body :: "exec_args \<Rightarrow> json" where
  "exec_create_body args =
     (let m1 = [(''AttachStdout'', JBool True), (''AttachStderr'', JBool True), (''AttachStdin'', JBool False), (''Tty'', JBool False),
                (''Cmd'', json_strings (ex_Command args))];
          m2 = (if ex_User args \<noteq> [] then map_put ''User'' (JStr (ex_User args)) m1 else m1);
          m3 = (if ex_WorkingDir args \<noteq> [] then map_put ''WorkingDir'' (JStr (ex_WorkingDir args)) m2 else m2)
      in marshal_map m3)"

definition timedOut :: "string \<Rightarrow> int \<Rightarrow> client_err \<Rightarrow> string" where
  "timedOut name tmo err =
     (let dead = (case err of PlainErr d _ \<Rightarrow> d | APIError _ _ \<Rightarrow> False) in
      if \<not> dead \<and> \<not> contains (err_Error err) ''Client.Timeout'' then err_Error err
      else ''exec in '' @ name @ '' did not finish within '' @ int_str tmo @ ''s: '' @ err_Error err @
           '' (the command may still be running inside the container - the Engine API has no way to cancel an exec)'')"

definition dec_exec_id :: "json \<Rightarrow> string option" where
  "dec_exec_id v =
     (let vs = field_vals [''Id''] ''Id'' v in if is_structdoc v \<and> list_all is_str vs then Some (dec_string [] vs) else None)"

definition dec_exec_state :: "json \<Rightarrow> (int \<times> bool) option" where
  "dec_exec_state v =
     (let fv = (\<lambda>f. field_vals [''ExitCode'', ''Running''] f v) in
      if is_structdoc v \<and> list_all is_int (fv ''ExitCode'') \<and> list_all is_bool (fv ''Running'')
      then Some (dec_int 0 (fv ''ExitCode''), dec_bool False (fv ''Running'')) else None)"

definition exec_section :: "string \<Rightarrow> string \<Rightarrow> string" where
  "exec_section title t =
     (if t = [] then []
      else [CHR 0x0A] @ ''--- '' @ title @ '' ---'' @ [CHR 0x0A] @ t @ (if has_suffix t [CHR 0x0A] then [] else [CHR 0x0A]))"

definition exec_report ::
  "exec_args \<Rightarrow> string \<Rightarrow> string \<Rightarrow> int \<times> bool \<Rightarrow> string \<Rightarrow> string \<Rightarrow> tool_out result outcome" where
  "exec_report args name cid state outs errs =
     (if Structured (ex_OutputFormat args)
      then Finished (Inr (Doc (marshal_map [(''container'', JStr name), (''id'', JStr cid), (''command'', json_strings (ex_Command args)),
             (''exit_code'', JNum (fst state) 0), (''running'', JBool (snd state)), (''stdout'', JStr outs), (''stderr'', JStr errs)])))
      else with_short_id cid (\<lambda>sid. Inr (Text
        (''Container '' @ name @ '' ('' @ sid @ ''): '' @ join_with '' '' (ex_Command args) @ [CHR 0x0A] @
         ''Exit code: '' @ int_str (fst state) @ [CHR 0x0A] @ exec_section ''stdout'' outs @ exec_section ''stderr'' errs @
         (if outs = [] \<and> errs = [] then [CHR 0x0A] @ ''(no output)'' @ [CHR 0x0A] else [])))))"

definition docker_Exec ::
  "('w, 'z) engine_scheme \<Rightarrow> json option \<Rightarrow> 'w wire \<Rightarrow> tool_out result outcome \<times> 'w wire" where
  "docker_Exec E raw s =
     (case exec_parse raw of
        Inl e \<Rightarrow> (Finished (Inl e), s)
      | Inr args \<Rightarrow>
          if ex_Command args = []
          then (Finished (Inl (''command is required: an argv array, e.g. ['' @ quoted ''sh'' @ '', '' @ quoted ''-c'' @ '', '' @
                  quoted ''ls /app'' @ '']'')), s)
          else
            (let tmo = exec_timeout (ex_Timeout args); c = New E (ex_Socket args) tmo in
             case client_Authorize E c (ex_Container args) (ex_Containers args) s of
               (Inl e, s1) \<Rightarrow> (Finished (Inl e), s1)
             | (Inr (cid, name), s1) \<Rightarrow>
                 (case PostJSON E c (''/containers/'' @ cid @ ''/exec'') (Some (exec_create_body args)) (Some dec_exec_id) s1 of
                    (Inl e, s2) \<Rightarrow> (Finished (Inl (err_Error e)), s2)
                  | (Inr created, s2) \<Rightarrow>
                      (let eid = (case created of Some i \<Rightarrow> i | None \<Rightarrow> []) in
                       case PostStream E c (''/exec/'' @ eid @ ''/start'')
                              (Some (JObj [(''Detach'', JBool False), (''Tty'', JBool False)])) s2 of
                         (Inl e, s3) \<Rightarrow> (Finished (Inl (timedOut name tmo e)), s3)
                       | (Inr body, s3) \<Rightarrow>
                           (case Demux maxOutputBytes body of
                              Inl e \<Rightarrow> (Finished (Inl (timedOut name tmo e)), s3)
                            | Inr (outs, errs) \<Rightarrow>
                                (case GetJSON E c (''/exec/'' @ eid @ ''/json'') dec_exec_state s3 of
                                   (Inl e, s4) \<Rightarrow> (Finished (Inl (err_Error e)), s4)
                                 | (Inr state, s4) \<Rightarrow> (exec_report args name cid state outs errs, s4)))))))"


subsection \<open>docker/logs\<close>

record logs_args =
  lg_Socket :: string
  lg_Containers :: "string list"
  lg_Container :: string
  lg_Lines :: int
  lg_Since :: string
  lg_Until :: string
  lg_Timestamps :: bool
  lg_Stdout :: "bool option"
  lg_Stderr :: "bool option"
  lg_OutputFormat :: string

definition opt_bool :: "json list \<Rightarrow> bool option" where
  "opt_bool vs = foldl (\<lambda>a v. case v of JNull \<Rightarrow> None | JBool b \<Rightarrow> Some b | _ \<Rightarrow> a) None vs"

definition logs_parse :: "json option \<Rightarrow> logs_args result" where
  "logs_parse raw =
     (let v = doc_of raw; fv = (\<lambda>f. field_vals docker_logs_fields f v) in
      if raw \<noteq> None \<and> common_ok docker_logs_fields v \<and> list_all is_str (fv ''container'') \<and> list_all is_int (fv ''lines'') \<and>
         list_all is_str (fv ''since'') \<and> list_all is_str (fv ''until'') \<and> list_all is_bool (fv ''timestamps'') \<and>
         list_all is_bool (fv ''stdout'') \<and> list_all is_bool (fv ''stderr'') \<and> list_all is_str (fv ''output_format'')
      then Inr \<lparr>lg_Socket = worker_Socket docker_logs_fields v, lg_Containers = worker_Containers docker_logs_fields v,
                lg_Container = dec_string [] (fv ''container''), lg_Lines = dec_int 0 (fv ''lines''),
                lg_Since = dec_string [] (fv ''since''), lg_Until = dec_string [] (fv ''until''),
                lg_Timestamps = dec_bool False (fv ''timestamps''), lg_Stdout = opt_bool (fv ''stdout''),
                lg_Stderr = opt_bool (fv ''stderr''), lg_OutputFormat = dec_string [] (fv ''output_format'')\<rparr>
      else Inl ''invalid arguments'')"

definition maxLogBytes :: nat where
  "maxLogBytes = 2 ^ 20"

definition engineTime :: "('w, 'z) docker_env_scheme \<Rightarrow> string \<Rightarrow> string result" where
  "engineTime E v =
     (if v = [] then Inr []
      else if float_text E v then Inr v
      else case time_unix E v of
             None \<Rightarrow> Inl (''invalid time '' @ quoted v @ '': give a unix timestamp (1759005000) or an RFC3339 time (2026-09-27T04:28:30Z)'')
           | Some t \<Rightarrow> Inr (int_str t))"

definition onByDefault :: "bool option \<Rightarrow> string" where
  "onByDefault b = (if b = Some False then [] else ''true'')"

definition boolQ :: "bool \<Rightarrow> string" where
  "boolQ b = (if b then ''true'' else [])"

definition logs_tail :: "logs_args \<Rightarrow> int" where
  "logs_tail args = (if 0 < lg_Lines args then lg_Lines args else 100)"

definition docker_Logs ::
  "('w, 'z) docker_env_scheme \<Rightarrow> json option \<Rightarrow> 'w wire \<Rightarrow> tool_out result outcome \<times> 'w wire" where
  "docker_Logs E raw s =
     (case logs_parse raw of
        Inl e \<Rightarrow> (Finished (Inl e), s)
      | Inr args \<Rightarrow>
          (let c = New E (lg_Socket args) 60 in
           case client_Authorize E c (lg_Container args) (lg_Containers args) s of
             (Inl e, s1) \<Rightarrow> (Finished (Inl e), s1)
           | (Inr (cid, name), s1) \<Rightarrow>
               (case engineTime E (lg_Since args) of
                  Inl e \<Rightarrow> (Finished (Inl e), s1)
                | Inr since \<Rightarrow>
                    (case engineTime E (lg_Until args) of
                       Inl e \<Rightarrow> (Finished (Inl e), s1)
                     | Inr until \<Rightarrow>
                         (let q = docker_Q [''stdout'', onByDefault (lg_Stdout args), ''stderr'', onByDefault (lg_Stderr args),
                                ''tail'', int_str (logs_tail args), ''since'', since, ''until'', until,
                                ''timestamps'', boolQ (lg_Timestamps args)] in
                          case GetStream E c (''/containers/'' @ cid @ ''/logs'' @ q) s1 of
                            (Inl e, s2) \<Rightarrow> (Finished (Inl (err_Error e)), s2)
                          | (Inr body, s2) \<Rightarrow>
                              (case DemuxCombined maxLogBytes body of
                                 Inl e \<Rightarrow> (Finished (Inl (''reading logs of '' @ name @ '': '' @ err_Error e)), s2)
                               | Inr out \<Rightarrow>
                                   (if Structured (lg_OutputFormat args)
                                    then Finished (Inr (Doc (marshal_map [(''container'', JStr name), (''id'', JStr cid),
                                           (''lines'', JNum (logs_tail args) 0), (''logs'', JStr out)])))
                                    else if out = []
                                    then with_short_id cid (\<lambda>sid. Inr (Text (''Container '' @ name @ '' ('' @ sid @
                                           '') has no log output for this selection.'' @ [CHR 0x0A])))
                                    else Finished (Inr (Text out)), s2)))))))"

subsection \<open>docker/prune\<close>

record prune_args =
  pr_Socket :: string
  pr_Prune :: "string list"
  pr_Target :: string
  pr_OutputFormat :: string

definition prune_fields :: "string list" where
  "prune_fields = [''_docker_socket'', ''_containers'', ''_prune'', ''target'', ''output_format'']"

definition prune_parse :: "json option \<Rightarrow> prune_args result" where
  "prune_parse raw =
     (let v = doc_of raw; fv = (\<lambda>f. field_vals prune_fields f v) in
      if raw \<noteq> None \<and> common_ok prune_fields v \<and> list_all is_strs (fv ''_prune'') \<and> list_all is_str (fv ''target'') \<and>
         list_all is_str (fv ''output_format'')
      then Inr \<lparr>pr_Socket = worker_Socket prune_fields v, pr_Prune = worker_Prune prune_fields v,
                pr_Target = dec_string [] (fv ''target''), pr_OutputFormat = dec_string [] (fv ''output_format'')\<rparr>
      else Inl ''invalid arguments'')"

definition endpoints :: "(string \<times> string) list" where
  "endpoints = [(''containers'', ''/containers/prune''), (''images'', ''/images/prune''), (''volumes'', ''/volumes/prune''),
     (''networks'', ''/networks/prune''), (''build-cache'', ''/build/prune'')]"

text \<open>Decoding a slice of structs: \<open>f\<close> decodes one element into the one already there, \<open>z\<close> is the zero value.\<close>

fun dec_list :: "('a \<Rightarrow> json \<Rightarrow> 'a) \<Rightarrow> 'a \<Rightarrow> 'a list \<Rightarrow> json list \<Rightarrow> 'a list" where
  "dec_list f z old [] = []"
| "dec_list f z old (v # vs) = f (case old of [] \<Rightarrow> z | o1 # _ \<Rightarrow> o1) v # dec_list f z (tl old) vs"

definition dec_slice :: "('a \<Rightarrow> json \<Rightarrow> 'a) \<Rightarrow> 'a \<Rightarrow> json list \<Rightarrow> 'a list" where
  "dec_slice f z vs = foldl (\<lambda>a v. case v of JNull \<Rightarrow> [] | JArr xs \<Rightarrow> dec_list f z a xs | _ \<Rightarrow> a) [] vs"

definition is_slice :: "(json \<Rightarrow> bool) \<Rightarrow> json \<Rightarrow> bool" where
  "is_slice p v = (case v of JArr xs \<Rightarrow> list_all p xs | JNull \<Rightarrow> True | _ \<Rightarrow> False)"

definition nil_slice :: "json list \<Rightarrow> bool" where
  "nil_slice vs = foldl (\<lambda>a v. case v of JNull \<Rightarrow> True | JArr _ \<Rightarrow> False | _ \<Rightarrow> a) True vs"

record deleted_image =
  di_Untagged :: string
  di_Deleted :: string

definition dec_deleted_image :: "deleted_image \<Rightarrow> json \<Rightarrow> deleted_image" where
  "dec_deleted_image d v =
     (let fv = (\<lambda>f. field_vals [''Untagged'', ''Deleted''] f v) in
      \<lparr>di_Untagged = dec_string (di_Untagged d) (fv ''Untagged''), di_Deleted = dec_string (di_Deleted d) (fv ''Deleted'')\<rparr>)"

definition is_deleted_image :: "json \<Rightarrow> bool" where
  "is_deleted_image v \<longleftrightarrow> is_structdoc v \<and> list_all is_str (field_vals [''Untagged'', ''Deleted''] ''Untagged'' v) \<and>
     list_all is_str (field_vals [''Untagged'', ''Deleted''] ''Deleted'' v)"

record apiResult =
  ContainersDeleted :: "string list"
  ContainersNil :: bool
  VolumesDeleted :: "string list"
  NetworksDeleted :: "string list"
  CachesDeleted :: "string list"
  ImagesDeleted :: "deleted_image list"
  SpaceReclaimed :: int

definition api_fields :: "string list" where
  "api_fields = [''ContainersDeleted'', ''VolumesDeleted'', ''NetworksDeleted'', ''CachesDeleted'', ''ImagesDeleted'', ''SpaceReclaimed'']"

definition dec_apiResult :: "json \<Rightarrow> apiResult option" where
  "dec_apiResult v =
     (let fv = (\<lambda>f. field_vals api_fields f v) in
      if is_structdoc v \<and> list_all is_strs (fv ''ContainersDeleted'') \<and> list_all is_strs (fv ''VolumesDeleted'') \<and>
         list_all is_strs (fv ''NetworksDeleted'') \<and> list_all is_strs (fv ''CachesDeleted'') \<and>
         list_all (is_slice is_deleted_image) (fv ''ImagesDeleted'') \<and> list_all is_int (fv ''SpaceReclaimed'')
      then Some \<lparr>ContainersDeleted = dec_strings [] (fv ''ContainersDeleted''),
                 ContainersNil = nil_slice (fv ''ContainersDeleted''),
                 VolumesDeleted = dec_strings [] (fv ''VolumesDeleted''), NetworksDeleted = dec_strings [] (fv ''NetworksDeleted''),
                 CachesDeleted = dec_strings [] (fv ''CachesDeleted''),
                 ImagesDeleted = dec_slice dec_deleted_image \<lparr>di_Untagged = [], di_Deleted = []\<rparr> (fv ''ImagesDeleted''),
                 SpaceReclaimed = dec_int 0 (fv ''SpaceReclaimed'')\<rparr>
      else None)"

fun add_images :: "deleted_image list \<Rightarrow> string list \<Rightarrow> nat \<Rightarrow> string list \<times> nat" where
  "add_images [] deleted cnt = (deleted, cnt)"
| "add_images (img # rest) deleted cnt =
     (if di_Deleted img \<noteq> [] then add_images rest (deleted @ [di_Deleted img]) (cnt + 1)
      else if di_Untagged img \<noteq> [] then add_images rest (deleted @ [''untagged '' @ di_Untagged img]) cnt
      else add_images rest deleted cnt)"

function prune_short :: "string \<Rightarrow> string" where
  "prune_short s =
     (if has_prefix s ''untagged '' then ''untagged '' @ prune_short (drop 9 s)
      else if has_prefix s ''sha256:'' \<and> 19 < length s then take 19 s
      else if length s = 64 then take 12 s
      else s)"
  by pat_completeness auto
termination
  by (relation "measure length") (auto simp: has_prefix_def dest: arg_cong [where f = length])

declare prune_short.simps [simp del]

definition prune_report :: "prune_args \<Rightarrow> string \<Rightarrow> apiResult \<Rightarrow> tool_out" where
  "prune_report args target res =
     (let d0 = ContainersDeleted res @ VolumesDeleted res @ NetworksDeleted res @ CachesDeleted res;
          (deleted, cnt) = add_images (ImagesDeleted res) d0 (length d0)
      in if Structured (pr_OutputFormat args)
         then Doc (JObj [(''target'', JStr target),
                (''deleted'', if deleted = [] \<and> ContainersNil res then JNull else json_strings deleted),
                (''count'', JNum (int cnt) 0), (''space_reclaimed_bytes'', JNum (SpaceReclaimed res) 0)])
         else Text (target @ '': '' @ nat_str cnt @ '' removed'' @
                (if target = ''networks'' then [] else '', '' @ humanSize (SpaceReclaimed res) @ '' reclaimed'') @ [CHR 0x0A] @
                concat (map (\<lambda>d. ''  '' @ prune_short d @ [CHR 0x0A]) deleted)))"

definition docker_Prune ::
  "('w, 'z) engine_scheme \<Rightarrow> json option \<Rightarrow> 'w wire \<Rightarrow> tool_out result \<times> 'w wire" where
  "docker_Prune E raw s =
     (case prune_parse raw of
        Inl e \<Rightarrow> (Inl e, s)
      | Inr args \<Rightarrow>
          (let target = to_lower (trim_space (pr_Target args)) in
           if target = []
           then (Inl (''target is required: name the one kind to reclaim ('' @ join_with '', '' PruneTargets @
                   '') - there is no implicit prune-everything, and one call reclaims one kind''), s)
           else if map_of endpoints target = None
           then (Inl (''unknown prune target '' @ quoted target @ '': use one of '' @ join_with '', '' PruneTargets), s)
           else if pr_Prune args = []
           then (Inl (''not authorized: no prune: list in this tool's grant in mcp-sudo.yaml - list the targets it may reclaim ('' @
                   join_with '', '' PruneTargets @ '')''), s)
           else if \<not> PruneAllowed target (pr_Prune args)
           then (Inl (''not authorized to prune '' @ target @ '': it is not in this tool's prune: list in mcp-sudo.yaml (granted: '' @
                   join_with '', '' (pr_Prune args) @ '')''), s)
           else
             (case PostJSON E (New E (pr_Socket args) 120) (the (map_of endpoints target)) None (Some dec_apiResult) s of
                (Inl e, s1) \<Rightarrow> (Inl (err_Error e), s1)
              | (Inr None, s1) \<Rightarrow> (Inl [], s1)
              | (Inr (Some res), s1) \<Rightarrow> (Inr (prune_report args target res), s1))))"


subsection \<open>What the workers ask of the Engine\<close>

definition docker_fields :: "string \<Rightarrow> string list" where
  "docker_fields tool =
     (if tool = ''docker/manage'' then manage_fields else if tool = ''docker/exec'' then exec_fields
      else if tool = ''docker/logs'' then docker_logs_fields else prune_fields)"

text \<open>The worker of a docker tool that acts on the Engine.\<close>

definition docker_worker ::
  "string \<Rightarrow> ('w, 'z) docker_env_scheme \<Rightarrow> json option \<Rightarrow> 'w wire \<Rightarrow> tool_out result outcome \<times> 'w wire" where
  "docker_worker tool E raw s =
     (if tool = ''docker/manage'' then docker_Manage E raw s
      else if tool = ''docker/exec'' then docker_Exec E raw s
      else if tool = ''docker/logs'' then docker_Logs E raw s
      else case docker_Prune E raw s of (r, s') \<Rightarrow> (Finished r, s'))"

definition get_request :: "string \<Rightarrow> api_request" where
  "get_request path = \<lparr>rq_Method = GET, rq_path = path, rq_body = None\<rparr>"

definition post_request :: "string \<Rightarrow> json option \<Rightarrow> api_request" where
  "post_request path b = \<lparr>rq_Method = POST, rq_path = path, rq_body = b\<rparr>"

text \<open>
  \<open>scoped\<close>: the requests \<open>rs\<close> are none; or the question which container \<open>ref\<close> is; or that question,
  answered by a container the list allows, followed by requests that \<open>follow\<close> accepts for that
  container's ID in the state \<open>s1\<close> after the question.
\<close>

definition scoped ::
  "('w, 'z) engine_scheme \<Rightarrow> client \<Rightarrow> string \<Rightarrow> string list \<Rightarrow> 'w wire \<Rightarrow> (string \<Rightarrow> 'w wire \<Rightarrow> api_request list \<Rightarrow> bool) \<Rightarrow>
   api_request list \<Rightarrow> bool" where
  "scoped E c ref allow s follow rs \<longleftrightarrow>
     rs = [] \<or>
     (ValidIdentifier ref = Inr () \<and> allow \<noteq> [] \<and> hd rs = get_request (inspect_path ref) \<and>
      (tl rs = [] \<or>
       (\<exists>ct s1. GetJSON E c (inspect_path ref) dec_container s = (Inr ct, s1) \<and> ct_ID ct \<noteq> [] \<and>
          Allowed (trim_prefix (ct_Name ct) ''/'') (ct_ID ct) allow \<and> follow (ct_ID ct) s1 (tl rs))))"

definition manage_follow :: "json option \<Rightarrow> string \<Rightarrow> 'w wire \<Rightarrow> api_request list \<Rightarrow> bool" where
  "manage_follow raw cid s1 rs \<longleftrightarrow>
     (\<exists>args action. manage_parse raw = Inr args \<and> action = to_lower (trim_space (mg_Action args)) \<and>
        (action = ''remove'' \<and> rs = [\<lparr>rq_Method = DELETE, rq_path = ''/containers/'' @ cid, rq_body = None\<rparr>] \<or>
         action \<in> {''start'', ''stop'', ''restart'', ''kill'', ''pause'', ''unpause''} \<and>
         rs = [post_request (''/containers/'' @ cid @ ''/'' @ action) None]))"

definition exec_follow ::
  "('w, 'z) engine_scheme \<Rightarrow> client \<Rightarrow> json option \<Rightarrow> string \<Rightarrow> 'w wire \<Rightarrow> api_request list \<Rightarrow> bool" where
  "exec_follow E c raw cid s1 rs \<longleftrightarrow>
     (\<exists>args. exec_parse raw = Inr args \<and> ex_Command args \<noteq> [] \<and>
        hd rs = post_request (''/containers/'' @ cid @ ''/exec'') (Some (exec_create_body args)) \<and>
        (tl rs = [] \<or>
         (\<exists>eid s2. PostJSON E c (''/containers/'' @ cid @ ''/exec'') (Some (exec_create_body args)) (Some dec_exec_id) s1 = (Inr (Some eid), s2) \<and>
            prefix (tl rs) [post_request (''/exec/'' @ eid @ ''/start'') (Some (JObj [(''Detach'', JBool False), (''Tty'', JBool False)])),
                            get_request (''/exec/'' @ eid @ ''/json'')])))"

definition logs_follow :: "string \<Rightarrow> 'w wire \<Rightarrow> api_request list \<Rightarrow> bool" where
  "logs_follow cid s1 rs \<longleftrightarrow> (\<exists>q. rs = [get_request (''/containers/'' @ cid @ ''/logs'' @ docker_Q q)])"

subsubsection \<open>The client\<close>

text \<open>An exchange sends its request, unless the address was refused before.\<close>

definition asks :: "api_request \<Rightarrow> 'w wire \<Rightarrow> 'w wire \<Rightarrow> bool" where
  "asks rq s s' \<longleftrightarrow> sent s' = sent s \<or> sent s' = sent s @ [rq]"

lemma client_do_asks:
  assumes "client_do E c m p b s = (r, s')"
  shows "asks \<lparr>rq_Method = m, rq_path = p, rq_body = b\<rparr> s s'"
    and "r = Inr x \<Longrightarrow> sent s' = sent s @ [\<lparr>rq_Method = m, rq_path = p, rq_body = b\<rparr>]"
  using assms by (auto simp: client_do_def asks_def Let_def split: sum.splits prod.splits)

lemma GetJSON_asks:
  assumes "GetJSON E c p dec s = (r, s')"
  shows "asks (get_request p) s s'" and "r = Inr x \<Longrightarrow> sent s' = sent s @ [get_request p]"
  using assms client_do_asks [of E c GET p None s]
  by (auto simp: GetJSON_def get_request_def split: sum.splits prod.splits)

lemma GetStream_asks:
  assumes "GetStream E c p s = (r, s')"
  shows "asks (get_request p) s s'"
  using assms client_do_asks(1) [of E c GET p None s]
  by (auto simp: GetStream_def get_request_def split: sum.splits prod.splits)

lemma PostJSON_asks:
  assumes "PostJSON E c p b out s = (r, s')"
  shows "asks (post_request p b) s s'" and "r = Inr x \<Longrightarrow> sent s' = sent s @ [post_request p b]"
  using assms client_do_asks [of E c POST p b s]
  by (auto simp: PostJSON_def post_request_def split: sum.splits prod.splits)

lemma PostJSON_some:
  "PostJSON E c p b (Some dec) s = (Inr x, s') \<Longrightarrow> \<exists>y. x = Some y"
  by (auto simp: PostJSON_def split: sum.splits prod.splits if_splits)

lemma PostStream_asks:
  assumes "PostStream E c p b s = (r, s')"
  shows "asks (post_request p b) s s'" and "r = Inr x \<Longrightarrow> sent s' = sent s @ [post_request p b]"
  using assms client_do_asks [of E c POST p b s]
  by (auto simp: PostStream_def post_request_def split: sum.splits prod.splits)

lemma client_Delete_asks:
  assumes "client_Delete E c p s = (r, s')"
  shows "asks \<lparr>rq_Method = DELETE, rq_path = p, rq_body = None\<rparr> s s'"
  using assms client_do_asks(1) [of E c DELETE p None s]
  by (auto simp: client_Delete_def split: sum.splits prod.splits)

text \<open>After a failed authorization at most the question was asked; after a successful one exactly it.\<close>

lemma client_Authorize_failed:
  assumes "client_Authorize E c ref allow s = (r, s1)"
  shows "\<exists>rs. sent s1 = sent s @ rs \<and> scoped E c ref allow s follow rs"
  using assms GetJSON_asks(1) [of E c "inspect_path ref" dec_container s]
  by (fastforce simp: client_Authorize_def scoped_def asks_def split: sum.splits prod.splits if_splits)

lemma client_Authorize_ok:
  assumes "client_Authorize E c ref allow s = (Inr (cid, name), s1)"
    and "sent s' = sent s1 @ rs" and "rs \<noteq> [] \<Longrightarrow> follow cid s1 rs"
  shows "\<exists>qs. sent s' = sent s @ qs \<and> scoped E c ref allow s follow qs"
proof -
  have v: "ValidIdentifier ref = Inr ()" "allow \<noteq> []"
    using assms(1) by (auto simp: client_Authorize_def Authorize_def split: sum.splits if_splits)
  obtain r where g: "GetJSON E c (inspect_path ref) dec_container s = (r, s1)"
    and a: "Authorize (\<lambda>_. case r of Inl e \<Rightarrow> Inl (err_Error e) | Inr ct \<Rightarrow> Inr ct) ref allow = Inr (cid, name)"
    using assms(1) v by (auto simp: client_Authorize_def split: prod.splits)
  then obtain ct where r: "r = Inr ct" "cid = ct_ID ct" "cid \<noteq> []" "Allowed (trim_prefix (ct_Name ct) ''/'') cid allow"
    by (auto simp: Authorize_def Resolve_def split: sum.splits if_splits)
  have "sent s' = sent s @ get_request (inspect_path ref) # rs"
    using GetJSON_asks(2) [OF g r(1)] assms(2) by simp
  then show ?thesis
    using v g r assms(3) by (intro exI [of _ "get_request (inspect_path ref) # rs"]) (auto simp: scoped_def)
qed


subsubsection \<open>The tools\<close>

definition worker_Container :: "string \<Rightarrow> json option \<Rightarrow> string" where
  "worker_Container tool raw = dec_string [] (field_vals (docker_fields tool) ''container'' (doc_of raw))"

definition worker_client :: "('w, 'z) engine_scheme \<Rightarrow> string \<Rightarrow> json option \<Rightarrow> client" where
  "worker_client E tool raw =
     New E (worker_Socket (docker_fields tool) (doc_of raw))
       (if tool = ''docker/exec'' then exec_timeout (dec_int 0 (field_vals exec_fields ''timeout'' (doc_of raw))) else 60)"

definition follow_of ::
  "('w, 'z) engine_scheme \<Rightarrow> string \<Rightarrow> json option \<Rightarrow> string \<Rightarrow> 'w wire \<Rightarrow> api_request list \<Rightarrow> bool" where
  "follow_of E tool raw =
     (if tool = ''docker/manage'' then manage_follow raw
      else if tool = ''docker/exec'' then exec_follow E (worker_client E tool raw) raw
      else logs_follow)"

lemma scoped_Nil: "sent s' = sent s \<Longrightarrow> \<exists>rs. sent s' = sent s @ rs \<and> scoped E c ref allow s follow rs"
  by (simp add: scoped_def)

lemma asks_then: "asks rq s s' \<Longrightarrow> P [rq] \<Longrightarrow> \<exists>rs. sent s' = sent s @ rs \<and> (rs \<noteq> [] \<longrightarrow> P rs)"
  by (auto simp: asks_def)

lemma manage_scoped:
  assumes "docker_Manage E raw s = (res, s')"
  shows "\<exists>rs. sent s' = sent s @ rs \<and>
    scoped E (New E (worker_Socket manage_fields (doc_of raw)) 60) (dec_string [] (field_vals manage_fields ''container'' (doc_of raw)))
      (worker_Containers manage_fields (doc_of raw)) s (manage_follow raw) rs"
proof (cases "manage_parse raw")
  case (Inl e)
  then show ?thesis using assms by (intro scoped_Nil) (simp add: docker_Manage_def)
next
  case (Inr args)
  have a: "worker_Socket manage_fields (doc_of raw) = mg_Socket args" "worker_Containers manage_fields (doc_of raw) = mg_Containers args"
    "dec_string [] (field_vals manage_fields ''container'' (doc_of raw)) = mg_Container args"
    using Inr by (auto simp: manage_parse_def Let_def split: if_splits)
  let ?act = "to_lower (trim_space (mg_Action args))" and ?c = "New E (mg_Socket args) 60"
  show ?thesis
  proof (cases "map_of actions ?act = None \<and> ?act \<noteq> ''remove''")
    case True
    then show ?thesis using assms Inr by (intro scoped_Nil) (simp add: docker_Manage_def Let_def)
  next
    case False
    obtain r s1 where au: "client_Authorize E ?c (mg_Container args) (mg_Containers args) s = (r, s1)" by fastforce
    show ?thesis
    proof (cases r)
      case (Inl e)
      then have "s' = s1" using assms Inr False au by (auto simp: docker_Manage_def Let_def)
      then show ?thesis using client_Authorize_failed [OF au] by (simp add: a)
    next
      case ok: (Inr pr)
      obtain cid name where pr: "pr = (cid, name)" by fastforce
      have "\<exists>rs. sent s' = sent s1 @ rs \<and> (rs \<noteq> [] \<longrightarrow> manage_follow raw cid s1 rs)"
      proof (cases "?act = ''remove''")
        case True
        obtain d where "client_Delete E ?c (''/containers/'' @ cid) s1 = (d, s')"
          using assms Inr False True au ok pr by (auto simp: docker_Manage_def Let_def split: prod.splits option.splits client_err.splits)
        then show ?thesis using Inr True by (intro asks_then [OF client_Delete_asks]) (auto simp: manage_follow_def)
      next
        case no: False
        then obtain ep where ep: "map_of actions ?act = Some ep" using False by auto
        then have act: "ep = ?act" "?act \<in> {''start'', ''stop'', ''restart'', ''kill'', ''pause'', ''unpause''}"
          by (auto simp: actions_def split: if_splits)
        obtain d where "PostJSON E ?c (''/containers/'' @ cid @ ''/'' @ ep) None (None :: (json \<Rightarrow> unit option) option) s1 = (d, s')"
          using assms Inr False no au ok pr ep by (auto simp: docker_Manage_def Let_def split: prod.splits sum.splits client_err.splits)
        then show ?thesis using Inr act by (intro asks_then [OF PostJSON_asks(1)]) (auto simp: manage_follow_def)
      qed
      then show ?thesis using client_Authorize_ok [OF au [unfolded ok pr]] by (auto simp: a)
    qed
  qed
qed

lemma logs_scoped:
  assumes "docker_Logs E raw s = (res, s')"
  shows "\<exists>rs. sent s' = sent s @ rs \<and>
    scoped E (New E (worker_Socket docker_logs_fields (doc_of raw)) 60) (dec_string [] (field_vals docker_logs_fields ''container'' (doc_of raw)))
      (worker_Containers docker_logs_fields (doc_of raw)) s logs_follow rs"
proof (cases "logs_parse raw")
  case (Inl e)
  then show ?thesis using assms by (intro scoped_Nil) (simp add: docker_Logs_def)
next
  case (Inr args)
  have a: "worker_Socket docker_logs_fields (doc_of raw) = lg_Socket args" "worker_Containers docker_logs_fields (doc_of raw) = lg_Containers args"
    "dec_string [] (field_vals docker_logs_fields ''container'' (doc_of raw)) = lg_Container args"
    using Inr by (auto simp: logs_parse_def Let_def split: if_splits)
  let ?c = "New E (lg_Socket args) 60"
  obtain r s1 where au: "client_Authorize E ?c (lg_Container args) (lg_Containers args) s = (r, s1)" by fastforce
  show ?thesis
  proof (cases r)
    case l: (Inl e)
    then have "s' = s1" using assms Inr au by (auto simp: docker_Logs_def Let_def)
    then show ?thesis using client_Authorize_failed [OF au] by (simp add: a)
  next
    case ok: (Inr pr)
    obtain cid name where pr: "pr = (cid, name)" by fastforce
    consider "s' = s1" | q d where "GetStream E ?c (''/containers/'' @ cid @ ''/logs'' @ docker_Q q) s1 = (d, s')"
      using assms Inr au ok pr by (auto simp: docker_Logs_def Let_def split: sum.splits prod.splits)
    then have "\<exists>rs. sent s' = sent s1 @ rs \<and> (rs \<noteq> [] \<longrightarrow> logs_follow cid s1 rs)"
    proof cases
      case 2
      then show ?thesis by (intro asks_then [OF GetStream_asks]) (auto simp: logs_follow_def)
    qed simp
    then show ?thesis using client_Authorize_ok [OF au [unfolded ok pr]] by (auto simp: a)
  qed
qed


text \<open>The requests of \<open>docker/exec\<close> after the authorization.\<close>

definition exec_requests :: "string \<Rightarrow> api_request list" where
  "exec_requests eid =
     [post_request (''/exec/'' @ eid @ ''/start'') (Some (JObj [(''Detach'', JBool False), (''Tty'', JBool False)])),
      get_request (''/exec/'' @ eid @ ''/json'')]"

lemma exec_followI:
  assumes "exec_parse raw = Inr args" and "ex_Command args \<noteq> []"
    and "rs = post_request (''/containers/'' @ cid @ ''/exec'') (Some (exec_create_body args)) # ts"
    and "ts \<noteq> [] \<Longrightarrow> \<exists>eid s2. PostJSON E c (''/containers/'' @ cid @ ''/exec'') (Some (exec_create_body args)) (Some dec_exec_id) s1 =
           (Inr (Some eid), s2) \<and> prefix ts (exec_requests eid)"
  shows "exec_follow E c raw cid s1 rs"
  using assms unfolding exec_follow_def exec_requests_def by (intro exI [of _ args]) auto

lemma exec_started:
  assumes "(case PostStream E c (''/exec/'' @ eid @ ''/start'') (Some (JObj [(''Detach'', JBool False), (''Tty'', JBool False)])) s2 of
      (Inl e, s3) \<Rightarrow> (Finished (Inl (timedOut name t e)), s3)
    | (Inr body, s3) \<Rightarrow>
        (case Demux maxOutputBytes body of
           Inl e \<Rightarrow> (Finished (Inl (timedOut name t e)), s3)
         | Inr (outs, errs) \<Rightarrow>
             (case GetJSON E c (''/exec/'' @ eid @ ''/json'') dec_exec_state s3 of
                (Inl e, s4) \<Rightarrow> (Finished (Inl (err_Error e)), s4)
              | (Inr state, s4) \<Rightarrow> (exec_report args name cid state outs errs, s4)))) = (res, s')"
  shows "\<exists>ts. sent s' = sent s2 @ ts \<and> prefix ts (exec_requests eid)"
proof -
  let ?b = "Some (JObj [(''Detach'', JBool False), (''Tty'', JBool False)])"
  obtain r s3 where ps: "PostStream E c (''/exec/'' @ eid @ ''/start'') ?b s2 = (r, s3)" by fastforce
  consider "s' = s3" | body d where "r = Inr body" "GetJSON E c (''/exec/'' @ eid @ ''/json'') dec_exec_state s3 = (d, s')"
    using assms ps by (auto split: sum.splits prod.splits)
  then show ?thesis
  proof cases
    case 1
    then show ?thesis using PostStream_asks(1) [OF ps] by (auto simp: asks_def exec_requests_def)
  next
    case 2
    then show ?thesis
      using PostStream_asks(2) [OF ps 2(1)] GetJSON_asks(1) [OF 2(2)] by (auto simp: asks_def exec_requests_def)
  qed
qed

lemma exec_scoped:
  assumes "docker_Exec E raw s = (res, s')"
  defines "c \<equiv> New E (worker_Socket exec_fields (doc_of raw)) (exec_timeout (dec_int 0 (field_vals exec_fields ''timeout'' (doc_of raw))))"
  shows "\<exists>rs. sent s' = sent s @ rs \<and>
    scoped E c (dec_string [] (field_vals exec_fields ''container'' (doc_of raw)))
      (worker_Containers exec_fields (doc_of raw)) s (exec_follow E c raw) rs"
proof (cases "\<exists>args. exec_parse raw = Inr args \<and> ex_Command args \<noteq> []")
  case False
  then show ?thesis using assms(1) by (intro scoped_Nil) (auto simp: docker_Exec_def split: sum.splits if_splits)
next
  case True
  then obtain args where args: "exec_parse raw = Inr args" and cmd: "ex_Command args \<noteq> []" by blast
  have a: "c = New E (ex_Socket args) (exec_timeout (ex_Timeout args))" "worker_Containers exec_fields (doc_of raw) = ex_Containers args"
    "dec_string [] (field_vals exec_fields ''container'' (doc_of raw)) = ex_Container args"
    using args by (auto simp: exec_parse_def c_def Let_def split: if_splits)
  obtain r s1 where au: "client_Authorize E c (ex_Container args) (ex_Containers args) s = (r, s1)" by fastforce
  show ?thesis
  proof (cases r)
    case (Inl e)
    then have "s' = s1" using assms(1) args cmd au by (auto simp: docker_Exec_def Let_def a(1))
    then show ?thesis using client_Authorize_failed [OF au] by (simp add: a(2,3))
  next
    case ok: (Inr pr)
    obtain cid name where pr: "pr = (cid, name)" by fastforce
    let ?p = "''/containers/'' @ cid @ ''/exec''" and ?b = "Some (exec_create_body args)"
    obtain r2 s2 where po: "PostJSON E c ?p ?b (Some dec_exec_id) s1 = (r2, s2)" by fastforce
    have "\<exists>rs. sent s' = sent s1 @ rs \<and> (rs \<noteq> [] \<longrightarrow> exec_follow E c raw cid s1 rs)"
    proof (cases r2)
      case (Inl e)
      then have "s' = s2" using assms(1) args cmd au ok pr po by (auto simp: docker_Exec_def Let_def a(1))
      then show ?thesis by (intro asks_then) (auto intro: PostJSON_asks(1) [OF po] exec_followI [OF args cmd])
    next
      case (Inr cr)
      then obtain eid where cr: "cr = Some eid" using PostJSON_some po by blast
      have "\<exists>ts. sent s' = sent s2 @ ts \<and> prefix ts (exec_requests eid)"
        by (rule exec_started [where E = E and c = "New E (ex_Socket args) (exec_timeout (ex_Timeout args))" and name = name and t = "exec_timeout (ex_Timeout args)" and args = args
              and cid = cid and res = res])
          (use assms(1) args cmd au [unfolded a(1)] ok pr po [unfolded a(1)] Inr cr in \<open>simp add: docker_Exec_def Let_def\<close>)
      then obtain ts where "sent s' = sent s2 @ ts" "prefix ts (exec_requests eid)" by blast
      then show ?thesis
        using PostJSON_asks(2) [OF po Inr] po Inr cr
        by (intro exI [of _ "post_request ?p ?b # ts"]) (auto intro!: exec_followI [OF args cmd])
    qed
    then show ?thesis using client_Authorize_ok [OF au [unfolded ok pr]] by (auto simp: a(2,3))
  qed
qed

lemma prune_scoped:
  assumes "docker_Prune E raw s = (res, s')"
  shows "sent s' = sent s \<or>
    (\<exists>target path. target \<in> set (worker_Prune prune_fields (doc_of raw)) \<and> map_of endpoints target = Some path \<and>
       sent s' = sent s @ [post_request path None])"
proof (cases "sent s' = sent s")
  case False
  obtain args where args: "prune_parse raw = Inr args"
    using assms False by (auto simp: docker_Prune_def split: sum.splits)
  let ?t = "to_lower (trim_space (pr_Target args))"
  have pr: "pr_Prune args = worker_Prune prune_fields (doc_of raw)"
    using args by (auto simp: prune_parse_def Let_def split: if_splits)
  obtain r path where "?t \<in> set (pr_Prune args)" and path: "map_of endpoints ?t = Some path"
    and "PostJSON E (New E (pr_Socket args) 120) path None (Some dec_apiResult) s = (r, s')"
    using assms args False
    by (auto simp: docker_Prune_def Let_def split: if_splits sum.splits prod.splits option.splits)
  then show ?thesis using PostJSON_asks(1) False pr by (fastforce simp: asks_def)
qed simp


lemma worker_scoped:
  assumes "docker_worker tool E raw s = (res, s')" and "tool \<in> {''docker/manage'', ''docker/exec'', ''docker/logs''}"
  shows "\<exists>rs. sent s' = sent s @ rs \<and>
    scoped E (worker_client E tool raw) (worker_Container tool raw) (worker_Containers (docker_fields tool) (doc_of raw)) s
      (follow_of E tool raw) rs"
  using assms manage_scoped [of E raw s res s'] exec_scoped [of E raw s res s'] logs_scoped [of E raw s res s']
  by (elim insertE emptyE)
    (simp_all add: docker_worker_def worker_client_def worker_Container_def docker_fields_def follow_of_def)

subsection \<open>The daemon and its docker workers together\<close>

text \<open>The names the daemon itself puts into the arguments of a docker tool are spelled as the worker expects.\<close>

definition docker_names :: "string list" where
  "docker_names = [''privileged'', ''_prune'', ''_docker_socket'', ''_containers'', ''container'', ''action'', ''output_format'',
     ''command'', ''user'', ''working_dir'', ''timeout'', ''lines'', ''since'', ''until'', ''timestamps'', ''stdout'', ''stderr'']"

lemma docker_names_distinct: "distinct (map fold_name docker_names)"
  by code_simp

lemma injected_spelled:
  assumes "tool \<in> {''docker/manage'', ''docker/exec'', ''docker/logs''}"
    and "k \<in> {''privileged'', ''_docker_socket'', ''_containers'', ''_prune''}"
  shows "spelled_exactly (docker_fields tool) [(k, JNull)]"
proof -
  have "set (docker_fields tool) \<subseteq> set docker_names" "k \<in> set docker_names"
    using assms by (auto simp: docker_fields_def manage_fields_def exec_fields_def docker_logs_fields_def docker_names_def)
  moreover have "inj_on fold_name (set docker_names)" using docker_names_distinct by (simp add: distinct_map)
  ultimately show ?thesis by (auto simp: spelled_exactly_def list_all_iff inj_on_def)
qed

lemma spelled_keys: "spelled_exactly fs m \<longleftrightarrow> (\<forall>k \<in> fst ` set m. spelled_exactly fs [(k, JNull)])"
  by (auto simp: spelled_exactly_def list_all_iff)

lemma docker_args_keys:
  "fst ` set (docker_args sp c user tool m) \<subseteq>
   fst ` set m \<union> {''privileged'', ''_docker_socket'', ''_containers'', ''_prune''}"
  by (auto simp: docker_args_def Let_def map_put_def map_del_def)

lemma granted_containers:
  assumes "HandleToolsCall e sess params st = Finished out" and "p \<in> set (out_spawned out)"
    and "proc_tool p \<in> {''docker/manage'', ''docker/exec'', ''docker/logs''}"
    and "call_params params = Inr (proc_tool p, args)" and "unmarshal_map args = Inr (Some m0)"
    and "spelled_exactly (docker_fields (proc_tool p)) m0"
  shows "CanRunAsRoot (s_sudo (settings st)) (sess_User sess) (proc_tool p) \<and>
    worker_Containers (docker_fields (proc_tool p)) (doc_of (proc_stdin p)) =
      GetAllowedContainers (s_sudo (settings st)) (sess_User sess) (proc_tool p)"
proof -
  let ?c = "s_sudo (settings st)" and ?u = "sess_User sess" and ?t = "proc_tool p" and ?fs = "docker_fields (proc_tool p)"
  have t: "?t \<in> set DockerTools" "?t \<in> set ContainerTools" "?t \<noteq> PruneTool" "''_containers'' \<in> set ?fs"
  proof -
    have "list_all (\<lambda>t. t \<in> set DockerTools \<and> t \<in> set ContainerTools \<and> t \<noteq> PruneTool \<and> ''_containers'' \<in> set (docker_fields t))
      [''docker/manage'', ''docker/exec'', ''docker/logs'']" by code_simp
    then show "?t \<in> set DockerTools" "?t \<in> set ContainerTools" "?t \<noteq> PruneTool" "''_containers'' \<in> set ?fs"
      using assms(3) by auto
  qed
  have nc: "?t \<noteq> CronTool" using docker_group [OF t(1)] by simp
  obtain priv where pr: "prepare_standard e ?c ?u ?t args = Finished (priv, None, proc_stdin p)"
    using dispatched_standard [OF assms(1,2) nc] assms(4) by (metis Inr_inject prod.inject)
  obtain m where can: "CanRunAsRoot ?c ?u ?t" and m: "proc_stdin p = Some (marshal_map m)" "distinct (map fst m)"
      "map_of m = (map_of (docker_args (SocketPath e) ?c ?u ?t m0))(''_no_follow'' := None)"
    using prepared_docker [OF pr t(1)] assms(5) by auto
  have "dom (map_of m) \<subseteq> dom (map_of (docker_args (SocketPath e) ?c ?u ?t m0))" by (auto simp: m(3) split: if_splits)
  then have "fst ` set m \<subseteq> fst ` set m0 \<union> {''privileged'', ''_docker_socket'', ''_containers'', ''_prune''}"
    using docker_args_keys [of "SocketPath e" ?c ?u ?t m0] by (simp add: dom_map_of_conv_image_fst)
  then have sp: "spelled_exactly ?fs m"
    using assms(6) injected_spelled [OF assms(3)] unfolding spelled_keys [of ?fs m] spelled_keys [of ?fs m0] by blast
  have "map_of m ''_containers'' = Some (json_strings (GetAllowedContainers ?c ?u ?t))"
    using t by (simp add: m(3) docker_args_def Let_def)
  then show ?thesis
    using field_vals_marshal_exact [OF sp t(4) m(2)] dec_strings_last [of "[]" "[]"] can
    by (simp add: m(1) doc_of_def worker_Containers_def del: map_of_eq_Some_iff)
qed



definition ex_docker_sudo :: sudo_config where
  "ex_docker_sudo =
     \<lparr>Users = [(''alice'', \<lparr>Privileged = \<lparr>Tools = [(''docker/manage'', ex_grant\<lparr>Containers := [''web-*'']\<rparr>)], Resources = []\<rparr>\<rparr>)]\<rparr>"

definition ex_answer :: "int \<Rightarrow> json option \<Rightarrow> api_response" where
  "ex_answer st v = \<lparr>StatusCode = st, body_bytes = [], body_fail = None, body_first = v, body_64k = v\<rparr>"

text \<open>An Engine with one container, which also answers to its ID.\<close>

definition ex_engine :: "unit docker_env" where
  "ex_engine =
     \<lparr>host_root_env = False, EvalSymlinks = (\<lambda>_. Inl []), sock_stat = (\<lambda>_ _. Present), new_request = (\<lambda>_. Inr ()),
      http_do = (\<lambda>_ _ rq w.
        (if rq_path rq = ''/containers/web-1/json''
         then Inr (ex_answer 200 (Some (JObj [(''Id'', JStr ''0123456789abcdef''), (''Name'', JStr ''/web-1'')])))
         else if rq_path rq = ''/containers/0123456789abcdef/stop'' then Inr (ex_answer 204 None)
         else Inr (ex_answer 404 None), w)),
      float_text = (\<lambda>_. False), time_unix = (\<lambda>_. None), time_text = (\<lambda>_. [])\<rparr>"

definition ex_stop_args :: json where
  "ex_stop_args = JObj [(''container'', JStr ''web-1''), (''action'', JStr ''Stop'')]"

definition ex_stop_doc :: json where
  "ex_stop_doc = JObj [(''_containers'', JArr [JStr ''web-*'']), (''action'', JStr ''Stop''), (''container'', JStr ''web-1''),
     (''privileged'', JBool True)]"

lemma ex_stop_parse:
  "manage_parse (Some ex_stop_doc) = Inr \<lparr>mg_Socket = [], mg_Containers = [''web-*''], mg_Container = ''web-1'', mg_Action = ''Stop'', mg_OutputFormat = []\<rparr>"
proof -
  have f: "json_field manage_fields ''_containers'' = Some ''_containers''" "json_field manage_fields ''action'' = Some ''action''"
    "json_field manage_fields ''container'' = Some ''container''" by (simp_all add: json_field_def manage_fields_def)
  have n: "json_field manage_fields ''privileged'' = None" by code_simp
  show ?thesis
    by (simp add: manage_parse_def doc_of_def ex_stop_doc_def Let_def common_ok_def field_vals_def members_def f n is_structdoc_def is_str_def
        is_strs_def worker_Socket_def worker_Containers_def dec_string_def dec_strings_def)
qed

lemma ex_stop_authorized:
  "client_Authorize ex_engine (New ex_engine [] 60) ''web-1'' [''web-*''] \<lparr>sent = [], world = ()\<rparr> =
     (Inr (''0123456789abcdef'', ''web-1''), \<lparr>sent = [get_request ''/containers/web-1/json''], world = ()\<rparr>)"
  by code_simp

lemma ex_stop_run:
  "docker_worker ''docker/manage'' ex_engine (Some ex_stop_doc) \<lparr>sent = [], world = ()\<rparr> =
     (Finished (Inr (Text (''Container web-1 (0123456789ab): stop succeeded.'' @ [CHR 0x0A]))),
      \<lparr>sent = [get_request ''/containers/web-1/json'', post_request ''/containers/0123456789abcdef/stop'' None], world = ()\<rparr>)"
proof -
  have a: "to_lower (trim_space ''Stop'') = ''stop''" "map_of actions ''stop'' = Some ''stop''" by code_simp+
  have p: "PostJSON ex_engine (New ex_engine [] 60) ''/containers/0123456789abcdef/stop'' None (None :: (json \<Rightarrow> unit option) option)
      \<lparr>sent = [get_request ''/containers/web-1/json''], world = ()\<rparr> =
    (Inr None, \<lparr>sent = [get_request ''/containers/web-1/json'', post_request ''/containers/0123456789abcdef/stop'' None], world = ()\<rparr>)"
    by code_simp
  show ?thesis
    by (simp add: docker_worker_def docker_Manage_def ex_stop_parse ex_stop_authorized a p manage_report_def Structured_def with_short_id_def)
qed


end
