(* ===== verification/Fsafe.thy ===== *)
theory Fsafe
  imports GoPath GoText "HOL-Library.Word"
begin

text \<open>
  Package \<^verbatim>\<open>internal/fsafe\<close> (\<^verbatim>\<open>fsafe_linux.go\<close>, \<^verbatim>\<open>walk.go\<close>): opening,
  creating and walking file-system objects without ever following a symbolic link. The kernel is a
  parameter, a record of the system calls the package makes on a state \<open>'w\<close> of the machine; every
  call returns the state it leaves behind, which other processes may have changed as they like. The
  locale \<open>linux_fs\<close> states what the package relies on: which object a descriptor stands for,
  that \<open>openat\<close> with \<open>O_NOFOLLOW\<close> yields the object an entry of that directory names at some
  moment of the call, and that the type of an object never changes. From these alone the lemmas derive
  that an object is only ever reached through real directories, whatever happens meanwhile, that only
  such objects are changed, and that no descriptor is left open.
\<close>

subsection \<open>The system calls\<close>

datatype errno = ENOENT | EEXIST | ELOOP | OtherErrno string

fun errno_text :: "errno \<Rightarrow> string" where
  "errno_text ENOENT = ''no such file or directory''"
| "errno_text EEXIST = ''file exists''"
| "errno_text ELOOP = ''too many levels of symbolic links''"
| "errno_text (OtherErrno t) = t"

text \<open>What \<open>errors.Is\<close> finds inside an error, and its text.\<close>

datatype cause = Sys errno | ErrSymlink | Plain

record fs_err =
  err_is :: cause
  err_msg :: string

definition sys_err :: "errno \<Rightarrow> fs_err" where
  "sys_err e = \<lparr>err_is = Sys e, err_msg = errno_text e\<rparr>"

definition wrap_err :: "string \<Rightarrow> fs_err \<Rightarrow> fs_err" where
  "wrap_err p e = e\<lparr>err_msg := p @ '': '' @ err_msg e\<rparr>"

definition plain_err :: "string \<Rightarrow> fs_err" where
  "plain_err t = \<lparr>err_is = Plain, err_msg = t\<rparr>"

datatype oflag = O_RDONLY | O_WRONLY | O_RDWR | O_CREATE | O_TRUNC | O_APPEND | O_DIRECTORY

record stat_t =
  st_mode :: "32 word"
  st_uid :: "32 word"
  st_gid :: "32 word"

text \<open>
  The calls: \<open>k_open_root\<close> and \<open>k_openat\<close> open with \<open>O_PATH\<close> (the latter with
  \<open>O_NOFOLLOW\<close>), \<open>k_reopen\<close> opens the \<^verbatim>\<open>/proc/self/fd\<close> link of a descriptor,
  \<open>k_create\<close> is \<open>openat\<close> with the given flags and \<open>O_NOFOLLOW\<close>, \<open>k_getdents\<close>
  returns the next entries of a directory, or nothing at its end.
\<close>

record 'w kernel =
  k_open_root :: "'w \<Rightarrow> (errno + int) \<times> 'w"
  k_openat :: "int \<Rightarrow> string \<Rightarrow> 'w \<Rightarrow> (errno + int) \<times> 'w"
  k_fstat :: "int \<Rightarrow> 'w \<Rightarrow> (errno + stat_t) \<times> 'w"
  k_close :: "int \<Rightarrow> 'w \<Rightarrow> 'w"
  k_reopen :: "int \<Rightarrow> oflag list \<Rightarrow> 'w \<Rightarrow> (errno + int) \<times> 'w"
  k_getdents :: "int \<Rightarrow> 'w \<Rightarrow> (errno + string list option) \<times> 'w"
  k_chmod :: "int \<Rightarrow> 32 word \<Rightarrow> 'w \<Rightarrow> errno option \<times> 'w"
  k_fchownat :: "int \<Rightarrow> int \<Rightarrow> int \<Rightarrow> 'w \<Rightarrow> errno option \<times> 'w"
  k_mkdirat :: "int \<Rightarrow> string \<Rightarrow> 32 word \<Rightarrow> 'w \<Rightarrow> errno option \<times> 'w"
  k_create :: "int \<Rightarrow> string \<Rightarrow> oflag list \<Rightarrow> 32 word \<Rightarrow> 'w \<Rightarrow> (errno + int) \<times> 'w"

definition S_IFMT :: "32 word" where "S_IFMT = 0xF000"

definition S_IFDIR :: "32 word" where "S_IFDIR = 0x4000"

definition S_IFLNK :: "32 word" where "S_IFLNK = 0xA000"

definition S_IFREG :: "32 word" where "S_IFREG = 0x8000"

unbundle bit_operations_syntax

definition file_type :: "stat_t \<Rightarrow> 32 word" where
  "file_type st = st_mode st AND S_IFMT"

subsection \<open>Nodes\<close>

record node =
  FD :: int
  Stat :: stat_t
  Path :: string

definition IsDir :: "node \<Rightarrow> bool" where
  "IsDir n \<longleftrightarrow> file_type (Stat n) = S_IFDIR"

definition ModeBits :: "node \<Rightarrow> 32 word" where
  "ModeBits n = st_mode (Stat n) AND 0xFFF"

definition Owner :: "node \<Rightarrow> int \<times> int" where
  "Owner n = (uint (st_uid (Stat n)), uint (st_gid (Stat n)))"

definition fs_stat :: "('w, 'z) kernel_scheme \<Rightarrow> int \<Rightarrow> string \<Rightarrow> 'w \<Rightarrow> (fs_err + node) \<times> 'w" where
  "fs_stat K fd path w =
     (case k_fstat K fd w of
        (Inl e, w1) \<Rightarrow> (Inl (wrap_err path (sys_err e)), k_close K fd w1)
      | (Inr st, w1) \<Rightarrow>
          if file_type st = S_IFLNK
          then (Inl (wrap_err path \<lparr>err_is = ErrSymlink, err_msg = ''refusing to follow a symbolic link''\<rparr>), k_close K fd w1)
          else (Inr \<lparr>FD = fd, Stat = st, Path = path\<rparr>, w1))"

fun open_loop ::
  "('w, 'z) kernel_scheme \<Rightarrow> int \<Rightarrow> string list \<Rightarrow> string list \<Rightarrow> 'w \<Rightarrow> (fs_err + node) \<times> 'w" where
  "open_loop K dirfd before [] w = (Inl (plain_err ''unreachable''), w)"
| "open_loop K dirfd before (name # rest) w =
     (let path = ''/'' @ join_with ''/'' (before @ [name]);
          (r, w1) = k_openat K dirfd name w; w2 = k_close K dirfd w1
      in case r of
           Inl e \<Rightarrow> (Inl (wrap_err path (sys_err e)), w2)
         | Inr fd \<Rightarrow>
             (case fs_stat K fd path w2 of
                (Inl e, w3) \<Rightarrow> (Inl e, w3)
              | (Inr n, w3) \<Rightarrow>
                  if rest \<noteq> [] \<and> \<not> IsDir n then (Inl (plain_err (Path n @ '': not a directory'')), k_close K (FD n) w3)
                  else if rest = [] then (Inr n, w3)
                  else open_loop K fd (before @ [name]) rest w3))"

definition Open :: "('w, 'z) kernel_scheme \<Rightarrow> string \<Rightarrow> 'w \<Rightarrow> (fs_err + node) \<times> 'w" where
  "Open K path w =
     (if \<not> has_prefix path ''/'' then (Inl (plain_err (''path must be absolute: '' @ quoted path)), w)
      else case k_open_root K w of
        (Inl e, w1) \<Rightarrow> (Inl (sys_err e), w1)
      | (Inr dirfd, w1) \<Rightarrow>
          if clean path = ''/'' then fs_stat K dirfd (clean path) w1
          else open_loop K dirfd [] (split_on CHR ''/'' (trim_prefix (clean path) ''/'')) w1)"

definition Child :: "('w, 'z) kernel_scheme \<Rightarrow> node \<Rightarrow> string \<Rightarrow> 'w \<Rightarrow> (fs_err + node) \<times> 'w" where
  "Child K n name w =
     (case k_openat K (FD n) name w of
        (Inl e, w1) \<Rightarrow> (Inl (wrap_err (join_path (Path n) name) (sys_err e)), w1)
      | (Inr fd, w1) \<Rightarrow> fs_stat K fd (join_path (Path n) name) w1)"

text \<open>
  The entries of a directory, read until the kernel reports the end. A directory that keeps growing would
  be read forever: fuel bounds the number of reads, and \<open>None\<close> is its exhaustion.
\<close>

fun names_loop ::
  "nat \<Rightarrow> ('w, 'z) kernel_scheme \<Rightarrow> int \<Rightarrow> string list \<Rightarrow> 'w \<Rightarrow> ((fs_err + string list) \<times> 'w) option" where
  "names_loop 0 K fd acc w = None"
| "names_loop (Suc f) K fd acc w =
     (case k_getdents K fd w of
        (Inl e, w1) \<Rightarrow> Some (Inl (sys_err e), w1)
      | (Inr None, w1) \<Rightarrow> Some (Inr acc, w1)
      | (Inr (Some found), w1) \<Rightarrow> names_loop f K fd (acc @ filter (\<lambda>x. x \<noteq> ''.'' \<and> x \<noteq> ''..'') found) w1)"

definition Names :: "nat \<Rightarrow> ('w, 'z) kernel_scheme \<Rightarrow> node \<Rightarrow> 'w \<Rightarrow> ((fs_err + string list) \<times> 'w) option" where
  "Names fuel K n w =
     (case k_reopen K (FD n) [O_RDONLY, O_DIRECTORY] w of
        (Inl e, w1) \<Rightarrow> Some (Inl (sys_err e), w1)
      | (Inr fd, w1) \<Rightarrow> map_option (\<lambda>(r, w2). (r, k_close K fd w2)) (names_loop fuel K fd [] w1))"

definition Reopen :: "('w, 'z) kernel_scheme \<Rightarrow> node \<Rightarrow> oflag list \<Rightarrow> 'w \<Rightarrow> (fs_err + int) \<times> 'w" where
  "Reopen K n flag w =
     (case k_reopen K (FD n) flag w of
        (Inl e, w1) \<Rightarrow> (Inl (wrap_err (Path n) (sys_err e)), w1)
      | (Inr fd, w1) \<Rightarrow> (Inr fd, w1))"

definition OpenFile :: "('w, 'z) kernel_scheme \<Rightarrow> string \<Rightarrow> oflag list \<Rightarrow> 'w \<Rightarrow> (fs_err + int) \<times> 'w" where
  "OpenFile K path flag w =
     (case Open K path w of
        (Inl e, w1) \<Rightarrow> (Inl e, w1)
      | (Inr n, w1) \<Rightarrow> (let (r, w2) = Reopen K n flag w1 in (r, k_close K (FD n) w2)))"

subsection \<open>Creating\<close>

definition child_or_mkdir ::
  "('w, 'z) kernel_scheme \<Rightarrow> 32 word \<Rightarrow> node \<Rightarrow> string \<Rightarrow> 'w \<Rightarrow> (fs_err + node) \<times> 'w" where
  "child_or_mkdir K perm dir name w =
     (case Child K dir name w of
        (Inr n, w1) \<Rightarrow> (Inr n, w1)
      | (Inl e, w1) \<Rightarrow>
          if err_is e = Sys ENOENT then
            (case k_mkdirat K (FD dir) name perm w1 of
               (Some mkErr, w2) \<Rightarrow>
                 if mkErr \<noteq> EEXIST then (Inl (wrap_err (join_path (Path dir) name) (sys_err mkErr)), w2)
                 else Child K dir name w2
             | (None, w2) \<Rightarrow> Child K dir name w2)
          else (Inl e, w1))"

fun mkdir_loop :: "('w, 'z) kernel_scheme \<Rightarrow> 32 word \<Rightarrow> node \<Rightarrow> string list \<Rightarrow> 'w \<Rightarrow> (fs_err + node) \<times> 'w" where
  "mkdir_loop K perm dir [] w = (Inr dir, w)"
| "mkdir_loop K perm dir (name # rest) w =
     (let (r, w1) = child_or_mkdir K perm dir name w; w2 = k_close K (FD dir) w1
      in case r of
           Inl e \<Rightarrow> (Inl e, w2)
         | Inr n \<Rightarrow>
             if \<not> IsDir n then (Inl (plain_err (Path n @ '': not a directory'')), k_close K (FD n) w2)
             else mkdir_loop K perm n rest w2)"

definition MkdirAll :: "('w, 'z) kernel_scheme \<Rightarrow> string \<Rightarrow> 32 word \<Rightarrow> 'w \<Rightarrow> (fs_err + node) \<times> 'w" where
  "MkdirAll K path perm w =
     (if \<not> has_prefix path ''/'' then (Inl (plain_err (''path must be absolute: '' @ quoted path)), w)
      else case Open K ''/'' w of
        (Inl e, w1) \<Rightarrow> (Inl e, w1)
      | (Inr dir, w1) \<Rightarrow>
          if clean path = ''/'' then (Inr dir, w1)
          else mkdir_loop K perm dir (split_on CHR ''/'' (trim_prefix (clean path) ''/'')) w1)"

definition CreateFile ::
  "('w, 'z) kernel_scheme \<Rightarrow> string \<Rightarrow> oflag list \<Rightarrow> 32 word \<Rightarrow> bool \<Rightarrow> 'w \<Rightarrow> (fs_err + int) \<times> 'w" where
  "CreateFile K path flag perm mkdirs w =
     (let (dirPath, name) = split_path (clean path) in
      if name = [] then (Inl (plain_err (path @ '': not a file path'')), w)
      else case (if mkdirs then MkdirAll K dirPath 0x1ED w else Open K dirPath w) of
        (Inl e, w1) \<Rightarrow> (Inl e, w1)
      | (Inr parent, w1) \<Rightarrow>
          if \<not> IsDir parent then (Inl (plain_err (Path parent @ '': not a directory'')), k_close K (FD parent) w1)
          else
            (let (r, w2) = k_create K (FD parent) name flag perm w1; w3 = k_close K (FD parent) w2
             in (case r of
                   Inl ELOOP \<Rightarrow> Inl (wrap_err (clean path) \<lparr>err_is = ErrSymlink, err_msg = ''refusing to follow a symbolic link''\<rparr>)
                 | Inl e \<Rightarrow> Inl (wrap_err (clean path) (sys_err e))
                 | Inr fd \<Rightarrow> Inr fd, w3)))"

subsection \<open>Walking a tree\<close>

record walk_result =
  Changed :: nat
  Unchanged :: nat
  SkippedSymlinks :: "string list"
  Errors :: "string list"

definition count_result :: "bool result \<Rightarrow> walk_result \<Rightarrow> walk_result" where
  "count_result r res =
     (case r of
        Inl e \<Rightarrow> res\<lparr>Errors := Errors res @ [e]\<rparr>
      | Inr True \<Rightarrow> res\<lparr>Changed := Changed res + 1\<rparr>
      | Inr False \<Rightarrow> res\<lparr>Unchanged := Unchanged res + 1\<rparr>)"

text \<open>
  The closure \<open>visit\<close> and its loop over the entries. The callback \<open>fn\<close> works on the machine and
  on state of its own, here \<open>'l\<close>. Fuel bounds the depth of the recursion and each directory's
  reads; \<open>None\<close> is its exhaustion.
\<close>

type_synonym ('w, 'l) walk_fn = "node \<Rightarrow> 'w \<times> 'l \<Rightarrow> bool result \<times> 'w \<times> 'l"

fun visit ::
  "nat \<Rightarrow> ('w, 'z) kernel_scheme \<Rightarrow> ('w, 'l) walk_fn \<Rightarrow> node \<Rightarrow> 'w \<times> 'l \<times> walk_result \<Rightarrow> ('w \<times> 'l \<times> walk_result) option"
  and visit_names ::
  "nat \<Rightarrow> ('w, 'z) kernel_scheme \<Rightarrow> ('w, 'l) walk_fn \<Rightarrow> node \<Rightarrow> string list \<Rightarrow> 'w \<times> 'l \<times> walk_result \<Rightarrow>
   ('w \<times> 'l \<times> walk_result) option" where
  "visit 0 K fn n s = None"
| "visit (Suc f) K fn n (w, l, res) =
     (let (r, w1, l1) = fn n (w, l); res1 = count_result r res in
      if \<not> IsDir n then Some (w1, l1, res1)
      else case Names f K n w1 of
        None \<Rightarrow> None
      | Some (Inl e, w2) \<Rightarrow> Some (w2, l1, res1\<lparr>Errors := Errors res1 @ [Path n @ '': '' @ err_msg e]\<rparr>)
      | Some (Inr names, w2) \<Rightarrow> visit_names f K fn n (sort names) (w2, l1, res1))"
| "visit_names f K fn n [] s = Some s"
| "visit_names f K fn n (name # names) (w, l, res) =
     (case Child K n name w of
        (Inl e, w1) \<Rightarrow>
          visit_names f K fn n names (w1, l,
            if err_is e = ErrSymlink then res\<lparr>SkippedSymlinks := SkippedSymlinks res @ [Path n @ ''/'' @ name]\<rparr>
            else res\<lparr>Errors := Errors res @ [err_msg e]\<rparr>)
      | (Inr child, w1) \<Rightarrow>
          (case visit f K fn child (w1, l, res) of
             None \<Rightarrow> None
           | Some (w2, l2, res2) \<Rightarrow> visit_names f K fn n names (k_close K (FD child) w2, l2, res2)))"

definition Walk ::
  "nat \<Rightarrow> ('w, 'z) kernel_scheme \<Rightarrow> ('w, 'l) walk_fn \<Rightarrow> node \<Rightarrow> 'w \<times> 'l \<Rightarrow> ('w \<times> 'l \<times> walk_result) option" where
  "Walk fuel K fn r s =
     visit fuel K fn r (fst s, snd s, \<lparr>Changed = 0, Unchanged = 0, SkippedSymlinks = [], Errors = []\<rparr>)"

subsection \<open>What the package relies on\<close>

text \<open>
  How the machine's state is read. \<open>fds\<close> gives the object behind each open descriptor of this
  process, \<open>ftype\<close> an object's type bits, \<open>entry\<close> what a directory's entry names at that moment,
  \<open>later\<close> the order of time, and \<open>touched\<close> the objects this process has changed so far.
\<close>

record ('w, 'o) fs_view =
  fds :: "'w \<Rightarrow> int \<Rightarrow> 'o option"
  ftype :: "'o \<Rightarrow> 32 word"
  entry :: "'w \<Rightarrow> 'o \<Rightarrow> string \<Rightarrow> 'o option"
  rootObj :: 'o
  later :: "'w \<Rightarrow> 'w \<Rightarrow> bool"
  touched :: "'w \<Rightarrow> 'o set"

text \<open>A call that changes nothing of this process's, one that opens a descriptor, and one that changes objects.\<close>

definition harmless :: "('w, 'o) fs_view \<Rightarrow> 'w \<Rightarrow> 'w \<Rightarrow> bool" where
  "harmless V w w' \<longleftrightarrow> later V w w' \<and> fds V w' = fds V w \<and> touched V w' = touched V w"

definition opens :: "('w, 'o) fs_view \<Rightarrow> 'w \<Rightarrow> int \<Rightarrow> 'o \<Rightarrow> 'w \<Rightarrow> bool" where
  "opens V w fd x w' \<longleftrightarrow>
     later V w w' \<and> fds V w fd = None \<and> fds V w' = (fds V w)(fd \<mapsto> x) \<and> touched V w' = touched V w"

definition changes_only :: "('w, 'o) fs_view \<Rightarrow> 'o set \<Rightarrow> 'w \<Rightarrow> 'w \<Rightarrow> bool" where
  "changes_only V xs w w' \<longleftrightarrow> later V w w' \<and> fds V w' = fds V w \<and> touched V w \<subseteq> touched V w' \<and> touched V w' \<subseteq> touched V w \<union> xs"

text \<open>At some moment of the call the entry named the object.\<close>

definition named_during :: "('w, 'o) fs_view \<Rightarrow> 'w \<Rightarrow> 'o \<Rightarrow> string \<Rightarrow> 'o \<Rightarrow> 'w \<Rightarrow> bool" where
  "named_during V w dir name x w' \<longleftrightarrow> (\<exists>w1. later V w w1 \<and> entry V w1 dir name = Some x \<and> later V w1 w')"

locale linux_fs =
  fixes K :: "('w, 'z) kernel_scheme" and V :: "('w, 'o) fs_view"
  assumes later_refl: "later V w w"
    and later_trans: "later V w1 w2 \<Longrightarrow> later V w2 w3 \<Longrightarrow> later V w1 w3"
    and root_dir: "ftype V (rootObj V) = S_IFDIR"
    and open_root: "k_open_root K w = (r, w') \<Longrightarrow>
      (case r of Inl _ \<Rightarrow> harmless V w w' | Inr fd \<Rightarrow> opens V w fd (rootObj V) w')"
    and openat: "plain_comp name \<Longrightarrow> k_openat K d name w = (r, w') \<Longrightarrow>
      (case r of Inl _ \<Rightarrow> harmless V w w'
       | Inr fd \<Rightarrow> \<exists>dir x. fds V w d = Some dir \<and> ftype V dir = S_IFDIR \<and> named_during V w dir name x w' \<and> opens V w fd x w')"
    and fstat: "k_fstat K fd w = (rs, w') \<Longrightarrow>
      harmless V w w' \<and> (\<forall>st. rs = Inr st \<longrightarrow> (\<exists>x. fds V w fd = Some x \<and> file_type st = ftype V x))"
    and close: "later V w (k_close K fd w) \<and> touched V (k_close K fd w) = touched V w \<and>
      fds V (k_close K fd w) = (fds V w)(fd := None)"
    and reopen: "k_reopen K fd flags w = (r, w') \<Longrightarrow>
      (case r of Inl _ \<Rightarrow> harmless V w w'
       | Inr fd' \<Rightarrow> \<exists>x. fds V w fd = Some x \<and> fds V w fd' = None \<and> fds V w' = (fds V w)(fd' \<mapsto> x) \<and> later V w w' \<and>
           touched V w \<subseteq> touched V w' \<and> touched V w' \<subseteq> touched V w \<union> (if O_TRUNC \<in> set flags then {x} else {}))"
    and getdents: "k_getdents K fd w = (rd, w') \<Longrightarrow>
      harmless V w w' \<and> (\<forall>ns. rd = Inr (Some ns) \<longrightarrow> (\<forall>x \<in> set ns. x \<noteq> [] \<and> CHR ''/'' \<notin> set x))"
    and chmod: "fds V w fd = Some x \<Longrightarrow> changes_only V {x} w (snd (k_chmod K fd mode w))"
    and fchownat: "fds V w fd = Some x \<Longrightarrow> changes_only V {x} w (snd (k_fchownat K fd uid gid w))"
    and mkdirat: "fds V w fd = Some x \<Longrightarrow> changes_only V {x} w (snd (k_mkdirat K fd name perm w))"
    and create: "plain_comp name \<Longrightarrow> k_create K d name flags perm w = (r, w') \<Longrightarrow> fds V w d = Some dir \<Longrightarrow>
      (case r of Inl _ \<Rightarrow> changes_only V {dir} w w'
       | Inr fd \<Rightarrow> \<exists>x. named_during V w dir name x w' \<and> ftype V dir = S_IFDIR \<and> ftype V x \<noteq> S_IFLNK \<and>
           fds V w fd = None \<and> fds V w' = (fds V w)(fd \<mapsto> x) \<and> later V w w' \<and>
           touched V w \<subseteq> touched V w' \<and> touched V w' \<subseteq> touched V w \<union> {dir, x})"

text \<open>
  The object \<open>b\<close> is reached from \<open>a\<close> over the entries \<open>cs\<close> in the order of time, each of
  them an entry of a real directory at the moment it was passed and none of them a symbolic link.
\<close>

inductive nofollow_path ::
  "('w, 'o) fs_view \<Rightarrow> 'w \<Rightarrow> 'o \<Rightarrow> string list \<Rightarrow> 'w \<Rightarrow> 'o \<Rightarrow> bool" for V w a where
  here: "later V w w' \<Longrightarrow> nofollow_path V w a [] w' a"
| into: "nofollow_path V w a cs w1 b \<Longrightarrow> ftype V b = S_IFDIR \<Longrightarrow> plain_comp name \<Longrightarrow> named_during V w1 b name c w2 \<Longrightarrow>
    ftype V c \<noteq> S_IFLNK \<Longrightarrow> nofollow_path V w a (cs @ [name]) w2 c"

text \<open>The node stands for an object reached without following a link, and is the only descriptor added.\<close>

definition holds_node ::
  "('w, 'o) fs_view \<Rightarrow> 'w \<Rightarrow> 'o \<Rightarrow> string list \<Rightarrow> (int \<Rightarrow> 'o option) \<Rightarrow> 'w \<Rightarrow> node \<Rightarrow> 'o \<Rightarrow> bool" where
  "holds_node V w a cs base w' n x \<longleftrightarrow>
     base (FD n) = None \<and> fds V w' = base(FD n \<mapsto> x) \<and> nofollow_path V w a cs w' x \<and>
     file_type (Stat n) = ftype V x \<and> ftype V x \<noteq> S_IFLNK"

text \<open>The objects met on the way along the entries \<open>cs\<close>, and those below where they lead.\<close>

definition along :: "('w, 'o) fs_view \<Rightarrow> 'w \<Rightarrow> 'o \<Rightarrow> string list \<Rightarrow> 'w \<Rightarrow> 'o set" where
  "along V w a cs w' = {x. \<exists>us vs. cs = us @ vs \<and> nofollow_path V w a us w' x}"

definition below :: "('w, 'o) fs_view \<Rightarrow> 'w \<Rightarrow> 'o \<Rightarrow> string list \<Rightarrow> 'w \<Rightarrow> 'o set" where
  "below V w a cs w' = {x. \<exists>vs. nofollow_path V w a (cs @ vs) w' x}"

subsection \<open>Splitting off the last component\<close>

lemma path_comps_trailing: "path_comps (p @ ''/'') = path_comps p" if "p \<noteq> []"
proof -
  have "split_on CHR ''/'' (q @ ''/'') = split_on CHR ''/'' q @ [[]]" for q
    by (induction q) (auto split: list.splits)
  moreover have "is_rooted (p @ ''/'') = is_rooted p" using that by (cases p) (simp_all add: is_rooted_def has_prefix_def)
  ultimately show ?thesis by (simp add: path_comps_def clean_comps_def)
qed

lemma split_path_at: "CHR ''/'' \<notin> set name \<Longrightarrow> split_path (d @ ''/'' @ name) = (d @ ''/'', name)"
  by (simp add: split_path_def Let_def takeWhile_append)

lemma split_path_clean:
  assumes "is_rooted path" and "split_path (clean path) = (d, name)" and "name \<noteq> []"
  shows "is_rooted d \<and> path_comps path = path_comps d @ [name] \<and> plain_comp name"
proof -
  let ?cs = "path_comps path"
  have c: "clean path = CHR ''/'' # join_with ''/'' ?cs" using assms(1) by (rule clean_rooted_eq)
  have ne: "?cs \<noteq> []"
  proof
    assume "?cs = []"
    then have "split_path (clean path) = (''/'', [])" using c by (simp add: split_path_def)
    then show False using assms by simp
  qed
  define bs b where "bs = butlast ?cs" and "b = last ?cs"
  have cs: "?cs = bs @ [b]" using ne by (simp add: bs_def b_def)
  have pl: "\<forall>c \<in> set (bs @ [b]). plain_comp c" using path_comps_plain [OF assms(1)] cs by auto
  then have nb: "CHR ''/'' \<notin> set b" by (simp add: plain_comp_def)
  show ?thesis
  proof (cases "bs = []")
    case True
    then have "clean path = [] @ ''/'' @ b" using c cs by simp
    then have "d = ''/''" "name = b" using split_path_at [OF nb, of "[]"] assms(2) by simp_all
    then show ?thesis using cs pl True by (simp add: path_comps_def clean_comps_def)
  next
    case False
    then have "clean path = (CHR ''/'' # join_with ''/'' bs) @ ''/'' @ b" using c cs by (simp add: join_with_append)
    then have d: "d = (CHR ''/'' # join_with ''/'' bs) @ ''/''" "name = b"
      using split_path_at [OF nb, of "CHR ''/'' # join_with ''/'' bs"] assms(2) by simp_all
    have "path_comps d = bs" unfolding d by (subst path_comps_trailing) (use pl path_comps_render in auto)
    then show ?thesis using cs pl d by simp
  qed
qed

lemma foldl_clean_slash_free:
  assumes "\<forall>x \<in> set st. x \<noteq> [] \<and> CHR ''/'' \<notin> set x" and "\<forall>x \<in> set ps. CHR ''/'' \<notin> set x"
  shows "\<forall>x \<in> set (foldl (clean_step r) st ps). x \<noteq> [] \<and> CHR ''/'' \<notin> set x"
  using assms
proof (induction ps arbitrary: st)
  case (Cons q ps)
  have "\<forall>x \<in> set (clean_step r st q). x \<noteq> [] \<and> CHR ''/'' \<notin> set x"
    using Cons.prems by (cases st) auto
  from Cons.IH [OF this] show ?case using Cons.prems(2) by (simp del: clean_step.simps)
qed simp

lemma path_comps_slash_free: "c \<in> set (path_comps p) \<Longrightarrow> c \<noteq> [] \<and> CHR ''/'' \<notin> set c"
proof -
  have n: "\<forall>x \<in> set (split_on CHR ''/'' p). CHR ''/'' \<notin> set x" using split_on_no_sep by blast
  assume "c \<in> set (path_comps p)"
  then show ?thesis using foldl_clean_slash_free [OF _ n, of "[]" "is_rooted p"] unfolding path_comps_def clean_comps_def by simp
qed

lemma rooted_of_clean: "is_rooted (clean path) \<Longrightarrow> is_rooted path"
proof (rule ccontr)
  assume r: "is_rooted (clean path)" and n: "\<not> is_rooted path"
  show False
  proof (cases "path_comps path")
    case Nil
    then show ?thesis using r n by (simp add: clean_def render_path_def is_rooted_def has_prefix_def)
  next
    case (Cons c cs)
    then have c: "c \<noteq> []" "CHR ''/'' \<notin> set c" using path_comps_slash_free [of c path] by simp_all
    have "\<exists>t. clean path = c @ t" using n Cons by (cases cs) (simp_all add: clean_def render_path_def)
    then show ?thesis using r c by (cases c) (auto simp: is_rooted_def has_prefix_def)
  qed
qed

lemma split_path_rooted: "split_path (clean path) = (d, name) \<Longrightarrow> is_rooted d \<Longrightarrow> is_rooted path"
proof -
  assume s: "split_path (clean path) = (d, name)" "is_rooted d"
  then have "prefix d (clean path)" by (auto simp: split_path_def Let_def take_is_prefix)
  then have "is_rooted (clean path)" using s(2) prefix_order.trans unfolding is_rooted_def has_prefix_prefix by blast
  then show "is_rooted path" by (rule rooted_of_clean)
qed

subsection \<open>Opening follows no link\<close>

context linux_fs
begin

lemma nofollow_later: "nofollow_path V w a cs w1 b \<Longrightarrow> later V w1 w2 \<Longrightarrow> nofollow_path V w a cs w2 b"
proof (induction arbitrary: w2 rule: nofollow_path.induct)
  case (here w')
  then show ?case using later_trans nofollow_path.here by metis
next
  case (into cs w1 b name c w3)
  from into.hyps(4) obtain t where t: "later V w1 t" "entry V t b name = Some c" "later V t w3"
    by (auto simp: named_during_def)
  then have "named_during V w1 b name c w2" unfolding named_during_def using later_trans into.prems by blast
  then show ?case using into.hyps by (intro nofollow_path.into)
qed

lemma nofollow_time: "nofollow_path V w a cs w1 b \<Longrightarrow> later V w w1"
proof (induction rule: nofollow_path.induct)
  case (into cs w1 b name c w2)
  then obtain t where "later V w1 t" "later V t w2" by (auto simp: named_during_def)
  then show ?case using into.IH later_trans by blast
qed

lemma close_simps [simp]:
  "later V w (k_close K fd w)" "touched V (k_close K fd w) = touched V w"
  "fds V (k_close K fd w) = (fds V w)(fd := None)"
  using close by auto

lemma fs_stat_spec:
  assumes "fs_stat K fd p w = (r, w')" and "fds V w fd = Some x"
  shows "later V w w' \<and> touched V w' = touched V w \<and>
    (case r of Inl _ \<Rightarrow> fds V w' = (fds V w)(fd := None)
     | Inr n \<Rightarrow> fds V w' = fds V w \<and> FD n = fd \<and> Path n = p \<and> file_type (Stat n) = ftype V x \<and> ftype V x \<noteq> S_IFLNK)"
proof -
  obtain rs w1 where k: "k_fstat K fd w = (rs, w1)" by fastforce
  note f = fstat [OF k]
  have l: "later V w (k_close K fd w1)" using f later_trans [OF _ close_simps(1)] by (simp add: harmless_def)
  show ?thesis
  proof (cases rs)
    case (Inl e)
    then have e: "w' = k_close K fd w1" "\<exists>e'. r = Inl e'" using assms(1) by (auto simp: fs_stat_def k)
    then show ?thesis using f l by (auto simp: harmless_def)
  next
    case (Inr st)
    then have x: "file_type st = ftype V x" using f assms(2) by auto
    show ?thesis
    proof (cases "ftype V x = S_IFLNK")
      case True
      then have e: "w' = k_close K fd w1" "\<exists>e'. r = Inl e'" using assms(1) Inr x by (auto simp: fs_stat_def k)
      then show ?thesis using f l by (auto simp: harmless_def)
    next
      case False
      then have "r = Inr \<lparr>FD = fd, Stat = st, Path = p\<rparr>" "w' = w1" using assms(1) Inr x by (simp_all add: fs_stat_def k)
      then show ?thesis using f x False by (auto simp: harmless_def)
    qed
  qed
qed

lemma Child_spec:
  assumes "Child K n name w = (r, w')" and "plain_comp name" and "holds_node V w0 a cs base w n x"
  shows "later V w w' \<and> touched V w' = touched V w \<and>
    (case r of Inl _ \<Rightarrow> fds V w' = fds V w
     | Inr c \<Rightarrow> Path c = join_path (Path n) name \<and> ftype V x = S_IFDIR \<and>
         (\<exists>y. holds_node V w0 a (cs @ [name]) (fds V w) w' c y \<and> named_during V w x name y w'))"
proof -
  obtain ro w1 where k: "k_openat K (FD n) name w = (ro, w1)" by fastforce
  note o = openat [OF assms(2) k]
  show ?thesis
  proof (cases ro)
    case (Inl e)
    then show ?thesis using assms(1) k o by (auto simp: Child_def harmless_def)
  next
    case (Inr fd)
    then obtain y where y: "ftype V x = S_IFDIR" "named_during V w x name y w1" "opens V w fd y w1"
      using o assms(3) by (auto simp: holds_node_def)
    have s: "fs_stat K fd (join_path (Path n) name) w1 = (r, w')" using assms(1) Inr k by (simp add: Child_def)
    have fd: "fds V w1 fd = Some y" using y(3) by (simp add: opens_def)
    note st = fs_stat_spec [OF s fd]
    have "nofollow_path V w0 a (cs @ [name]) w1 y" if "ftype V y \<noteq> S_IFLNK"
      using assms(3) y assms(2) that by (auto simp: holds_node_def intro: nofollow_path.into)
    moreover have "later V w w'" using st y(3) later_trans unfolding opens_def by blast
    moreover have "named_during V w x name y w'" using y(2) st later_trans [of _ w1 w'] by (auto simp: named_during_def)
    moreover have "\<exists>z. holds_node V w0 a (cs @ [name]) (fds V w) w' c z \<and> named_during V w x name z w'" if "r = Inr c" for c
      using that st y(3) calculation(1,3) nofollow_later by (intro exI [of _ y]) (auto simp: opens_def holds_node_def)
    ultimately show ?thesis using st y by (auto simp: opens_def split: sum.splits)
  qed
qed

lemma open_loop_spec:
  assumes "open_loop K d before cs w = (r, w')" and "cs \<noteq> []" and "\<forall>c \<in> set cs. plain_comp c"
    and "fds V w d = Some x" and "nofollow_path V w0 a before w x"
  shows "later V w w' \<and> touched V w' = touched V w \<and>
    (case r of Inl _ \<Rightarrow> fds V w' = (fds V w)(d := None)
     | Inr n \<Rightarrow> Path n = ''/'' @ join_with ''/'' (before @ cs) \<and>
         (\<exists>y. holds_node V w0 a (before @ cs) ((fds V w)(d := None)) w' n y))"
  using assms
proof (induction cs arbitrary: d before w x)
  case (Cons name rest)
  have pl: "plain_comp name" using Cons.prems by simp
  define p where "p = ''/'' @ join_with ''/'' (before @ [name])"
  obtain ro w1 where k: "k_openat K d name w = (ro, w1)" by fastforce
  note o = openat [OF pl k]
  define w2 where "w2 = k_close K d w1"
  show ?case
  proof (cases ro)
    case (Inl e)
    then show ?thesis using Cons.prems k o later_trans [OF _ close_simps(1)] by (auto simp: harmless_def)
  next
    case (Inr fd)
    then obtain y where y: "ftype V x = S_IFDIR" "named_during V w x name y w1" "opens V w fd y w1"
      using o Cons.prems(4) by auto
    have fd: "fd \<noteq> d" "fds V w2 = (fds V w)(d := None, fd \<mapsto> y)" "fds V w2 fd = Some y" "touched V w2 = touched V w"
      "later V w w2" "later V w1 w2"
      using y(3) Cons.prems(4) later_trans [OF _ close_simps(1)] by (auto simp: opens_def w2_def fun_eq_iff)
    obtain rs w3 where s: "fs_stat K fd p w2 = (rs, w3)" by fastforce
    note st = fs_stat_spec [OF s fd(3)]
    have t: "later V w w3" using fd(5) st later_trans by blast
    have pt: "nofollow_path V w0 a (before @ [name]) w3 y" if "ftype V y \<noteq> S_IFLNK"
      using nofollow_path.into [OF Cons.prems(5) y(1) pl y(2) that] fd(6) st nofollow_later by blast
    show ?thesis
    proof (cases rs)
      case (Inl e)
      then show ?thesis using Cons.prems(1) k Inr s st t fd y(3) by (auto simp: p_def w2_def opens_def fun_eq_iff)
    next
      case n: (Inr n)
      then have n1: "FD n = fd" "Path n = p" "file_type (Stat n) = ftype V y" "ftype V y \<noteq> S_IFLNK" "fds V w3 = fds V w2"
        "touched V w3 = touched V w"
        using st fd by auto
      consider "rest = []" | "rest \<noteq> []" "\<not> IsDir n" | "rest \<noteq> []" "IsDir n" by blast
      then show ?thesis
      proof cases
        case 1
        then have e: "r = Inr n" "w' = w3" using Cons.prems(1) k Inr s n by (simp_all add: p_def w2_def)
        have "holds_node V w0 a (before @ [name]) ((fds V w)(d := None)) w3 n y"
          using n1 fd pt y(3) by (simp add: holds_node_def opens_def)
        then show ?thesis using e t n1 1 by (auto simp: p_def)
      next
        case 2
        then show ?thesis using Cons.prems(1) k Inr s n n1 later_trans [OF t close_simps(1)] fd y(3)
          by (auto simp: p_def w2_def opens_def fun_eq_iff)
      next
        case 3
        have l: "open_loop K fd (before @ [name]) rest w3 = (r, w')" using Cons.prems(1) k Inr s n 3 by (simp add: p_def w2_def)
        have f3: "fds V w3 fd = Some y" using n1 fd by simp
        have pr: "\<forall>c \<in> set rest. plain_comp c" using Cons.prems by simp
        have b: "(fds V w3)(fd := None) = (fds V w)(d := None)" using n1(5) fd y(3) by (auto simp: opens_def)
        note ih = Cons.IH [OF l 3(1) pr f3 pt [OF n1(4)], unfolded b]
        have "later V w w'" using later_trans [OF t] ih by blast
        then show ?thesis using ih n1(6) by (cases r) simp_all
      qed
    qed
  qed
qed simp

lemma holds_root:
  assumes "k_open_root K w = (Inr fd, w1)" and "fs_stat K fd p w1 = (r, w')"
  shows "later V w w' \<and> touched V w' = touched V w \<and>
    (case r of Inl _ \<Rightarrow> fds V w' = fds V w
     | Inr n \<Rightarrow> Path n = p \<and> FD n = fd \<and> holds_node V w (rootObj V) [] (fds V w) w' n (rootObj V))"
proof -
  have o: "opens V w fd (rootObj V) w1" using open_root [OF assms(1)] by simp
  then have fd: "fds V w1 fd = Some (rootObj V)" by (simp add: opens_def)
  note st = fs_stat_spec [OF assms(2) fd]
  have "later V w w'" using st o later_trans [of w w1 w'] by (simp add: opens_def)
  moreover from this have "nofollow_path V w (rootObj V) [] w' (rootObj V)" by (rule nofollow_path.here)
  ultimately show ?thesis using st o by (cases r) (auto simp: opens_def holds_node_def fun_eq_iff)
qed

lemma path_parts:
  assumes "has_prefix path ''/''" and "clean path \<noteq> ''/''"
  shows "split_on CHR ''/'' (trim_prefix (clean path) ''/'') = path_comps path" "path_comps path \<noteq> []"
    "\<forall>c \<in> set (path_comps path). plain_comp c" "''/'' @ join_with ''/'' (path_comps path) = clean path"
proof -
  have r: "is_rooted path" using assms by (simp add: is_rooted_def)
  then have c: "clean path = ''/'' @ join_with ''/'' (path_comps path)" by (simp add: clean_rooted_eq)
  then show ne: "path_comps path \<noteq> []" using assms(2) by auto
  show pl: "\<forall>c \<in> set (path_comps path). plain_comp c" using path_comps_plain [OF r] by blast
  show "''/'' @ join_with ''/'' (path_comps path) = clean path" using c by simp
  have "trim_prefix (clean path) ''/'' = join_with ''/'' (path_comps path)" by (simp only: c trim_prefix_append)
  then show "split_on CHR ''/'' (trim_prefix (clean path) ''/'') = path_comps path"
    using ne pl by (simp add: split_on_join plain_comp_def)
qed

lemma clean_root: "has_prefix path ''/'' \<Longrightarrow> clean path = ''/'' \<Longrightarrow> path_comps path = []"
  using path_comps_clean [of path] by (simp add: is_rooted_def) (metis path_comps_render empty_iff list.set(1) join_with.simps(1))

lemma Open_spec:
  assumes "Open K path w = (r, w')"
  shows "later V w w' \<and> touched V w' = touched V w \<and>
    (case r of Inl _ \<Rightarrow> fds V w' = fds V w
     | Inr n \<Rightarrow> is_rooted path \<and> Path n = clean path \<and> (\<exists>x. holds_node V w (rootObj V) (path_comps path) (fds V w) w' n x))"
proof (cases "has_prefix path ''/''")
  case False
  then show ?thesis using assms later_refl by (auto simp: Open_def)
next
  case True
  obtain ro w1 where k: "k_open_root K w = (ro, w1)" by fastforce
  note o = open_root [OF k]
  show ?thesis
  proof (cases ro)
    case (Inl e)
    then show ?thesis using assms True k o by (auto simp: Open_def harmless_def)
  next
    case (Inr fd)
    show ?thesis
    proof (cases "clean path = ''/''")
      case c: True
      have s: "fs_stat K fd (clean path) w1 = (r, w')" using assms True k Inr c by (simp add: Open_def)
      show ?thesis using holds_root [OF k [unfolded Inr] s] clean_root [OF True c] True
        by (cases r) (auto simp: is_rooted_def)
    next
      case c: False
      note pp = path_parts [OF True c]
      have l: "open_loop K fd [] (path_comps path) w1 = (r, w')" using assms True k Inr c pp(1) by (simp add: Open_def)
      have op: "opens V w fd (rootObj V) w1" using o Inr by simp
      then have f: "fds V w1 fd = Some (rootObj V)" "(fds V w1)(fd := None) = fds V w" "later V w w1" "touched V w1 = touched V w"
        by (auto simp: opens_def fun_eq_iff)
      have h: "nofollow_path V w (rootObj V) [] w1 (rootObj V)" using f(3) by (rule nofollow_path.here)
      note sp = open_loop_spec [OF l pp(2,3) f(1) h]
      have "later V w w'" using later_trans [OF f(3)] sp by blast
      then show ?thesis using sp f True pp(4) by (cases r) (auto simp: is_rooted_def)
    qed
  qed
qed

lemma OpenFile_spec:
  assumes "OpenFile K path flag w = (r, w')"
  shows "later V w w' \<and> touched V w \<subseteq> touched V w' \<and>
    (case r of Inl _ \<Rightarrow> fds V w' = fds V w \<and> touched V w' = touched V w
     | Inr fd \<Rightarrow> is_rooted path \<and> (\<exists>x. fds V w fd = None \<and> fds V w' = (fds V w)(fd \<mapsto> x) \<and>
         nofollow_path V w (rootObj V) (path_comps path) w' x \<and> ftype V x \<noteq> S_IFLNK \<and>
         touched V w' \<subseteq> touched V w \<union> (if O_TRUNC \<in> set flag then {x} else {})))"
proof -
  obtain ro w1 where o: "Open K path w = (ro, w1)" by fastforce
  note sp = Open_spec [OF o]
  show ?thesis
  proof (cases ro)
    case (Inl e)
    then show ?thesis using assms o sp by (auto simp: OpenFile_def)
  next
    case (Inr n)
    then obtain x where h: "holds_node V w (rootObj V) (path_comps path) (fds V w) w1 n x" and rt: "is_rooted path" using sp by auto
    have fx: "fds V w1 (FD n) = Some x" using h by (simp add: holds_node_def)
    obtain rr w2 where k: "k_reopen K (FD n) flag w1 = (rr, w2)" by fastforce
    have w': "w' = k_close K (FD n) w2" using assms o Inr k by (simp add: OpenFile_def Reopen_def split: sum.splits)
    note re = reopen [OF k]
    have l: "later V w w1" "later V w2 w'" using sp w' by auto
    show ?thesis
    proof (cases rr)
      case e: (Inl e)
      then have h1: "harmless V w1 w2" "\<exists>e'. r = Inl e'" using re assms o Inr k by (auto simp: OpenFile_def Reopen_def)
      then have "later V w w'" using l later_trans unfolding harmless_def by metis
      then show ?thesis using h1 h w' sp by (auto simp: harmless_def holds_node_def fun_eq_iff)
    next
      case f: (Inr fd)
      then have r: "r = Inr fd" "fds V w1 fd = None" "fds V w2 = (fds V w1)(fd \<mapsto> x)" "later V w1 w2"
        "touched V w1 \<subseteq> touched V w2" "touched V w2 \<subseteq> touched V w1 \<union> (if O_TRUNC \<in> set flag then {x} else {})"
        using re assms o Inr k fx by (auto simp: OpenFile_def Reopen_def)
      have t: "later V w1 w'" using later_trans [OF r(4) l(2)] .
      have "nofollow_path V w (rootObj V) (path_comps path) w' x" using nofollow_later [OF _ t] h by (simp add: holds_node_def)
      moreover have "fds V w fd = None" "fds V w' = (fds V w)(fd \<mapsto> x)"
        using r(2,3) h w' by (auto simp: holds_node_def fun_eq_iff split: if_splits)
      ultimately show ?thesis using r h w' sp rt later_trans [OF l(1) t] by (auto simp: holds_node_def split: if_splits)
    qed
  qed
qed

lemma along_later: "later V w1 w2 \<Longrightarrow> along V w a cs w1 \<subseteq> along V w a cs w2"
  unfolding along_def using nofollow_later by blast

lemma along_append: "along V w a cs w1 \<subseteq> along V w a (cs @ ds) w1"
  unfolding along_def by auto (metis append.assoc)

lemma child_or_mkdir_spec:
  assumes "child_or_mkdir K perm dir name w = (r, w')" and "plain_comp name" and "holds_node V w0 a cs base w dir x"
  shows "later V w w' \<and> touched V w \<subseteq> touched V w' \<and> touched V w' \<subseteq> touched V w \<union> {x} \<and>
    (case r of Inl _ \<Rightarrow> fds V w' = fds V w | Inr c \<Rightarrow> \<exists>y. holds_node V w0 a (cs @ [name]) (fds V w) w' c y)"
proof -
  obtain rc w1 where c: "Child K dir name w = (rc, w1)" by fastforce
  note sp = Child_spec [OF c assms(2,3)]
  consider "(r, w') = (rc, w1)"
    | "fds V w1 = fds V w" "\<exists>e. (r, w') = (Inl e, snd (k_mkdirat K (FD dir) name perm w1))"
    | "fds V w1 = fds V w" "(r, w') = Child K dir name (snd (k_mkdirat K (FD dir) name perm w1))"
  proof (cases rc)
    case (Inl e)
    then have f: "fds V w1 = fds V w" using sp by simp
    obtain me w2 where m: "k_mkdirat K (FD dir) name perm w1 = (me, w2)" by fastforce
    show ?thesis
    proof (cases "err_is e = Sys ENOENT")
      case True
      then show ?thesis
        using that(2,3) [OF f] assms(1) Inl by (cases me) (auto simp: child_or_mkdir_def c m split: if_splits)
    next
      case False
      then show ?thesis using that(1) assms(1) Inl by (simp add: child_or_mkdir_def c)
    qed
  next
    case (Inr n)
    then show ?thesis using that(1) assms(1) by (simp add: child_or_mkdir_def c)
  qed
  then show ?thesis
  proof cases
    case 1
    then show ?thesis using sp by (cases r) auto
  next
    case 2
    have "fds V w1 (FD dir) = Some x" using assms(3) 2(1) by (simp add: holds_node_def)
    from mkdirat [OF this, of name perm] show ?thesis using 2 sp later_trans [of w w1] by (auto simp: changes_only_def)
  next
    case 3
    have f: "fds V w1 (FD dir) = Some x" using assms(3) 3(1) by (simp add: holds_node_def)
    define w2 where "w2 = snd (k_mkdirat K (FD dir) name perm w1)"
    have m: "changes_only V {x} w1 w2" unfolding w2_def by (rule mkdirat [OF f])
    have l: "later V w w2" using m sp later_trans [of w w1] by (simp add: changes_only_def)
    have h: "holds_node V w0 a cs base w2 dir x" using assms(3) 3(1) m nofollow_later [OF _ l] by (simp add: holds_node_def changes_only_def)
    have "Child K dir name w2 = (r, w')" using 3(2) w2_def by simp
    from Child_spec [OF this assms(2) h] show ?thesis using m sp 3(1) later_trans [OF l]
      by (cases r) (auto simp: changes_only_def)
  qed
qed

lemma mkdir_loop_spec:
  assumes "mkdir_loop K perm dir cs w = (r, w')" and "\<forall>c \<in> set cs. plain_comp c" and "holds_node V w0 a before base w dir x"
    and "IsDir dir"
  shows "later V w w' \<and> touched V w \<subseteq> touched V w' \<and> touched V w' \<subseteq> touched V w \<union> along V w0 a (before @ cs) w' \<and>
    (case r of Inl _ \<Rightarrow> fds V w' = base | Inr n \<Rightarrow> IsDir n \<and> (\<exists>y. holds_node V w0 a (before @ cs) base w' n y))"
  using assms
proof (induction cs arbitrary: dir before w x)
  case Nil
  then show ?case using later_refl by auto
next
  case (Cons name rest)
  have pl: "plain_comp name" using Cons.prems by simp
  obtain rc w1 where c: "child_or_mkdir K perm dir name w = (rc, w1)" by fastforce
  note sp = child_or_mkdir_spec [OF c pl Cons.prems(3)]
  define w2 where "w2 = k_close K (FD dir) w1"
  have l: "later V w w2" "later V w1 w2" using sp later_trans [OF _ close_simps(1)] by (auto simp: w2_def)
  have b: "base (FD dir) = None" "fds V w = base(FD dir \<mapsto> x)" using Cons.prems(3) by (auto simp: holds_node_def)
  have "nofollow_path V w0 a before w2 x" using Cons.prems(3) nofollow_later [OF _ l(1)] by (simp add: holds_node_def)
  then have x: "x \<in> along V w0 a (before @ name # rest) w2" by (auto simp: along_def)
  have tch: "touched V w \<subseteq> touched V w2" "touched V w2 \<subseteq> touched V w \<union> {x}" using sp by (auto simp: w2_def)
  show ?case
  proof (cases rc)
    case (Inl e)
    then have "r = Inl e" "w' = w2" using Cons.prems(1) c by (simp_all add: w2_def)
    then show ?thesis using l tch x sp Inl b by (auto simp: w2_def fun_eq_iff)
  next
    case (Inr n)
    then obtain y where y: "holds_node V w0 a (before @ [name]) (fds V w) w1 n y" using sp by auto
    then have y2: "holds_node V w0 a (before @ [name]) base w2 n y"
      using b nofollow_later [OF _ l(2)] by (auto simp: holds_node_def w2_def fun_eq_iff split: if_splits)
    show ?thesis
    proof (cases "IsDir n")
      case False
      then have e: "\<exists>e. r = Inl e" "w' = k_close K (FD n) w2" using Cons.prems(1) c Inr by (auto simp: w2_def)
      have "later V w2 w'" using e by simp
      then have "x \<in> along V w0 a (before @ name # rest) w'" "later V w w'" using x along_later later_trans [OF l(1)] by blast+
      then show ?thesis using e tch y2 by (auto simp: holds_node_def fun_eq_iff)
    next
      case True
      have m: "mkdir_loop K perm n rest w2 = (r, w')" using Cons.prems(1) c Inr True by (simp add: w2_def)
      have pr: "\<forall>c \<in> set rest. plain_comp c" using Cons.prems by simp
      note ih = Cons.IH [OF m pr y2 True]
      have "x \<in> along V w0 a (before @ name # rest) w'" using x along_later ih by blast
      moreover have "later V w w'" using later_trans [OF l(1)] ih by blast
      ultimately show ?thesis using ih tch by (cases r) auto
    qed
  qed
qed

lemma MkdirAll_spec:
  assumes "MkdirAll K path perm w = (r, w')"
  shows "later V w w' \<and> touched V w \<subseteq> touched V w' \<and>
    touched V w' \<subseteq> touched V w \<union> along V w (rootObj V) (path_comps path) w' \<and>
    (case r of Inl _ \<Rightarrow> fds V w' = fds V w
     | Inr n \<Rightarrow> is_rooted path \<and> IsDir n \<and> (\<exists>x. holds_node V w (rootObj V) (path_comps path) (fds V w) w' n x))"
proof (cases "has_prefix path ''/''")
  case False
  then show ?thesis using assms later_refl by (auto simp: MkdirAll_def)
next
  case True
  obtain ro w1 where o: "Open K ''/'' w = (ro, w1)" by fastforce
  note sp = Open_spec [OF o]
  have c0: "path_comps ''/'' = []" by (simp add: path_comps_def clean_comps_def is_rooted_def has_prefix_def)
  show ?thesis
  proof (cases ro)
    case (Inl e)
    then show ?thesis using assms True o sp by (auto simp: MkdirAll_def)
  next
    case (Inr n)
    then obtain x where h: "holds_node V w (rootObj V) [] (fds V w) w1 n x" using sp c0 by auto
    then have "nofollow_path V w (rootObj V) [] w1 x" by (simp add: holds_node_def)
    then have "x = rootObj V" by (cases rule: nofollow_path.cases) auto
    then have d: "IsDir n" using h root_dir by (simp add: holds_node_def IsDir_def)
    show ?thesis
    proof (cases "clean path = ''/''")
      case c: True
      then show ?thesis using assms True o Inr sp h d clean_root [OF True c] by (auto simp: MkdirAll_def is_rooted_def)
    next
      case c: False
      note pp = path_parts [OF True c]
      have m: "mkdir_loop K perm n (path_comps path) w1 = (r, w')" using assms True o Inr c pp(1) by (simp add: MkdirAll_def)
      note ml = mkdir_loop_spec [OF m pp(3) h d]
      have "later V w w'" using later_trans [of w w1] sp ml by blast
      then show ?thesis using ml sp True by (cases r) (auto simp: is_rooted_def)
    qed
  qed
qed

lemma Names_spec:
  assumes "Names f K n w = Some (r, w')"
  shows "harmless V w w' \<and> (\<forall>ns. r = Inr ns \<longrightarrow> (\<forall>x \<in> set ns. plain_comp x))"
proof -
  have loop: "harmless V w w' \<and> (\<forall>ns. r = Inr ns \<longrightarrow> (\<forall>x \<in> set ns. plain_comp x))"
    if "names_loop f K fd acc w = Some (r, w')" and "\<forall>x \<in> set acc. plain_comp x" for f fd acc w r w'
    using that
  proof (induction f arbitrary: acc w)
    case (Suc f)
    obtain rd w1 where k: "k_getdents K fd w = (rd, w1)" by fastforce
    note g = getdents [OF k]
    show ?case
    proof (cases "\<exists>ns. rd = Inr (Some ns)")
      case True
      then obtain ns where ns: "rd = Inr (Some ns)" by blast
      let ?acc = "acc @ filter (\<lambda>x. x \<noteq> ''.'' \<and> x \<noteq> ''..'') ns"
      have l: "names_loop f K fd ?acc w1 = Some (r, w')" using Suc.prems(1) k ns by simp
      have "\<forall>x \<in> set ?acc. plain_comp x" using Suc.prems(2) g ns by (auto simp: plain_comp_def)
      from Suc.IH [OF l this] show ?thesis using g later_trans by (auto simp: harmless_def)
    next
      case False
      then show ?thesis using Suc.prems k g by (auto split: sum.splits option.splits)
    qed
  qed simp
  obtain ro w1 where k: "k_reopen K (FD n) [O_RDONLY, O_DIRECTORY] w = (ro, w1)" by fastforce
  note re = reopen [OF k]
  show ?thesis
  proof (cases ro)
    case (Inl e)
    then show ?thesis using assms k re by (auto simp: Names_def)
  next
    case (Inr fd)
    then obtain w2 where l: "names_loop f K fd [] w1 = Some (r, w2)" "w' = k_close K fd w2"
      using assms k by (auto simp: Names_def)
    from re Inr have o: "fds V w fd = None" "\<exists>x. fds V w1 = (fds V w)(fd \<mapsto> x)" "later V w w1" "touched V w1 = touched V w" by auto
    have h: "harmless V w1 w2 \<and> (\<forall>ns. r = Inr ns \<longrightarrow> (\<forall>x \<in> set ns. plain_comp x))" using loop [OF l(1)] by simp
    then have "later V w w'" using o(3) later_trans close_simps(1) l(2) unfolding harmless_def by metis
    then show ?thesis using h o l(2) by (auto simp: harmless_def fun_eq_iff)
  qed
qed

lemma CreateFile_spec:
  assumes "CreateFile K path flag perm mkdirs w = (r, w')"
  shows "later V w w' \<and> touched V w \<subseteq> touched V w' \<and>
    touched V w' \<subseteq> touched V w \<union> along V w (rootObj V) (path_comps path) w' \<and>
    (case r of Inl _ \<Rightarrow> fds V w' = fds V w
     | Inr fd \<Rightarrow> is_rooted path \<and> (\<exists>x. fds V w fd = None \<and> fds V w' = (fds V w)(fd \<mapsto> x) \<and>
         nofollow_path V w (rootObj V) (path_comps path) w' x \<and> ftype V x \<noteq> S_IFLNK))"
proof -
  obtain d name where sp: "split_path (clean path) = (d, name)" by fastforce
  obtain ro w1 where o: "(if mkdirs then MkdirAll K d 0x1ED w else Open K d w) = (ro, w1)" by fastforce
  consider "name = []" | "name \<noteq> []" "\<not> is_rooted d" | "name \<noteq> []" "is_rooted path" using split_path_rooted [OF sp] by blast
  then show ?thesis
  proof cases
    case 1
    then show ?thesis using assms sp later_refl by (auto simp: CreateFile_def)
  next
    case 2
    then have "\<exists>e. r = Inl e" "w' = w" using assms sp by (auto simp: CreateFile_def MkdirAll_def Open_def is_rooted_def split: if_splits)
    then show ?thesis using later_refl by auto
  next
    case 3
    note sc = split_path_clean [OF 3(2) sp 3(1)]
    have p: "later V w w1 \<and> touched V w \<subseteq> touched V w1 \<and> touched V w1 \<subseteq> touched V w \<union> along V w (rootObj V) (path_comps d) w1 \<and>
      (case ro of Inl _ \<Rightarrow> fds V w1 = fds V w
       | Inr n \<Rightarrow> \<exists>x. holds_node V w (rootObj V) (path_comps d) (fds V w) w1 n x)"
      using o MkdirAll_spec [of d "0x1ED" w ro w1] Open_spec [of d w ro w1] by (cases ro) (auto split: if_splits)
    have al: "along V w (rootObj V) (path_comps d) w1 \<subseteq> along V w (rootObj V) (path_comps path) w'" if "later V w1 w'"
      using sc along_append along_later [OF that] by (metis subset_trans)
    show ?thesis
    proof (cases ro)
      case (Inl e)
      then have "r = Inl e" "w' = w1" using assms sp o 3 by (auto simp: CreateFile_def)
      then show ?thesis using p al later_refl Inl by auto
    next
      case (Inr n)
      then obtain x where h: "holds_node V w (rootObj V) (path_comps d) (fds V w) w1 n x" using p by auto
      then have fx: "fds V w1 (FD n) = Some x" "fds V w (FD n) = None" "fds V w1 = (fds V w)(FD n \<mapsto> x)"
        "nofollow_path V w (rootObj V) (path_comps d) w1 x"
        by (auto simp: holds_node_def)
      obtain rk w2 where k: "k_create K (FD n) name flag perm w1 = (rk, w2)" by fastforce
      show ?thesis
      proof (cases "IsDir n")
        case False
        then have w: "w' = k_close K (FD n) w1" "\<exists>e. r = Inl e" using assms sp o 3 Inr by (auto simp: CreateFile_def)
        then show ?thesis using p al later_trans [of w w1 w'] fx by (auto simp: fun_eq_iff)
      next
        case True
        have e: "w' = k_close K (FD n) w2" "(\<exists>e. rk = Inl e) \<and> (\<exists>e. r = Inl e) \<or> (\<exists>fd. rk = Inr fd \<and> r = Inr fd)"
          using assms sp o 3 Inr True k by (auto simp: CreateFile_def split: sum.splits errno.splits)
        note cr = create [OF _ k fx(1)]
        have l: "later V w1 w2" "later V w2 w'" using cr sc e(1) by (auto simp: changes_only_def split: sum.splits)
        then have lt: "later V w1 w'" "later V w w'" using later_trans p by blast+
        have "nofollow_path V w (rootObj V) (path_comps d) w' x" using nofollow_later [OF fx(4) lt(1)] .
        then have xa: "x \<in> along V w (rootObj V) (path_comps path) w'" using sc by (auto simp: along_def)
        show ?thesis
        proof (cases rk)
          case (Inl e')
          then have "changes_only V {x} w1 w2" using cr sc by simp
          then show ?thesis using e Inl p al [OF lt(1)] lt xa fx by (auto simp: changes_only_def fun_eq_iff)
        next
          case fd: (Inr fd)
          then obtain y where y: "named_during V w1 x name y w2" "ftype V x = S_IFDIR" "ftype V y \<noteq> S_IFLNK" "fds V w1 fd = None"
            "fds V w2 = (fds V w1)(fd \<mapsto> y)" "touched V w1 \<subseteq> touched V w2" "touched V w2 \<subseteq> touched V w1 \<union> {x, y}"
            using cr sc by auto
          have "nofollow_path V w (rootObj V) (path_comps path) w2 y"
            using nofollow_path.into [OF fx(4) y(2) _ y(1,3)] sc by simp
          then have np: "nofollow_path V w (rootObj V) (path_comps path) w' y" using nofollow_later l(2) by blast
          then have ya: "y \<in> along V w (rootObj V) (path_comps path) w'" by (auto simp: along_def)
          have "fds V w fd = None" "fds V w' = (fds V w)(fd \<mapsto> y)" using y(4,5) fx e(1) by (auto simp: fun_eq_iff split: if_splits)
          then show ?thesis using e fd np y 3(2) lt xa ya p al [OF lt(1)] by auto
        qed
      qed
    qed
  qed
qed

lemma below_later: "later V w1 w2 \<Longrightarrow> below V w a cs w1 \<subseteq> below V w a cs w2"
  unfolding below_def using nofollow_later by blast

lemma below_append: "below V w a (cs @ ds) w1 \<subseteq> below V w a cs w1"
  unfolding below_def by auto

lemma holds_node_later:
  "holds_node V w0 a cs base w n x \<Longrightarrow> later V w w' \<Longrightarrow> fds V w' = fds V w \<Longrightarrow> holds_node V w0 a cs base w' n x"
  by (auto simp: holds_node_def intro: nofollow_later)

lemma holds_node_below: "holds_node V w0 a cs base w n x \<Longrightarrow> x \<in> below V w0 a cs w"
  by (auto simp: holds_node_def below_def intro!: exI [of _ "[]"])

end

text \<open>A callback that only changes the object it was given.\<close>

definition changes_its_node :: "('w, 'o) fs_view \<Rightarrow> ('w, 'l) walk_fn \<Rightarrow> bool" where
  "changes_its_node V fn \<longleftrightarrow>
     (\<forall>n w l x. fds V w (FD n) = Some x \<longrightarrow> changes_only V {x} w (fst (snd (fn n (w, l)))))"

context linux_fs
begin

lemma changes_only_trans:
  assumes "changes_only V (below V w0 a cs w2) w1 w2" and "changes_only V (below V w0 a cs w3) w2 w3"
  shows "changes_only V (below V w0 a cs w3) w1 w3"
proof -
  have "later V w1 w3" "below V w0 a cs w2 \<subseteq> below V w0 a cs w3"
    using assms later_trans [of w1 w2 w3] below_later [of w2 w3 w0 a cs] by (simp_all add: changes_only_def)
  then show ?thesis using assms by (auto simp: changes_only_def)
qed

lemma visit_names_confined:
  assumes ih: "\<And>c s s' cs base x. visit f K fn c s = Some s' \<Longrightarrow> holds_node V w0 a cs base (fst s) c x \<Longrightarrow>
      changes_only V (below V w0 a cs (fst s')) (fst s) (fst s')"
    and "visit_names f K fn n names s = Some s'" and "holds_node V w0 a cs base (fst s) n x" and "\<forall>c \<in> set names. plain_comp c"
  shows "changes_only V (below V w0 a cs (fst s')) (fst s) (fst s')"
  using assms(2-)
proof (induction names arbitrary: s)
  case Nil
  then show ?case using later_refl by (simp add: changes_only_def)
next
  case (Cons name names)
  obtain w l res where s: "s = (w, l, res)" by (cases s)
  obtain rc w1 where c: "Child K n name w = (rc, w1)" by fastforce
  have pl: "plain_comp name" "\<forall>c \<in> set names. plain_comp c" using Cons.prems by simp_all
  have h: "holds_node V w0 a cs base w n x" using Cons.prems(2) s by simp
  note sp = Child_spec [OF c pl(1) h]
  show ?case
  proof (cases rc)
    case (Inl e)
    then obtain res1 where v: "visit_names f K fn n names (w1, l, res1) = Some s'" using Cons.prems(1) s c by auto
    have f: "fds V w1 = fds V w" "later V w w1" "touched V w1 = touched V w" using sp Inl by auto
    have "changes_only V (below V w0 a cs (fst s')) w1 (fst s')"
      using Cons.IH [OF v] holds_node_later [OF h f(2,1)] pl(2) by simp
    then show ?thesis using f s later_trans [OF f(2)] by (simp add: changes_only_def)
  next
    case (Inr child)
    then obtain y where y: "holds_node V w0 a (cs @ [name]) (fds V w) w1 child y" using sp by auto
    obtain w2 l2 res2 where v: "visit f K fn child (w1, l, res) = Some (w2, l2, res2)"
      "visit_names f K fn n names (k_close K (FD child) w2, l2, res2) = Some s'"
      using Cons.prems(1) s c Inr by (auto split: option.splits)
    define w3 where "w3 = k_close K (FD child) w2"
    have ch: "changes_only V (below V w0 a (cs @ [name]) w2) w1 w2" using ih [OF v(1)] y by simp
    then have t: "later V w w2" using later_trans [of w w1 w2] sp by (simp add: changes_only_def)
    have f: "fds V w3 = fds V w" "later V w2 w3"
      using y ch by (auto simp: changes_only_def holds_node_def w3_def fun_eq_iff)
    have g: "later V w w3" using later_trans [OF t f(2)] .
    have "below V w0 a (cs @ [name]) w2 \<subseteq> below V w0 a cs w3" using below_append below_later [OF f(2)] by blast
    then have "changes_only V (below V w0 a cs w3) w w3" using f g ch sp by (auto simp: changes_only_def w3_def)
    moreover have "changes_only V (below V w0 a cs (fst s')) w3 (fst s')"
      using Cons.IH [OF v(2)] holds_node_later [OF h g f(1)] pl(2) by (simp add: w3_def)
    ultimately show ?thesis using changes_only_trans s by simp
  qed
qed

lemma visit_confined:
  assumes fn: "changes_its_node V fn"
  shows "visit f K fn n s = Some s' \<Longrightarrow> holds_node V w0 a cs base (fst s) n x \<Longrightarrow>
      changes_only V (below V w0 a cs (fst s')) (fst s) (fst s')"
proof (induction f arbitrary: n s s' cs base x)
  case (Suc f)
  obtain w l res where s: "s = (w, l, res)" by (cases s)
  obtain r w1 l1 where a: "fn n (w, l) = (r, w1, l1)" by (cases "fn n (w, l)") auto
  have h: "holds_node V w0 a cs base w n x" using Suc.prems(2) s by simp
  then have x: "fds V w (FD n) = Some x" by (simp add: holds_node_def)
  then have ch: "changes_only V {x} w w1" using fn a unfolding changes_its_node_def by (metis fst_conv snd_conv)
  then have l: "later V w w1" "fds V w1 = fds V w" by (simp_all add: changes_only_def)
  have h1: "holds_node V w0 a cs base w1 n x" using holds_node_later [OF h l] .
  have c1: "changes_only V (below V w0 a cs w1) w w1" using ch holds_node_below [OF h1] by (auto simp: changes_only_def)
  show ?case
  proof (cases "IsDir n")
    case False
    then show ?thesis using Suc.prems(1) s a c1 by auto
  next
    case True
    then obtain rn w2 where nm: "Names f K n w1 = Some (rn, w2)"
      using Suc.prems(1) s a by (cases "Names f K n w1") auto
    note sp = Names_spec [OF nm]
    have f: "later V w1 w2" "fds V w2 = fds V w1" "touched V w2 = touched V w1" using sp by (auto simp: harmless_def)
    have c2: "changes_only V (below V w0 a cs w2) w w2"
      using c1 f later_trans [OF l(1) f(1)] below_later [OF f(1)] unfolding changes_only_def by fastforce
    show ?thesis
    proof (cases rn)
      case (Inl e)
      then show ?thesis using Suc.prems(1) s a True nm c2 by (auto simp: Let_def)
    next
      case (Inr names)
      then have v: "visit_names f K fn n (sort names) (w2, l1, count_result r res) = Some s'"
        using Suc.prems(1) s a True nm by simp
      have "\<forall>c \<in> set (sort names). plain_comp c" using sp Inr by simp
      from visit_names_confined [OF Suc.IH v _ this] have "changes_only V (below V w0 a cs (fst s')) w2 (fst s')"
        using holds_node_later [OF h1 f(1,2)] by simp
      then show ?thesis using changes_only_trans [OF c2] s by simp
    qed
  qed
qed simp

lemma Walk_confined:
  assumes "changes_its_node V fn" and "Walk f K fn n (w, l) = Some (w', l', res)" and "holds_node V w0 a cs base w n x"
  shows "changes_only V (below V w0 a cs w') w w'"
  using visit_confined [OF assms(1) assms(2) [unfolded Walk_def]] assms(3) by simp

end

subsection \<open>Walks that end\<close>

text \<open>
  A tree of bounded depth whose directories deliver their entries in at most \<open>D\<close> reads: every
  directory entry that is itself a directory is lower than the one it is in.
\<close>

locale bounded_fs = linux_fs K V
  for K :: "('w, 'z) kernel_scheme" and V :: "('w, 'o) fs_view" +
  fixes height :: "'o \<Rightarrow> nat" and dents :: "'w \<Rightarrow> int \<Rightarrow> nat" and D :: nat
  assumes lower: "plain_comp name \<Longrightarrow> entry V w dir name = Some x \<Longrightarrow> ftype V x = S_IFDIR \<Longrightarrow> height x < height dir"
    and progress: "k_getdents K fd w = (Inr (Some ns), w') \<Longrightarrow> dents w' fd < dents w fd"
    and reads: "k_reopen K fd flags w = (Inr fd', w') \<Longrightarrow> dents w' fd' \<le> D"
begin

lemma names_loop_ends: "dents w fd < f \<Longrightarrow> names_loop f K fd acc w \<noteq> None"
proof (induction f arbitrary: acc w)
  case (Suc f)
  obtain rd w1 where k: "k_getdents K fd w = (rd, w1)" by fastforce
  show ?case
  proof (cases "\<exists>ns. rd = Inr (Some ns)")
    case True
    then obtain ns where ns: "rd = Inr (Some ns)" by blast
    then have "dents w1 fd < dents w fd" using progress k by simp
    then show ?thesis using Suc.IH [of w1] Suc.prems k ns by simp
  next
    case False
    then show ?thesis using k by (auto split: sum.splits option.splits)
  qed
qed simp

lemma Names_ends: "D < f \<Longrightarrow> Names f K n w \<noteq> None"
proof -
  assume D: "D < f"
  obtain ro w1 where k: "k_reopen K (FD n) [O_RDONLY, O_DIRECTORY] w = (ro, w1)" by fastforce
  have "names_loop f K fd [] w1 \<noteq> None" if "ro = Inr fd" for fd
    using names_loop_ends [OF le_less_trans [OF reads D]] k that by simp
  then show ?thesis using k by (cases ro) (simp_all add: Names_def)
qed

lemma visit_names_ends:
  assumes ih: "\<And>c s cs base y. holds_node V w0 a cs base (fst s) c y \<Longrightarrow> IsDir c \<Longrightarrow> height y < height x \<Longrightarrow> visit f K fn c s \<noteq> None"
    and f: "0 < f" and fn: "changes_its_node V fn"
    and "holds_node V w0 a cs base (fst s) n x" and "\<forall>c \<in> set names. plain_comp c"
  shows "visit_names f K fn n names s \<noteq> None"
  using assms(4-)
proof (induction names arbitrary: s)
  case (Cons name names)
  obtain w l res where s: "s = (w, l, res)" by (cases s)
  obtain rc w1 where c: "Child K n name w = (rc, w1)" by fastforce
  have pl: "plain_comp name" "\<forall>c \<in> set names. plain_comp c" using Cons.prems by simp_all
  have h: "holds_node V w0 a cs base w n x" using Cons.prems(1) s by simp
  note sp = Child_spec [OF c pl(1) h]
  show ?case
  proof (cases rc)
    case (Inl e)
    have h1: "holds_node V w0 a cs base w1 n x" using holds_node_later [OF h] sp Inl by simp
    show ?thesis using Cons.IH [of "(w1, l, if err_is e = ErrSymlink then res\<lparr>SkippedSymlinks := SkippedSymlinks res @ [Path n @ ''/'' @ name]\<rparr>
        else res\<lparr>Errors := Errors res @ [err_msg e]\<rparr>)"] h1 pl(2) s c Inl by simp
  next
    case (Inr child)
    then obtain y where y: "holds_node V w0 a (cs @ [name]) (fds V w) w1 child y" and nd: "named_during V w x name y w1" using sp by auto
    have "visit f K fn child (w1, l, res) \<noteq> None"
    proof (cases "IsDir child")
      case True
      then have "ftype V y = S_IFDIR" using y by (simp add: holds_node_def IsDir_def)
      then have "height y < height x" using nd lower [OF pl(1)] by (auto simp: named_during_def)
      then show ?thesis using ih [OF _ True, where s = "(w1, l, res)"] y by simp
    next
      case False
      obtain f' where "f = Suc f'" using f by (cases f) auto
      then show ?thesis using False by (cases "fn child (w1, l)") simp
    qed
    then obtain w2 l2 res2 where v: "visit f K fn child (w1, l, res) = Some (w2, l2, res2)" by (cases "visit f K fn child (w1, l, res)") auto
    have ch: "changes_only V (below V w0 a (cs @ [name]) w2) w1 w2" using visit_confined [OF fn v] y by simp
    define w3 where "w3 = k_close K (FD child) w2"
    have f3: "fds V w3 = fds V w" "later V w2 w3" using y ch by (auto simp: changes_only_def holds_node_def w3_def fun_eq_iff)
    have "later V w w3" using later_trans [OF later_trans f3(2), of w w1] sp ch by (simp add: changes_only_def)
    then have "holds_node V w0 a cs base w3 n x" using holds_node_later [OF h _ f3(1)] by simp
    then show ?thesis using Cons.IH [of "(w3, l2, res2)"] pl(2) s c Inr v by (simp add: w3_def)
  qed
qed simp

lemma visit_ends:
  assumes fn: "changes_its_node V fn"
  shows "height x + D + 2 \<le> f \<Longrightarrow> holds_node V w0 a cs base (fst s) n x \<Longrightarrow> visit f K fn n s \<noteq> None"
proof (induction f arbitrary: n s cs base x)
  case (Suc f)
  obtain w l res where s: "s = (w, l, res)" by (cases s)
  obtain r w1 l1 where a: "fn n (w, l) = (r, w1, l1)" by (cases "fn n (w, l)") auto
  have h: "holds_node V w0 a cs base w n x" using Suc.prems(2) s by simp
  then have "fds V w (FD n) = Some x" by (simp add: holds_node_def)
  then have "changes_only V {x} w w1" using fn a unfolding changes_its_node_def by (metis fst_conv snd_conv)
  then have h1: "holds_node V w0 a cs base w1 n x" using holds_node_later [OF h] by (simp add: changes_only_def)
  show ?case
  proof (cases "IsDir n")
    case False
    then show ?thesis using s a by simp
  next
    case True
    obtain rn w2 where nm: "Names f K n w1 = Some (rn, w2)" using Names_ends [of f n w1] Suc.prems(1) by auto
    note sp = Names_spec [OF nm]
    show ?thesis
    proof (cases rn)
      case (Inl e)
      then show ?thesis using s a True nm by (simp add: Let_def)
    next
      case (Inr names)
      have h2: "holds_node V w0 a cs base w2 n x" using holds_node_later [OF h1] sp by (simp add: harmless_def)
      have "visit_names f K fn n (sort names) (w2, l1, count_result r res) \<noteq> None"
      proof (rule visit_names_ends [OF _ _ fn])
        show "visit f K fn c s \<noteq> None" if "holds_node V w0 a cs base (fst s) c y" "IsDir c" "height y < height x" for c s cs base y
          using Suc.IH [OF _ that(1)] that(3) Suc.prems(1) by simp
        show "\<forall>c \<in> set (sort names). plain_comp c" using sp Inr by simp
      qed (use Suc.prems(1) h2 in auto)
      then show ?thesis using s a True nm Inr by simp
    qed
  qed
qed simp

lemma height_path: "nofollow_path V w a cs w1 x \<Longrightarrow> ftype V x = S_IFDIR \<Longrightarrow> height x \<le> height a"
proof (induction rule: nofollow_path.induct)
  case (into cs w1 b name c w2)
  then have "height c < height b" using lower by (auto simp: named_during_def)
  then show ?case using into by simp
qed simp

lemma Walk_ends:
  assumes "changes_its_node V fn" and "holds_node V w0 (rootObj V) cs base (fst s) n x" and "height (rootObj V) + D + 2 \<le> f"
  shows "Walk f K fn n s \<noteq> None"
proof (cases "IsDir n")
  case True
  then have "height x \<le> height (rootObj V)" using assms(2) height_path by (auto simp: holds_node_def IsDir_def)
  then show ?thesis using visit_ends [OF assms(1), of x f] assms(2,3) unfolding Walk_def by simp
next
  case False
  obtain f' where "f = Suc f'" using assms(3) by (cases f) auto
  then show ?thesis using False by (cases "fn n s") (simp add: Walk_def)
qed

end

end
