(* ===== verification/MemFs.thy ===== *)
theory MemFs
  imports Fsafe
begin

text \<open>
  A machine to run the file tools on: an executable file system in memory with the system calls of
  \<open>Fsafe.kernel\<close>, in which another process interferes. It carries a script of directory-entry
  changes, and each call of the worker is followed by the next change, so that a directory can be
  swapped for a symbolic link between any two calls. It fulfils the contracts \<open>linux_fs\<close> and
  \<open>bounded_fs\<close>, which shows that these can hold, and the concrete runs of the tools are
  evaluated on it.
\<close>

unbundle bit_operations_syntax

text \<open>An object: a bound on the depth of the tree below it, a number, and its type bits.\<close>

type_synonym obj = "nat \<times> nat \<times> 32 word"

record mem =
  m_entries :: "((obj \<times> string) \<times> obj) list"
  m_modes :: "(obj \<times> 32 word) list"
  m_owners :: "(obj \<times> 32 word \<times> 32 word) list"
  m_fds :: "(int \<times> obj) list"
  m_read :: "int list"
  m_touched :: "obj list"
  m_data :: "(obj \<times> string) list"
  m_pos :: "(int \<times> nat) list"
  m_links :: "(obj \<times> obj) list"
  m_clock :: nat
  m_script :: "((obj \<times> string) \<times> obj) list"

definition m_type :: "obj \<Rightarrow> 32 word" where
  "m_type x = snd (snd x) AND S_IFMT"

definition m_root :: obj where
  "m_root = (16, 0, S_IFDIR)"

definition m_lookup :: "mem \<Rightarrow> obj \<Rightarrow> string \<Rightarrow> obj option" where
  "m_lookup w dir name =
     (case map_of (m_entries w) (dir, name) of
        Some x \<Rightarrow> if fst x < fst dir then Some x else None
      | None \<Rightarrow> None)"

text \<open>The end of a call: the other process makes its next change.\<close>

definition tick :: "mem \<Rightarrow> mem" where
  "tick w =
     (case m_script w of
        [] \<Rightarrow> w\<lparr>m_clock := m_clock w + 1\<rparr>
      | (k, x) # rest \<Rightarrow> w\<lparr>m_clock := m_clock w + 1, m_script := rest, m_entries := map_put k x (m_entries w)\<rparr>)"

definition fresh_fd :: "mem \<Rightarrow> int" where
  "fresh_fd w = 1 + fold max (map fst (m_fds w)) 2"

definition alloc_fd :: "obj \<Rightarrow> mem \<Rightarrow> int \<times> mem" where
  "alloc_fd x w =
     (let fd = fresh_fd w
      in (fd, w\<lparr>m_fds := (fd, x) # m_fds w, m_read := filter (\<lambda>d. d \<noteq> fd) (m_read w)\<rparr>))"

definition ret_fd :: "obj \<Rightarrow> mem \<Rightarrow> (errno + int) \<times> mem" where
  "ret_fd x w = (let (fd, w1) = alloc_fd x w in (Inr fd, tick w1))"

definition m_openat :: "int \<Rightarrow> string \<Rightarrow> mem \<Rightarrow> (errno + int) \<times> mem" where
  "m_openat d name w =
     (case map_of (m_fds w) d of
        None \<Rightarrow> (Inl (OtherErrno ''bad file descriptor''), tick w)
      | Some dir \<Rightarrow>
          if m_type dir \<noteq> S_IFDIR then (Inl (OtherErrno ''not a directory''), tick w)
          else case m_lookup w dir name of
                 None \<Rightarrow> (Inl ENOENT, tick w)
               | Some x \<Rightarrow> ret_fd x w)"

definition m_fstat :: "int \<Rightarrow> mem \<Rightarrow> (errno + stat_t) \<times> mem" where
  "m_fstat fd w =
     (case map_of (m_fds w) fd of
        None \<Rightarrow> (Inl (OtherErrno ''bad file descriptor''), tick w)
      | Some x \<Rightarrow>
          (let (u, g) = (case map_of (m_owners w) x of Some o1 \<Rightarrow> o1 | None \<Rightarrow> (0, 0));
               m = (case map_of (m_modes w) x of Some m \<Rightarrow> m | None \<Rightarrow> 0x1A4)
           in (Inr \<lparr>st_mode = m_type x OR (m AND 0xFFF), st_uid = u, st_gid = g\<rparr>, tick w)))"

definition m_close :: "int \<Rightarrow> mem \<Rightarrow> mem" where
  "m_close fd w = tick (w\<lparr>m_fds := map_del fd (m_fds w)\<rparr>)"

definition m_reopen :: "int \<Rightarrow> oflag list \<Rightarrow> mem \<Rightarrow> (errno + int) \<times> mem" where
  "m_reopen fd flags w =
     (case map_of (m_fds w) fd of
        None \<Rightarrow> (Inl ENOENT, tick w)
      | Some x \<Rightarrow> ret_fd x (if O_TRUNC \<in> set flags then w\<lparr>m_touched := x # m_touched w\<rparr> else w))"

definition m_getdents :: "int \<Rightarrow> mem \<Rightarrow> (errno + string list option) \<times> mem" where
  "m_getdents fd w =
     (case map_of (m_fds w) fd of
        None \<Rightarrow> (Inl (OtherErrno ''bad file descriptor''), tick w)
      | Some x \<Rightarrow>
          if fd \<in> set (m_read w) then (Inr None, tick w)
          else (Inr (Some (filter (\<lambda>n. n \<noteq> [] \<and> CHR ''/'' \<notin> set n)
                  (map (snd \<circ> fst) (filter (\<lambda>e. fst (fst e) = x) (m_entries w))))),
                tick (w\<lparr>m_read := fd # m_read w\<rparr>)))"

definition m_chmod :: "int \<Rightarrow> 32 word \<Rightarrow> mem \<Rightarrow> errno option \<times> mem" where
  "m_chmod fd mode w =
     (case map_of (m_fds w) fd of
        None \<Rightarrow> (Some ENOENT, tick w)
      | Some x \<Rightarrow> (None, tick (w\<lparr>m_modes := map_put x mode (m_modes w), m_touched := x # m_touched w\<rparr>)))"

definition m_fchownat :: "int \<Rightarrow> int \<Rightarrow> int \<Rightarrow> mem \<Rightarrow> errno option \<times> mem" where
  "m_fchownat fd uid gid w =
     (case map_of (m_fds w) fd of
        None \<Rightarrow> (Some (OtherErrno ''bad file descriptor''), tick w)
      | Some x \<Rightarrow>
          (let (u, g) = (case map_of (m_owners w) x of Some o1 \<Rightarrow> o1 | None \<Rightarrow> (0, 0));
               u1 = (if word_of_int uid = (- 1 :: 32 word) then u else word_of_int uid);
               g1 = (if word_of_int gid = (- 1 :: 32 word) then g else word_of_int gid)
           in (None, tick (w\<lparr>m_owners := map_put x (u1, g1) (m_owners w), m_touched := x # m_touched w\<rparr>))))"

definition new_entry :: "obj \<Rightarrow> string \<Rightarrow> 32 word \<Rightarrow> 32 word \<Rightarrow> mem \<Rightarrow> obj \<times> mem" where
  "new_entry dir name ty mode w =
     (let x = (fst dir - 1, 1 + length (m_entries w), ty)
      in (x, w\<lparr>m_entries := map_put (dir, name) x (m_entries w), m_modes := map_put x mode (m_modes w),
              m_touched := dir # m_touched w\<rparr>))"

definition m_mkdirat :: "int \<Rightarrow> string \<Rightarrow> 32 word \<Rightarrow> mem \<Rightarrow> errno option \<times> mem" where
  "m_mkdirat fd name perm w =
     (case map_of (m_fds w) fd of
        None \<Rightarrow> (Some (OtherErrno ''bad file descriptor''), tick w)
      | Some dir \<Rightarrow>
          if m_type dir \<noteq> S_IFDIR then (Some (OtherErrno ''not a directory''), tick w)
          else if m_lookup w dir name \<noteq> None then (Some EEXIST, tick w)
          else if fst dir = 0 then (Some (OtherErrno ''no space left on device''), tick w)
          else (None, tick (snd (new_entry dir name S_IFDIR perm w))))"

definition m_create :: "int \<Rightarrow> string \<Rightarrow> oflag list \<Rightarrow> 32 word \<Rightarrow> mem \<Rightarrow> (errno + int) \<times> mem" where
  "m_create d name flags perm w =
     (case map_of (m_fds w) d of
        None \<Rightarrow> (Inl (OtherErrno ''bad file descriptor''), tick w)
      | Some dir \<Rightarrow>
          if m_type dir \<noteq> S_IFDIR then (Inl (OtherErrno ''not a directory''), tick w)
          else case m_lookup w dir name of
                 Some x \<Rightarrow>
                   if m_type x = S_IFLNK then (Inl ELOOP, tick w)
                   else ret_fd x (if O_TRUNC \<in> set flags then w\<lparr>m_touched := x # m_touched w\<rparr> else w)
               | None \<Rightarrow>
                   if O_CREATE \<notin> set flags then (Inl ENOENT, tick w)
                   else if fst dir = 0 then (Inl (OtherErrno ''no space left on device''), tick w)
                   else (let (x, w1) = new_entry dir name S_IFREG perm w in ret_fd x w1))"

definition mem_kernel :: "mem kernel" where
  "mem_kernel =
     \<lparr>k_open_root = ret_fd m_root, k_openat = m_openat, k_fstat = m_fstat, k_close = m_close, k_reopen = m_reopen,
      k_getdents = m_getdents, k_chmod = m_chmod, k_fchownat = m_fchownat, k_mkdirat = m_mkdirat, k_create = m_create\<rparr>"

definition mem_view :: "(mem, obj) fs_view" where
  "mem_view =
     \<lparr>fds = map_of \<circ> m_fds, ftype = m_type, entry = m_lookup, rootObj = m_root,
      later = (\<lambda>w w'. m_clock w \<le> m_clock w'), touched = set \<circ> m_touched\<rparr>"

subsection \<open>It keeps the contracts\<close>

lemma mem_view_simps [simp]:
  "fds mem_view = map_of \<circ> m_fds" "ftype mem_view = m_type" "entry mem_view = m_lookup" "rootObj mem_view = m_root"
  "later mem_view w w' \<longleftrightarrow> m_clock w \<le> m_clock w'" "touched mem_view = set \<circ> m_touched"
  by (simp_all add: mem_view_def)

lemma tick_simps [simp]:
  "m_fds (tick w) = m_fds w" "m_touched (tick w) = m_touched w" "m_clock (tick w) = Suc (m_clock w)"
  "m_read (tick w) = m_read w" "m_modes (tick w) = m_modes w" "m_owners (tick w) = m_owners w"
  by (auto simp: tick_def split: list.splits)

lemma type_bits: "(m_type x OR (m AND 0xFFF)) AND S_IFMT = m_type x"
proof -
  have "(m AND 0xFFF) AND S_IFMT = 0" for m :: "32 word"
    by (simp add: S_IFMT_def and.assoc)
  then show ?thesis by (simp add: m_type_def bit.conj_disj_distrib2 and.assoc)
qed

lemma fresh_fd_fresh: "map_of (m_fds w) (fresh_fd w) = None"
proof -
  have "fresh_fd w = 1 + Max (set (2 # map fst (m_fds w)))" by (simp add: fresh_fd_def Max.set_eq_fold del: set_simps)
  moreover have "d \<le> Max (set (2 # map fst (m_fds w)))" if "d \<in> fst ` set (m_fds w)" for d
    using that by (intro Max_ge) auto
  ultimately have "d < fresh_fd w" if "d \<in> fst ` set (m_fds w)" for d using that by fastforce
  then have "fresh_fd w \<notin> fst ` set (m_fds w)" by blast
  then show ?thesis by (simp add: map_of_eq_None_iff)
qed

lemma ret_fd_spec:
  assumes "ret_fd x w = (r, w')"
  shows "\<exists>fd. r = Inr fd \<and> map_of (m_fds w) fd = None \<and> map_of (m_fds w') = (map_of (m_fds w))(fd \<mapsto> x) \<and>
    m_touched w' = m_touched w \<and> m_clock w' = Suc (m_clock w) \<and> fd \<notin> set (m_read w')"
  using assms fresh_fd_fresh [of w] by (auto simp: ret_fd_def alloc_fd_def Let_def)

lemma new_entry_spec:
  assumes "new_entry dir name ty mode w = (x, w1)" and "0 < fst dir"
  shows "m_lookup w1 dir name = Some x \<and> snd (snd x) = ty \<and> m_fds w1 = m_fds w \<and> m_clock w1 = m_clock w \<and>
    m_touched w1 = dir # m_touched w"
  using assms by (auto simp: new_entry_def m_lookup_def Let_def)

lemma named_now:
  "m_lookup w1 dir name = Some x \<Longrightarrow> m_clock w \<le> m_clock w1 \<Longrightarrow> m_clock w1 \<le> m_clock w' \<Longrightarrow> named_during mem_view w dir name x w'"
  by (auto simp: named_during_def)

lemma mem_openat:
  assumes "m_openat d name w = (r, w')"
  shows "case r of Inl _ \<Rightarrow> harmless mem_view w w'
    | Inr fd \<Rightarrow> \<exists>dir x. map_of (m_fds w) d = Some dir \<and> m_type dir = S_IFDIR \<and> named_during mem_view w dir name x w' \<and>
        opens mem_view w fd x w'"
proof (cases "\<exists>dir x. map_of (m_fds w) d = Some dir \<and> m_type dir = S_IFDIR \<and> m_lookup w dir name = Some x")
  case True
  then obtain dir x where x: "map_of (m_fds w) d = Some dir" "m_type dir = S_IFDIR" "m_lookup w dir name = Some x" by blast
  then have "ret_fd x w = (r, w')" using assms by (simp add: m_openat_def)
  then obtain fd where r: "r = Inr fd" "opens mem_view w fd x w'" using ret_fd_spec [of x w r w'] by (auto simp: opens_def)
  then have "named_during mem_view w dir name x w'" using x(3) by (intro named_now [of w]) (simp_all add: opens_def)
  then show ?thesis using x r by (simp del: split_paired_Ex) blast
next
  case False
  then have "w' = tick w \<and> (\<exists>e. r = Inl e)" using assms by (auto simp: m_openat_def split: option.splits if_splits)
  then show ?thesis by (auto simp: harmless_def)
qed

lemma mem_reopen:
  assumes "m_reopen fd flags w = (r, w')"
  shows "case r of Inl _ \<Rightarrow> harmless mem_view w w'
    | Inr fd' \<Rightarrow> \<exists>x. map_of (m_fds w) fd = Some x \<and> map_of (m_fds w) fd' = None \<and> map_of (m_fds w') = (map_of (m_fds w))(fd' \<mapsto> x) \<and>
        m_clock w \<le> m_clock w' \<and> set (m_touched w) \<subseteq> set (m_touched w') \<and>
        set (m_touched w') \<subseteq> set (m_touched w) \<union> (if O_TRUNC \<in> set flags then {x} else {})"
proof (cases "map_of (m_fds w) fd")
  case None
  then show ?thesis using assms by (auto simp: m_reopen_def harmless_def)
next
  case (Some x)
  then have "ret_fd x (if O_TRUNC \<in> set flags then w\<lparr>m_touched := x # m_touched w\<rparr> else w) = (r, w')"
    using assms by (simp add: m_reopen_def)
  from ret_fd_spec [OF this] show ?thesis using Some by (auto split: if_splits)
qed

lemma mem_create:
  assumes "m_create d name flags perm w = (r, w')" and "map_of (m_fds w) d = Some dir"
  shows "case r of Inl _ \<Rightarrow> changes_only mem_view {dir} w w'
    | Inr fd \<Rightarrow> \<exists>x. named_during mem_view w dir name x w' \<and> m_type dir = S_IFDIR \<and> m_type x \<noteq> S_IFLNK \<and>
        map_of (m_fds w) fd = None \<and> map_of (m_fds w') = (map_of (m_fds w))(fd \<mapsto> x) \<and> m_clock w \<le> m_clock w' \<and>
        set (m_touched w) \<subseteq> set (m_touched w') \<and> set (m_touched w') \<subseteq> set (m_touched w) \<union> {dir, x}"
proof -
  consider (refused) e where "r = Inl e" "w' = tick w"
    | (existing) x where "m_lookup w dir name = Some x" "m_type dir = S_IFDIR" "m_type x \<noteq> S_IFLNK"
        "ret_fd x (if O_TRUNC \<in> set flags then w\<lparr>m_touched := x # m_touched w\<rparr> else w) = (r, w')"
    | (made) x w1 where "m_type dir = S_IFDIR" "0 < fst dir" "new_entry dir name S_IFREG perm w = (x, w1)" "ret_fd x w1 = (r, w')"
    using assms by (auto simp: m_create_def split: option.splits if_splits prod.splits)
  then show ?thesis
  proof cases
    case refused
    then show ?thesis by (auto simp: changes_only_def)
  next
    case existing
    from ret_fd_spec [OF existing(4)] obtain fd where r: "r = Inr fd" "map_of (m_fds w) fd = None"
      "map_of (m_fds w') = (map_of (m_fds w))(fd \<mapsto> x)" "m_clock w' = Suc (m_clock w)"
      "m_touched w' = (if O_TRUNC \<in> set flags then x # m_touched w else m_touched w)"
      by (auto split: if_splits)
    have tc: "set (m_touched w) \<subseteq> set (m_touched w')" "set (m_touched w') \<subseteq> set (m_touched w) \<union> {dir, x}" using r(5) by auto
    have "named_during mem_view w dir name x w'" using existing(1) r(4) by (intro named_now [of w]) simp_all
    then show ?thesis using r(1-4) tc existing(2,3) by (simp del: split_paired_Ex) blast
  next
    case made
    note n = new_entry_spec [OF made(3,2)]
    have t: "m_type x \<noteq> S_IFLNK" using n by (simp add: m_type_def S_IFREG_def S_IFMT_def S_IFLNK_def)
    from ret_fd_spec [OF made(4)] obtain fd where r: "r = Inr fd" "map_of (m_fds w) fd = None"
      "map_of (m_fds w') = (map_of (m_fds w))(fd \<mapsto> x)" "m_clock w' = Suc (m_clock w)" "m_touched w' = dir # m_touched w"
      using n by auto
    have "named_during mem_view w dir name x w'" using n r(4) by (intro named_now [of w1]) simp_all
    moreover have "set (m_touched w) \<subseteq> set (m_touched w')" "set (m_touched w') \<subseteq> set (m_touched w) \<union> {dir, x}" using r(5) by auto
    ultimately show ?thesis using r(1-4) t made(1) by (simp del: split_paired_Ex) blast
  qed
qed

lemma mem_mkdirat:
  assumes "map_of (m_fds w) fd = Some x"
  shows "changes_only mem_view {x} w (snd (m_mkdirat fd name perm w))"
  using assms by (auto simp: m_mkdirat_def changes_only_def new_entry_def Let_def)

lemma mem_fstat:
  assumes "m_fstat fd w = (r, w')"
  shows "harmless mem_view w w' \<and> (\<forall>st. r = Inr st \<longrightarrow> (\<exists>x. map_of (m_fds w) fd = Some x \<and> file_type st = m_type x))"
proof (cases "map_of (m_fds w) fd")
  case None
  then show ?thesis using assms by (auto simp: m_fstat_def harmless_def)
next
  case (Some x)
  then obtain m u g where "r = Inr \<lparr>st_mode = m_type x OR (m AND 0xFFF), st_uid = u, st_gid = g\<rparr>" "w' = tick w"
    using assms unfolding m_fstat_def by (simp add: split_beta Let_def) blast
  then show ?thesis using Some type_bits by (simp add: harmless_def file_type_def)
qed

lemma mem_getdents:
  assumes "m_getdents fd w = (r, w')"
  shows "harmless mem_view w w' \<and> (\<forall>ns. r = Inr (Some ns) \<longrightarrow> (\<forall>x \<in> set ns. x \<noteq> [] \<and> CHR ''/'' \<notin> set x) \<and>
    fd \<notin> set (m_read w) \<and> fd \<in> set (m_read w'))"
  using assms by (auto simp: m_getdents_def harmless_def split: option.splits if_splits)

interpretation mem: bounded_fs mem_kernel mem_view fst "\<lambda>w fd. if fd \<in> set (m_read w) then 0 else 1" 1
proof (unfold_locales, goal_cases)
  case (4 w r w')
  then have "ret_fd m_root w = (r, w')" by (simp add: mem_kernel_def)
  from ret_fd_spec [OF this] show ?case by (auto simp: opens_def)
next
  case (5 name d w r w')
  then show ?case using mem_openat [of d name w r w'] by (cases r) (auto simp: mem_kernel_def)
next
  case (6 fd w rs w')
  then show ?case using mem_fstat [of fd w rs w'] by (simp add: mem_kernel_def)
next
  case (7 w fd)
  then show ?case by (simp add: mem_kernel_def m_close_def)
next
  case (8 fd flags w r w')
  then show ?case using mem_reopen [of fd flags w r w'] by (cases r) (auto simp: mem_kernel_def)
next
  case (9 fd w rd w')
  then show ?case using mem_getdents [of fd w rd w'] by (auto simp: mem_kernel_def)
next
  case (10 w fd x mode)
  then show ?case by (auto simp: mem_kernel_def m_chmod_def changes_only_def)
next
  case (11 w fd x uid gid)
  then show ?case by (auto simp: mem_kernel_def m_fchownat_def changes_only_def Let_def split_beta)
next
  case (12 w fd x name perm)
  then show ?case using mem_mkdirat by (simp add: mem_kernel_def)
next
  case (13 name d flags perm w r w' dir)
  then show ?case using mem_create [of d name flags perm w r w' dir] by (cases r) (simp_all add: mem_kernel_def)
next
  case (14 name w dir x)
  then show ?case by (auto simp: m_lookup_def split: option.splits if_splits)
next
  case (15 fd w ns w')
  then show ?case using mem_getdents [of fd w "Inr (Some ns)" w'] by (simp add: mem_kernel_def)
next
  case (16 fd flags w fd' w')
  then show ?case by simp
qed (simp_all add: m_root_def m_type_def S_IFDIR_def S_IFMT_def)

subsection \<open>An example\<close>

text \<open>
  A tree with a directory \<open>/srv\<close> holding a file, a link and a directory, which another process
  replaces by the link while the walk is under way.
\<close>

definition ex_srv :: obj where "ex_srv = (15, 1, S_IFDIR)"

definition ex_file :: obj where "ex_file = (14, 2, S_IFREG)"

definition ex_link :: obj where "ex_link = (14, 3, S_IFLNK)"

definition ex_sub :: obj where "ex_sub = (14, 4, S_IFDIR)"

definition ex_mem :: mem where
  "ex_mem = \<lparr>m_entries = [((m_root, ''srv''), ex_srv), ((ex_srv, ''a''), ex_file), ((ex_srv, ''l''), ex_link), ((ex_srv, ''sub''), ex_sub)],
     m_modes = [], m_owners = [], m_fds = [], m_read = [], m_touched = [], m_data = [], m_pos = [], m_links = [], m_clock = 0,
     m_script = [((ex_srv, ''sub''), ex_link)]\<rparr>"

end
