(* ===== verification/FileChmod.thy ===== *)
theory FileChmod
  imports MemFs GoJson
begin

text \<open>
  The tool \<open>files/chmod\<close> (\<^verbatim>\<open>internal/tools/files/chmod/chmod.go\<close>): octal and symbolic modes
  on the 32-bit words of the kernel, the report, and the change itself on a single object or a tree. The
  lemmas bound what a mode can produce, show which bits a specification can reach, and that a directory
  keeps its setuid and setgid bits unless they are named.
\<close>

unbundle bit_operations_syntax

subsection \<open>Arguments\<close>

record chmod_args =
  ch_Path :: string
  ch_Mode :: string
  ch_Recursive :: bool

definition chmod_fields :: "string list" where
  "chmod_fields = [''path'', ''mode'', ''recursive'', ''privileged'']"

text \<open>\<open>Mode.UnmarshalJSON\<close>: a string, or a number whose digits are taken as typed; \<open>null\<close> gives the empty mode.\<close>

definition mode_value :: "json \<Rightarrow> string result" where
  "mode_value v =
     (case v of
        JStr s \<Rightarrow> Inr s
      | JNull \<Rightarrow> Inr []
      | JNum m e \<Rightarrow> Inr (num_text m e)
      | _ \<Rightarrow> Inl ''mode must be a string or a number'')"

definition chmod_parse :: "json option \<Rightarrow> chmod_args result" where
  "chmod_parse raw =
     (let v = (case raw of None \<Rightarrow> JNull | Some v \<Rightarrow> v); fv = (\<lambda>f. field_vals chmod_fields f v) in
      if raw \<noteq> None \<and> is_structdoc v \<and> list_all is_str (fv ''path'') \<and> list_all (\<lambda>x. \<not> isl (mode_value x)) (fv ''mode'') \<and>
         list_all is_bool (fv ''recursive'') \<and> list_all is_bool (fv ''privileged'')
      then Inr \<lparr>ch_Path = dec_string [] (fv ''path''),
                ch_Mode = foldl (\<lambda>a x. case mode_value x of Inr s \<Rightarrow> s | Inl _ \<Rightarrow> a) [] (fv ''mode''),
                ch_Recursive = dec_bool False (fv ''recursive'')\<rparr>
      else Inl ''invalid arguments'')"

subsection \<open>Modes\<close>

definition octal_digits :: string where
  "octal_digits = ''01234567''"

definition oct_val :: "string \<Rightarrow> nat" where
  "oct_val s = foldl (\<lambda>a c. a * 8 + digit_val c) 0 s"

record clause =
  who :: "32 word"
  op :: char
  perms :: string

definition who_bits :: "char \<Rightarrow> 32 word" where
  "who_bits c =
     (if c = CHR ''u'' then 0x9C0 else if c = CHR ''g'' then 0x438 else if c = CHR ''o'' then 0x207
      else if c = CHR ''a'' then 0xFFF else 0)"

definition parse_clause :: "string \<Rightarrow> string \<Rightarrow> clause result" where
  "parse_clause spec part =
     (let ws = takeWhile (\<lambda>c. c \<in> set ''ugoa'') part; rest = dropWhile (\<lambda>c. c \<in> set ''ugoa'') part;
          w = foldl (\<lambda>a c. a OR who_bits c) 0 ws
      in case rest of
           [] \<Rightarrow> Inl (''invalid mode '' @ quoted spec @ '': expected octal (0755) or symbolic ([ugoa][+-=][rwxXst], e.g. u+x,go-w)'')
         | c # ps \<Rightarrow>
             if c \<notin> set ''+-='' then
               Inl (''invalid mode '' @ quoted spec @ '': expected octal (0755) or symbolic ([ugoa][+-=][rwxXst], e.g. u+x,go-w)'')
             else if trim_chars ps ''rwxXst'' \<noteq> [] then Inl (''invalid permissions '' @ quoted ps @ '' in mode '' @ quoted spec)
             else Inr \<lparr>who = (if w = 0 then 0xFFF else w), op = c, perms = ps\<rparr>)"

fun parse_clauses :: "string \<Rightarrow> string list \<Rightarrow> clause list result" where
  "parse_clauses spec [] = Inr []"
| "parse_clauses spec (part # parts) =
     (case parse_clause spec part of
        Inl e \<Rightarrow> Inl e
      | Inr c \<Rightarrow> (case parse_clauses spec parts of Inl e \<Rightarrow> Inl e | Inr cs \<Rightarrow> Inr (c # cs)))"

definition perm_bits :: "32 word \<Rightarrow> bool \<Rightarrow> char \<Rightarrow> 32 word" where
  "perm_bits old dir p =
     (if p = CHR ''r'' then 0x124 else if p = CHR ''w'' then 0x92 else if p = CHR ''x'' then 0x49
      else if p = CHR ''X'' then (if dir \<or> old AND 0x49 \<noteq> 0 then 0x49 else 0)
      else if p = CHR ''s'' then 0xC00 else if p = CHR ''t'' then 0x200 else 0)"

definition apply_clause :: "32 word \<Rightarrow> bool \<Rightarrow> 32 word \<Rightarrow> clause \<Rightarrow> 32 word" where
  "apply_clause old dir mode c =
     (let bits = foldl (\<lambda>a p. a OR perm_bits old dir p) 0 (perms c) AND who c in
      if op c = CHR ''+'' then mode OR bits
      else if op c = CHR ''-'' then mode AND NOT bits
      else if op c = CHR ''='' then
        (let clear = (if dir then who c AND NOT 0xC00 else who c) in (mode AND NOT clear) OR bits)
      else mode)"

definition ParseMode :: "string \<Rightarrow> (32 word \<Rightarrow> bool \<Rightarrow> 32 word) result" where
  "ParseMode spec0 =
     (let spec = trim_space spec0 in
      if spec \<noteq> [] \<and> trim_chars spec octal_digits = [] then
        (let v = oct_val spec in
         if 2 ^ 32 \<le> v \<or> 5 < length spec \<or> 0xFFF < v then Inl (''invalid octal mode '' @ quoted spec)
         else Inr (\<lambda>old dir. if dir \<and> length spec \<noteq> 5 then of_nat v OR (old AND 0xC00) else of_nat v))
      else case parse_clauses spec (split_on CHR '','' spec) of
        Inl e \<Rightarrow> Inl e
      | Inr clauses \<Rightarrow> Inr (\<lambda>old dir. foldl (apply_clause old dir) old clauses AND 0xFFF))"

subsection \<open>The report\<close>

fun oct_str :: "nat \<Rightarrow> string" where
  "oct_str n = (if n < 8 then [char_of (48 + n)] else oct_str (n div 8) @ [char_of (48 + n mod 8)])"

declare oct_str.simps [simp del]

definition oct4 :: "32 word \<Rightarrow> string" where
  "oct4 m = (let s = oct_str (unat m) in replicate (4 - length s) CHR ''0'' @ s)"

definition mark_special :: "32 word \<Rightarrow> string \<Rightarrow> 32 word \<times> nat \<times> char \<times> char \<Rightarrow> string" where
  "mark_special m s sp =
     (case sp of (b, pos, low, upper) \<Rightarrow>
        if m AND b \<noteq> 0 then s[pos := (if s ! pos = CHR ''x'' then low else upper)] else s)"

definition render :: "32 word \<Rightarrow> bool \<Rightarrow> string" where
  "render mode dir =
     (let s = (if dir then CHR ''d'' else CHR ''-'') #
            map (\<lambda>i. if bit mode (8 - i) then ''rwxrwxrwx'' ! i else CHR ''-'') [0..<9]
      in foldl (mark_special mode) s
           [(0x800, 3, CHR ''s'', CHR ''S''), (0x400, 6, CHR ''s'', CHR ''S''), (0x200, 9, CHR ''t'', CHR ''T'')])"

definition nl :: string where
  "nl = [CHR 0x0A]"

definition summarize :: "string list \<Rightarrow> walk_result \<Rightarrow> string" where
  "summarize log res =
     concat (map (\<lambda>l. l @ nl) log) @
     ''changed '' @ nat_str (Changed res) @ '', unchanged '' @ nat_str (Unchanged res) @
     (if SkippedSymlinks res \<noteq> []
      then '', skipped '' @ nat_str (length (SkippedSymlinks res)) @ '' symlink(s) (never followed): '' @
           join_with '', '' (SkippedSymlinks res)
      else []) @
     (if Errors res \<noteq> []
      then nl @ nat_str (length (Errors res)) @ '' error(s):'' @ nl @ ''  '' @ join_with (nl @ ''  '') (Errors res)
      else []) @ nl"

subsection \<open>The tool\<close>

definition chmod_change ::
  "('w, 'z) kernel_scheme \<Rightarrow> (32 word \<Rightarrow> bool \<Rightarrow> 32 word) \<Rightarrow> ('w, string list) walk_fn" where
  "chmod_change K app n s =
     (case s of (w, log) \<Rightarrow>
       (let old = ModeBits n; mode = app old (IsDir n) in
        if mode = old then (Inr False, w, log)
        else case k_chmod K (FD n) mode w of
          (Some e, w1) \<Rightarrow> (Inl (Path n @ '': '' @ errno_text e), w1, log)
        | (None, w1) \<Rightarrow>
            (Inr True, w1, log @ [Path n @ '': '' @ oct4 old @ '' ('' @ render old (IsDir n) @ '') -> '' @
               oct4 mode @ '' ('' @ render mode (IsDir n) @ '')''])))"

definition Chmod :: "nat \<Rightarrow> ('w, 'z) kernel_scheme \<Rightarrow> json option \<Rightarrow> 'w \<Rightarrow> (string result \<times> 'w) option" where
  "Chmod fuel K raw w =
     (case chmod_parse raw of
        Inl e \<Rightarrow> Some (Inl e, w)
      | Inr args \<Rightarrow>
          if ch_Path args = [] \<or> ch_Mode args = [] then Some (Inl ''path and mode are required'', w)
          else case ParseMode (ch_Mode args) of
            Inl e \<Rightarrow> Some (Inl e, w)
          | Inr app \<Rightarrow>
              (case Open K (ch_Path args) w of
                 (Inl e, w1) \<Rightarrow> Some (Inl (err_msg e), w1)
               | (Inr r, w1) \<Rightarrow>
                   if \<not> ch_Recursive args then
                     (case chmod_change K app r (w1, []) of
                        (Inl e, w2, _) \<Rightarrow> Some (Inl e, k_close K (FD r) w2)
                      | (Inr False, w2, _) \<Rightarrow>
                          Some (Inr (Path r @ '': mode already '' @ oct4 (ModeBits r) @ '' ('' @ render (ModeBits r) (IsDir r) @
                            ''), unchanged'' @ nl), k_close K (FD r) w2)
                      | (Inr True, w2, log) \<Rightarrow> Some (Inr (hd log @ nl), k_close K (FD r) w2))
                   else
                     map_option (\<lambda>(w2, log, res). (Inr (summarize log res), k_close K (FD r) w2))
                       (Walk fuel K (chmod_change K app) r (w1, []))))"

subsection \<open>What a mode can do\<close>

lemma bit_word_bound: "bit (x :: 32 word) i \<Longrightarrow> i < 32"
  using bit_imp_le_length by fastforce

lemma bits_zero: "(\<And>i. bit x i \<Longrightarrow> False) \<Longrightarrow> x = (0 :: 32 word)"
  by (rule bit_eqI) auto

lemma bit_low: "bit (0xFFF :: 32 word) i \<longleftrightarrow> i < 12"
proof -
  have e: "(0xFFF :: 32 word) = mask 12" by (simp add: mask_eq_exp_minus_1)
  show ?thesis unfolding e bit_mask_iff by auto
qed

lemma apply_clause_outside: "\<not> bit (who c) i \<Longrightarrow> bit (apply_clause old dir mode c) i = bit mode i"
  by (auto simp: apply_clause_def Let_def bit_simps dest: bit_word_bound)

lemma bit_perm_fold: "bit (foldl (\<lambda>a p. a OR perm_bits old dir p) b ps) i \<longleftrightarrow> bit b i \<or> (\<exists>p \<in> set ps. bit (perm_bits old dir p) i)"
  by (induction ps arbitrary: b) (auto simp: bit_simps)

lemma bit_who_fold: "bit (foldl (\<lambda>a c. a OR who_bits c) b ws) i \<longleftrightarrow> bit b i \<or> (\<exists>c \<in> set ws. bit (who_bits c) i)"
  by (induction ws arbitrary: b) (auto simp: bit_simps)

lemma special_bits: "bit (0xC00 :: 32 word) i \<longleftrightarrow> i = 10 \<or> i = 11"
proof -
  have e: "(0xC00 :: 32 word) = push_bit 10 (mask 2)" by (simp add: push_bit_eq_mult mask_eq_exp_minus_1)
  show ?thesis unfolding e bit_push_bit_iff bit_mask_iff by auto
qed

lemma perm_bits_low: "p \<noteq> CHR ''s'' \<Longrightarrow> \<not> bit (perm_bits old dir p) 10 \<and> \<not> bit (perm_bits old dir p) 11"
  by (auto simp: perm_bits_def bit_simps)

lemma apply_clause_special:
  assumes "CHR ''s'' \<notin> set (perms c)" and "i = 10 \<or> i = 11" and "bit mode i"
  shows "bit (apply_clause old True mode c) i"
proof -
  have n: "\<not> bit (foldl (\<lambda>a p. a OR perm_bits old True p) 0 (perms c)) i"
    using assms(1,2) perm_bits_low unfolding bit_perm_fold by (metis bit_0_eq bot_apply bot_bool_def)
  have "i < 32" using assms(2) by auto
  then show ?thesis using n assms(2,3) by (auto simp: apply_clause_def Let_def bit_simps special_bits)
qed

lemma parse_clauses_parts:
  "parse_clauses spec parts = Inr cs \<Longrightarrow> c \<in> set cs \<Longrightarrow> \<exists>part \<in> set parts. parse_clause spec part = Inr c"
  by (induction parts arbitrary: cs) (auto split: sum.splits)

lemma parse_clause_facts:
  assumes "parse_clause spec part = Inr c"
  shows "set (perms c) \<subseteq> set part \<and>
    (bit (who c) i \<longrightarrow> (let ws = takeWhile (\<lambda>x. x \<in> set ''ugoa'') part in ws = [] \<or> (\<exists>x \<in> set ws. bit (who_bits x) i)))"
proof -
  define ws rest where "ws = takeWhile (\<lambda>x. x \<in> set ''ugoa'') part" and "rest = dropWhile (\<lambda>x. x \<in> set ''ugoa'') part"
  define w where "w = foldl (\<lambda>a c. a OR who_bits c) 0 ws"
  from assms have "(case rest of [] \<Rightarrow> False | x # ps \<Rightarrow> c = \<lparr>who = (if w = 0 then 0xFFF else w), op = x, perms = ps\<rparr>)"
    unfolding parse_clause_def ws_def [symmetric] rest_def [symmetric] w_def Let_def
    by (cases rest) (simp_all split: if_splits del: list.set)
  then have "rest \<noteq> []" "perms c = tl rest" "who c = (if w = 0 then 0xFFF else w)" by (auto split: list.splits)
  moreover have "set rest \<subseteq> set part" unfolding rest_def by (meson set_dropWhileD subsetI)
  moreover have "ws = [] \<or> w \<noteq> 0"
  proof (cases ws)
    case (Cons x xs)
    then have "x \<in> set ''ugoa''" using set_takeWhileD [of x "\<lambda>x. x \<in> set ''ugoa''" part] ws_def by auto
    then have "bit (who_bits x) 0 \<or> bit (who_bits x) 3 \<or> bit (who_bits x) 6" by (auto simp: who_bits_def bit_simps)
    then have "bit w 0 \<or> bit w 3 \<or> bit w 6" using Cons unfolding w_def bit_who_fold by auto
    then show ?thesis by auto
  qed simp
  ultimately show ?thesis using bit_who_fold [of 0 ws i] unfolding ws_def [symmetric] w_def [symmetric]
    by (cases rest) (auto simp: Let_def)
qed

lemma foldl_clause_outside:
  "\<forall>c \<in> set cs. \<not> bit (who c) i \<Longrightarrow> bit (foldl (apply_clause old dir) mode cs) i = bit mode i"
  by (induction cs arbitrary: mode) (auto simp: apply_clause_outside)

lemma foldl_clause_special:
  "\<forall>c \<in> set cs. CHR ''s'' \<notin> set (perms c) \<Longrightarrow> i = 10 \<or> i = 11 \<Longrightarrow> bit mode i \<Longrightarrow> bit (foldl (apply_clause old True) mode cs) i"
  by (induction cs arbitrary: mode) (auto simp: apply_clause_special)

definition octal_mode :: "string \<Rightarrow> bool" where
  "octal_mode spec \<longleftrightarrow> trim_space spec \<noteq> [] \<and> trim_chars (trim_space spec) octal_digits = []"

lemma ParseMode_octal:
  assumes "octal_mode spec"
  shows "ParseMode spec = Inr app \<longleftrightarrow> length (trim_space spec) \<le> 5 \<and> oct_val (trim_space spec) \<le> 0xFFF \<and>
    app = (\<lambda>old dir. if dir \<and> length (trim_space spec) \<noteq> 5 then of_nat (oct_val (trim_space spec)) OR (old AND 0xC00)
                     else of_nat (oct_val (trim_space spec)))"
  using assms by (auto simp: ParseMode_def octal_mode_def Let_def)

lemma ParseMode_symbolic:
  assumes "\<not> octal_mode spec" and "ParseMode spec = Inr app"
  obtains cs where "parse_clauses (trim_space spec) (split_on CHR '','' (trim_space spec)) = Inr cs"
    and "app = (\<lambda>old dir. foldl (apply_clause old dir) old cs AND 0xFFF)"
  using assms by (auto simp: ParseMode_def octal_mode_def Let_def split: sum.splits)

lemma of_nat_low: "v \<le> 0xFFF \<Longrightarrow> bit (of_nat v :: 32 word) i \<Longrightarrow> i < 12"
proof -
  assume v: "v \<le> 0xFFF" and b: "bit (of_nat v :: 32 word) i"
  then have "bit v i" by (simp add: bit_simps)
  moreover have "take_bit 12 v = v" using v by (simp add: take_bit_nat_eq_self)
  ultimately show "i < 12" by (metis bit_take_bit_iff)
qed

lemma set_trim_space: "set (trim_space s) \<subseteq> set s"
proof
  fix x assume "x \<in> set (trim_space s)"
  then show "x \<in> set s" unfolding trim_space_def using set_dropWhileD by (metis set_rev)
qed

lemma split_on_chars: "part \<in> set (split_on c s) \<Longrightarrow> set part \<subseteq> set s"
proof -
  have "set part \<subseteq> set (join_with [c] ps)" if "part \<in> set ps" for ps
    using that by (induction "[c]" ps rule: join_with.induct) auto
  then show "part \<in> set (split_on c s) \<Longrightarrow> set part \<subseteq> set s" using join_split_on by metis
qed

text \<open>
  C18. A mode specification never produces anything but the twelve permission bits. On a directory the setuid
  and setgid bits survive unless the specification names them with \<open>s\<close> or is a five-digit octal
  mode. And a symbolic mode changes a bit only when one of its clauses addresses the class the bit belongs to.
\<close>

theorem ParseMode_effect:
  assumes "ParseMode spec = Inr app"
  shows "app old dir AND NOT 0xFFF = 0 \<and>
    (CHR ''s'' \<notin> set spec \<and> \<not> (octal_mode spec \<and> length (trim_space spec) = 5) \<longrightarrow>
       old AND 0xC00 AND NOT (app old True) = 0) \<and>
    (\<not> octal_mode spec \<and> i < 12 \<and> bit (app old dir) i \<noteq> bit old i \<longrightarrow>
       (\<exists>part \<in> set (split_on CHR '','' (trim_space spec)).
          let ws = takeWhile (\<lambda>x. x \<in> set ''ugoa'') part in ws = [] \<or> (\<exists>x \<in> set ws. bit (who_bits x) i)))"
proof (cases "octal_mode spec")
  case True
  note o = assms [unfolded ParseMode_octal [OF True]]
  let ?v = "of_nat (oct_val (trim_space spec)) :: 32 word"
  have v: "bit ?v j \<Longrightarrow> j < 12" for j using o of_nat_low by blast
  have "app old dir AND NOT 0xFFF = 0"
  proof (rule bits_zero)
    fix j assume "bit (app old dir AND NOT 0xFFF) j"
    then have "bit (app old dir) j" "\<not> bit (0xFFF :: 32 word) j" unfolding bit_and_iff bit_not_iff by blast+
    then have "bit (app old dir) j" "\<not> j < 12" unfolding bit_low by blast+
    moreover have "bit (app old dir) j \<longrightarrow> bit ?v j \<or> j = 10 \<or> j = 11" using o
      by (auto simp: bit_or_iff bit_and_iff special_bits simp del: bit_numeral_word_iff)
    ultimately show False using v [of j] by auto
  qed
  moreover have "old AND 0xC00 AND NOT (app old True) = 0" if "length (trim_space spec) \<noteq> 5"
  proof (rule bits_zero)
    fix j assume "bit (old AND 0xC00 AND NOT (app old True)) j"
    then have "bit old j" "bit (0xC00 :: 32 word) j" "\<not> bit (app old True) j" unfolding bit_and_iff bit_not_iff by blast+
    then show False using o that by (simp add: bit_or_iff bit_and_iff)
  qed
  ultimately show ?thesis using True by blast
next
  case False
  obtain cs where cs: "parse_clauses (trim_space spec) (split_on CHR '','' (trim_space spec)) = Inr cs"
    "app = (\<lambda>old dir. foldl (apply_clause old dir) old cs AND 0xFFF)"
    by (rule ParseMode_symbolic [OF False assms])
  have "app old dir AND NOT 0xFFF = 0" unfolding cs(2) by (rule bits_zero) (unfold bit_and_iff bit_not_iff, blast)
  moreover have "old AND 0xC00 AND NOT (app old True) = 0" if n: "CHR ''s'' \<notin> set spec"
  proof -
    have "CHR ''s'' \<notin> set (perms c)" if cc: "c \<in> set cs" for c
    proof -
      obtain part where "part \<in> set (split_on CHR '','' (trim_space spec))" "parse_clause (trim_space spec) part = Inr c"
        using parse_clauses_parts [OF cs(1) cc] by blast
      then show ?thesis using parse_clause_facts split_on_chars set_trim_space n by blast
    qed
    then have "bit (foldl (apply_clause old True) old cs) j" if "j = 10 \<or> j = 11" "bit old j" for j
      using foldl_clause_special [of cs j old old] that by blast
    then show ?thesis unfolding cs(2)
      by (intro bits_zero) (unfold bit_and_iff bit_not_iff special_bits bit_low, auto)
  qed
  moreover have "\<exists>part \<in> set (split_on CHR '','' (trim_space spec)).
      let ws = takeWhile (\<lambda>x. x \<in> set ''ugoa'') part in ws = [] \<or> (\<exists>x \<in> set ws. bit (who_bits x) i)"
    if i: "i < 12" "bit (app old dir) i \<noteq> bit old i"
  proof -
    have "bit (foldl (apply_clause old dir) old cs) i \<noteq> bit old i" using i unfolding cs(2) by (auto simp: bit_and_iff bit_low simp del: bit_numeral_word_iff)
    then obtain c where c: "c \<in> set cs" "bit (who c) i" using foldl_clause_outside by blast
    obtain part where "part \<in> set (split_on CHR '','' (trim_space spec))" "parse_clause (trim_space spec) part = Inr c"
      using parse_clauses_parts [OF cs(1) c(1)] by blast
    then show ?thesis using parse_clause_facts c(2) by blast
  qed
  ultimately show ?thesis by blast
qed

text \<open>A setgid directory keeps its bit under \<open>755\<close>, and \<open>g=rx\<close> leaves owner and others alone.\<close>

theorem ParseMode_effect_witness:
  "\<exists>app. ParseMode ''755'' = Inr app \<and> app 0x5C0 True = 0x5ED \<and> app 0x5C0 False = 0x1ED \<and> 0x5C0 AND 0xC00 AND NOT (app 0x5C0 True) = 0"
proof -
  have o: "octal_mode ''755''" "length (trim_space ''755'') = 3" by code_simp+
  have v: "oct_val (trim_space ''755'') = 493" by (simp add: oct_val_def digit_val_def trim_space_def is_space_def)
  define app where "app = (\<lambda>(old :: 32 word) dir. if dir then (493 :: 32 word) OR (old AND 0xC00) else 493)"
  have a: "ParseMode ''755'' = Inr app" unfolding ParseMode_octal [OF o(1)] o(2) v by (auto simp: app_def fun_eq_iff)
  have "app 0x5C0 True = 0x5ED" "app 0x5C0 False = 0x1ED" by (simp_all add: app_def)
  then show ?thesis using a ParseMode_effect [OF a, of "0x5C0" True 0] o(2) by (intro exI [of _ app]) simp
qed

subsection \<open>What the tool changes\<close>

context linux_fs
begin

lemma chmod_change_ok: "changes_its_node V (chmod_change K app)"
proof -
  have "changes_only V {x} w (fst (snd (chmod_change K app n (w, l))))" if "fds V w (FD n) = Some x" for n w l x
  proof -
    note k = chmod [OF that, of "app (ModeBits n) (IsDir n)"]
    obtain e w1 where e: "k_chmod K (FD n) (app (ModeBits n) (IsDir n)) w = (e, w1)" by fastforce
    show ?thesis using k e later_refl by (cases e) (auto simp: chmod_change_def changes_only_def Let_def)
  qed
  then show ?thesis by (simp add: changes_its_node_def)
qed

text \<open>What a metadata tool does once the object is open: one change, or a walk; then it closes the object.\<close>

lemma metadata_tool_confined:
  assumes o: "Open K path w = (Inr n, w1)" and fn: "changes_its_node V fn"
    and s: "(\<exists>l. w2 = fst (snd (fn n (w1, l)))) \<and> \<not> rec1 \<or> (\<exists>l l' res. Walk f K fn n (w1, l) = Some (w2, l', res)) \<and> rec1"
    and w': "w' = k_close K (FD n) w2"
  shows "fds V w' = fds V w \<and>
    (\<forall>x \<in> touched V w' - touched V w. is_rooted path \<and>
       (\<exists>cs. nofollow_path V w (rootObj V) (path_comps path @ cs) w' x \<and> (\<not> rec1 \<longrightarrow> cs = [])))"
proof -
  obtain x where h: "holds_node V w (rootObj V) (path_comps path) (fds V w) w1 n x" and rt: "is_rooted path"
    and t: "touched V w1 = touched V w"
    using Open_spec [OF o] by auto
  have fx: "fds V w1 (FD n) = Some x" "fds V w (FD n) = None" "fds V w1 = (fds V w)(FD n \<mapsto> x)"
    "nofollow_path V w (rootObj V) (path_comps path) w1 x" using h by (auto simp: holds_node_def)
  have l2: "later V w2 w'" using w' by simp
  show ?thesis
  proof (cases rec1)
    case False
    then have c: "changes_only V {x} w1 w2" using s fn fx(1) by (auto simp: changes_its_node_def)
    then have "nofollow_path V w (rootObj V) (path_comps path) w' x"
      using nofollow_later [OF nofollow_later [OF fx(4)] l2] by (simp add: changes_only_def)
    moreover have "fds V w' = fds V w" "touched V w' \<subseteq> touched V w \<union> {x}"
      using c w' fx t by (auto simp: changes_only_def fun_eq_iff)
    ultimately show ?thesis using rt False append_Nil2 by (metis Diff_iff UnE singletonD subsetD)
  next
    case True
    then have c: "changes_only V (below V w (rootObj V) (path_comps path) w2) w1 w2"
      using s Walk_confined [OF fn _ h] by auto
    then have f: "fds V w2 = (fds V w)(FD n \<mapsto> x)" "touched V w2 \<subseteq> touched V w \<union> below V w (rootObj V) (path_comps path) w2"
      using fx(3) t by (simp_all add: changes_only_def)
    have "touched V w' \<subseteq> touched V w \<union> below V w (rootObj V) (path_comps path) w'"
      using f(2) below_later [OF l2, of w "rootObj V" "path_comps path"] w' by auto
    moreover have "fds V w' = fds V w" using f(1) fx(2) w' by (auto simp: fun_eq_iff)
    ultimately show ?thesis using rt True unfolding below_def by blast
  qed
qed

lemma Chmod_in_place:
  assumes "Chmod fuel K raw w = Some (r, w')"
  shows "fds V w' = fds V w \<and>
    (\<forall>x \<in> touched V w' - touched V w. \<exists>args cs. chmod_parse raw = Inr args \<and> is_rooted (ch_Path args) \<and>
       nofollow_path V w (rootObj V) (path_comps (ch_Path args) @ cs) w' x \<and> (\<not> ch_Recursive args \<longrightarrow> cs = []))"
proof (cases "\<exists>args app n w1. chmod_parse raw = Inr args \<and> ch_Path args \<noteq> [] \<and> ch_Mode args \<noteq> [] \<and> ParseMode (ch_Mode args) = Inr app \<and>
    Open K (ch_Path args) w = (Inr n, w1)")
  case False
  then have "w' = w \<or> (\<exists>p e. Open K p w = (Inl e, w'))"
    using assms by (auto simp: Chmod_def split: sum.splits if_splits prod.splits)
  then show ?thesis using Open_spec by fastforce
next
  case True
  then obtain args app n w1 where a: "chmod_parse raw = Inr args" "ch_Path args \<noteq> []" "ch_Mode args \<noteq> []"
    "ParseMode (ch_Mode args) = Inr app" "Open K (ch_Path args) w = (Inr n, w1)" by blast
  show ?thesis
  proof (cases "ch_Recursive args")
    case True
    then obtain w2 log res where "Walk fuel K (chmod_change K app) n (w1, []) = Some (w2, log, res)" "w' = k_close K (FD n) w2"
      using assms a by (auto simp: Chmod_def)
    from metadata_tool_confined [OF a(5) chmod_change_ok _ this(2), where ?rec1.0 = True] this(1) show ?thesis using a(1) True by blast
  next
    case False
    obtain rc w2 log where c: "chmod_change K app n (w1, []) = (rc, w2, log)" by (cases "chmod_change K app n (w1, [])") auto
    then have "w' = k_close K (FD n) w2" using assms a False by (auto simp: Chmod_def split: sum.splits bool.splits)
    from metadata_tool_confined [OF a(5) chmod_change_ok _ this, where ?rec1.0 = False] c show ?thesis using a(1) False by (metis fst_conv snd_conv)
  qed
qed

end

text \<open>
  Whatever other processes do to the tree meanwhile, \<open>files/chmod\<close> changes only objects that were
  reached from the root directory over the components of the requested path, and below it when the call is
  recursive, through real directories and never through a symbolic link. It leaves no descriptor open.
\<close>

lemma chmod_confined:
  assumes "linux_fs K V" and "Chmod fuel K raw w = Some (r, w')"
  shows "fds V w' = fds V w \<and>
    (\<forall>x \<in> touched V w' - touched V w. \<exists>args cs. chmod_parse raw = Inr args \<and> is_rooted (ch_Path args) \<and>
       nofollow_path V w (rootObj V) (path_comps (ch_Path args) @ cs) w' x \<and> (\<not> ch_Recursive args \<longrightarrow> cs = []))"
  by (rule linux_fs.Chmod_in_place [OF assms])

definition ex_chmod :: json where
  "ex_chmod = JObj [(''path'', JStr ''/srv/''), (''mode'', JStr ''g+w''), (''recursive'', JBool True)]"

lemma ex_chmod_run:
  "map_option (\<lambda>(r, w'). (\<not> isl r, m_touched w', m_fds w')) (Chmod 20 mem_kernel (Some ex_chmod) ex_mem) =
   Some (True, [ex_file, ex_srv], [])"
  by code_simp

lemma ex_chmod_confined:
  "\<exists>r w'. Chmod 20 mem_kernel (Some ex_chmod) ex_mem = Some (r, w') \<and> m_touched w' = [ex_file, ex_srv] \<and>
     (\<exists>cs. nofollow_path mem_view ex_mem m_root (''srv'' # cs) w' ex_file)"
proof -
  obtain r w' where c: "Chmod 20 mem_kernel (Some ex_chmod) ex_mem = Some (r, w')" "m_touched w' = [ex_file, ex_srv]"
    using ex_chmod_run by auto
  have p: "chmod_parse (Some ex_chmod) = Inr \<lparr>ch_Path = ''/srv/'', ch_Mode = ''g+w'', ch_Recursive = True\<rparr>"
    "path_comps ''/srv/'' = [''srv'']" by code_simp+
  have t: "ex_file \<in> touched mem_view w' - touched mem_view ex_mem" using c(2) by (simp add: ex_mem_def)
  from chmod_confined [OF mem.linux_fs_axioms c(1)] t
  have "\<exists>args cs. chmod_parse (Some ex_chmod) = Inr args \<and>
      nofollow_path mem_view ex_mem (rootObj mem_view) (path_comps (ch_Path args) @ cs) w' ex_file" by blast
  then show ?thesis using p c by (intro exI [of _ r] exI [of _ w']) auto
qed

context bounded_fs
begin

lemma Chmod_returns: "height (rootObj V) + D + 2 \<le> fuel \<Longrightarrow> Chmod fuel K raw w \<noteq> None"
proof -
  assume f: "height (rootObj V) + D + 2 \<le> fuel"
  have "Walk fuel K (chmod_change K app) n (w1, []) \<noteq> None" if "Open K p w = (Inr n, w1)" for app n w1 p
    using Open_spec [OF that] Walk_ends [OF chmod_change_ok _ f, where s = "(w1, [])"] by auto
  then show ?thesis by (auto simp: Chmod_def split: sum.splits prod.splits bool.splits)
qed

end

end
