(* ===== verification/FileChown.thy ===== *)
theory FileChown
  imports FileChmod
begin

text \<open>
  The tool \<open>files/chown\<close> (\<^verbatim>\<open>internal/tools/files/chown/chown.go\<close>): the owner
  specification looked up in the account files, the report with names, and the change on one object or a
  tree. It shares the walk and the summary with \<open>files/chmod\<close>.
\<close>

record chown_args =
  co_Path :: string
  co_Owner :: string
  co_Recursive :: bool

definition chown_fields :: "string list" where
  "chown_fields = [''path'', ''owner'', ''recursive'', ''privileged'']"

definition chown_parse :: "json option \<Rightarrow> chown_args result" where
  "chown_parse raw =
     (let v = (case raw of None \<Rightarrow> JNull | Some v \<Rightarrow> v); fv = (\<lambda>f. field_vals chown_fields f v) in
      if raw \<noteq> None \<and> is_structdoc v \<and> list_all is_str (fv ''path'') \<and> list_all is_str (fv ''owner'') \<and>
         list_all is_bool (fv ''recursive'') \<and> list_all is_bool (fv ''privileged'')
      then Inr \<lparr>co_Path = dec_string [] (fv ''path''), co_Owner = dec_string [] (fv ''owner''),
                co_Recursive = dec_bool False (fv ''recursive'')\<rparr>
      else Inl ''invalid arguments'')"

subsection \<open>Accounts\<close>

text \<open>The files are read through a parameter that gives a file's text or the error.\<close>

definition colon_lines :: "string \<Rightarrow> string list list" where
  "colon_lines data = map (split_on CHR '':'') (split_on CHR 0x0A data)"

definition atoi_or :: "string \<Rightarrow> int result" where
  "atoi_or s = (case atoi s of Some i \<Rightarrow> Inr i | None \<Rightarrow> Inl (atoi_error s))"

definition lookup_id :: "(string \<Rightarrow> string result) \<Rightarrow> string \<Rightarrow> string \<Rightarrow> string \<Rightarrow> int result" where
  "lookup_id readFile path name kind =
     (let byName = (case readFile path of
                      Inl e \<Rightarrow> Inl e
                    | Inr data \<Rightarrow>
                        (case find (\<lambda>f. 3 \<le> length f \<and> f ! 0 = name) (colon_lines data) of
                           Some f \<Rightarrow> atoi_or (f ! 2)
                         | None \<Rightarrow> Inl (''no such '' @ kind @ '': '' @ quoted name)))
      in case atoi name of
           Some i \<Rightarrow> if 0 \<le> i then Inr i else byName
         | None \<Rightarrow> byName)"

definition loginGroup :: "(string \<Rightarrow> string result) \<Rightarrow> string \<Rightarrow> int \<Rightarrow> int result" where
  "loginGroup readFile passwdPath uid =
     (case readFile passwdPath of
        Inl e \<Rightarrow> Inl e
      | Inr data \<Rightarrow>
          (case find (\<lambda>f. 4 \<le> length f \<and> f ! 2 = int_str uid) (colon_lines data) of
             Some f \<Rightarrow> atoi_or (f ! 3)
           | None \<Rightarrow> Inl (''no login group for uid '' @ int_str uid)))"

definition ParseOwner :: "(string \<Rightarrow> string result) \<Rightarrow> string \<Rightarrow> string \<Rightarrow> string \<Rightarrow> (int \<times> int) result" where
  "ParseOwner readFile spec passwdPath groupPath =
     (let (userPart, groupPart, hasColon) = cut_at CHR '':'' spec in
      case (if userPart \<noteq> [] then lookup_id readFile passwdPath userPart ''user'' else Inr (- 1)) of
        Inl e \<Rightarrow> Inl e
      | Inr uid \<Rightarrow>
          (case (if groupPart \<noteq> [] then lookup_id readFile groupPath groupPart ''group''
                 else if hasColon \<and> userPart \<noteq> [] then loginGroup readFile passwdPath uid
                 else Inr (- 1)) of
             Inl e \<Rightarrow> Inl e
           | Inr gid \<Rightarrow>
               if uid < 0 \<and> gid < 0
               then Inl (''invalid owner '' @ quoted spec @ '': expected user, user:group, :group or user:'')
               else Inr (uid, gid)))"

definition names_of :: "(string \<Rightarrow> string result) \<Rightarrow> string \<Rightarrow> (int \<times> string) list" where
  "names_of readFile path =
     foldl (\<lambda>m f. if length f < 3 then m
                  else case atoi (f ! 2) of
                    None \<Rightarrow> m
                  | Some i \<Rightarrow> if map_of m i \<noteq> None then m else map_put i (f ! 0) m)
       [] (colon_lines (case readFile path of Inl _ \<Rightarrow> [] | Inr data \<Rightarrow> data))"

definition nameOf :: "(int \<times> string) list \<Rightarrow> int \<Rightarrow> string" where
  "nameOf m i = (case map_of m i of Some n \<Rightarrow> n | None \<Rightarrow> int_str i)"

subsection \<open>The tool\<close>

definition chown_change ::
  "('w, 'z) kernel_scheme \<Rightarrow> (int \<Rightarrow> int \<Rightarrow> string) \<Rightarrow> int \<Rightarrow> int \<Rightarrow> ('w, string list) walk_fn" where
  "chown_change K who1 uid gid n s =
     (case s of (w, log) \<Rightarrow>
       (let (oldU, oldG) = Owner n;
            newU = (if 0 \<le> uid then uid else oldU); newG = (if 0 \<le> gid then gid else oldG) in
        if newU = oldU \<and> newG = oldG then (Inr False, w, log)
        else case k_fchownat K (FD n) uid gid w of
          (Some e, w1) \<Rightarrow> (Inl (Path n @ '': '' @ errno_text e), w1, log)
        | (None, w1) \<Rightarrow> (Inr True, w1, log @ [Path n @ '': '' @ who1 oldU oldG @ '' -> '' @ who1 newU newG])))"

definition Chown ::
  "nat \<Rightarrow> ('w, 'z) kernel_scheme \<Rightarrow> (string \<Rightarrow> string result) \<Rightarrow> json option \<Rightarrow> 'w \<Rightarrow> (string result \<times> 'w) option" where
  "Chown fuel K readFile raw w =
     (case chown_parse raw of
        Inl e \<Rightarrow> Some (Inl e, w)
      | Inr args \<Rightarrow>
          if co_Path args = [] \<or> co_Owner args = [] then Some (Inl ''path and owner are required'', w)
          else case ParseOwner readFile (co_Owner args) ''/etc/passwd'' ''/etc/group'' of
            Inl e \<Rightarrow> Some (Inl e, w)
          | Inr (uid, gid) \<Rightarrow>
              (case Open K (co_Path args) w of
                 (Inl e, w1) \<Rightarrow> Some (Inl (err_msg e), w1)
               | (Inr r, w1) \<Rightarrow>
                   (let users = names_of readFile ''/etc/passwd''; groups = names_of readFile ''/etc/group'';
                        who1 = (\<lambda>u g. nameOf users u @ '':'' @ nameOf groups g);
                        change = chown_change K who1 uid gid in
                    if \<not> co_Recursive args then
                      (case change r (w1, []) of
                         (Inl e, w2, _) \<Rightarrow> Some (Inl e, k_close K (FD r) w2)
                       | (Inr False, w2, _) \<Rightarrow>
                           Some (Inr (Path r @ '': owner already '' @ who1 (fst (Owner r)) (snd (Owner r)) @ '', unchanged'' @ nl),
                             k_close K (FD r) w2)
                       | (Inr True, w2, log) \<Rightarrow> Some (Inr (hd log @ nl), k_close K (FD r) w2))
                    else
                      map_option (\<lambda>(w2, log, res). (Inr (summarize log res), k_close K (FD r) w2))
                        (Walk fuel K change r (w1, [])))))"

subsection \<open>Owner specifications\<close>

lemma ParseOwner_cases:
  assumes "ParseOwner rf spec pw gr = Inr (uid, gid)" and "cut_at CHR '':'' spec = (u, g, c)"
  shows "(0 \<le> uid \<or> 0 \<le> gid) \<and>
    (if u = [] then uid = - 1 else lookup_id rf pw u ''user'' = Inr uid) \<and>
    (if g \<noteq> [] then lookup_id rf gr g ''group'' = Inr gid
     else if c \<and> u \<noteq> [] then loginGroup rf pw uid = Inr gid else gid = - 1)"
  using assms by (auto simp: ParseOwner_def Let_def split: sum.splits if_splits)

subsection \<open>What the tool changes\<close>

context linux_fs
begin

lemma chown_change_ok: "changes_its_node V (chown_change K who1 uid gid)"
proof -
  have "changes_only V {x} w (fst (snd (chown_change K who1 uid gid n (w, l))))" if "fds V w (FD n) = Some x" for n w l x
  proof -
    note k = fchownat [OF that, of uid gid]
    obtain e w1 where e: "k_fchownat K (FD n) uid gid w = (e, w1)" by fastforce
    show ?thesis using k e later_refl by (cases e) (auto simp: chown_change_def changes_only_def Let_def split_beta)
  qed
  then show ?thesis by (simp add: changes_its_node_def)
qed

lemma Chown_in_place:
  assumes "Chown fuel K rf raw w = Some (r, w')"
  shows "fds V w' = fds V w \<and>
    (\<forall>x \<in> touched V w' - touched V w. \<exists>args cs. chown_parse raw = Inr args \<and> is_rooted (co_Path args) \<and>
       nofollow_path V w (rootObj V) (path_comps (co_Path args) @ cs) w' x \<and> (\<not> co_Recursive args \<longrightarrow> cs = []))"
proof (cases "\<exists>args uid gid n w1. chown_parse raw = Inr args \<and> co_Path args \<noteq> [] \<and> co_Owner args \<noteq> [] \<and>
    ParseOwner rf (co_Owner args) ''/etc/passwd'' ''/etc/group'' = Inr (uid, gid) \<and> Open K (co_Path args) w = (Inr n, w1)")
  case False
  then have "w' = w \<or> (\<exists>p e. Open K p w = (Inl e, w'))"
    using assms by (auto simp: Chown_def split: sum.splits if_splits prod.splits)
  then show ?thesis using Open_spec by fastforce
next
  case True
  then obtain args uid gid n w1 where a: "chown_parse raw = Inr args" "co_Path args \<noteq> []" "co_Owner args \<noteq> []"
    "ParseOwner rf (co_Owner args) ''/etc/passwd'' ''/etc/group'' = Inr (uid, gid)" "Open K (co_Path args) w = (Inr n, w1)" by blast
  define ch where "ch = chown_change K (\<lambda>u g. nameOf (names_of rf ''/etc/passwd'') u @ '':'' @ nameOf (names_of rf ''/etc/group'') g) uid gid"
  have ok: "changes_its_node V ch" unfolding ch_def by (rule chown_change_ok)
  show ?thesis
  proof (cases "co_Recursive args")
    case True
    then obtain w2 log res where "Walk fuel K ch n (w1, []) = Some (w2, log, res)" "w' = k_close K (FD n) w2"
      using assms a by (auto simp: Chown_def Let_def ch_def)
    from metadata_tool_confined [OF a(5) ok _ this(2), where ?rec1.0 = True] this(1) show ?thesis using a(1) True by blast
  next
    case False
    obtain rc w2 log where c: "ch n (w1, []) = (rc, w2, log)" by (cases "ch n (w1, [])") auto
    then have "w' = k_close K (FD n) w2" using assms a False by (auto simp: Chown_def Let_def ch_def split: sum.splits bool.splits)
    from metadata_tool_confined [OF a(5) ok _ this, where ?rec1.0 = False] c show ?thesis using a(1) False by (metis fst_conv snd_conv)
  qed
qed

end

context bounded_fs
begin

lemma Chown_returns: "height (rootObj V) + D + 2 \<le> fuel \<Longrightarrow> Chown fuel K rf raw w \<noteq> None"
proof -
  assume f: "height (rootObj V) + D + 2 \<le> fuel"
  have "Walk fuel K (chown_change K who1 uid gid) n (w1, []) \<noteq> None" if "Open K p w = (Inr n, w1)" for who1 uid gid n w1 p
    using Open_spec [OF that] Walk_ends [OF chown_change_ok _ f, where s = "(w1, [])"] by auto
  then show ?thesis by (auto simp: Chown_def Let_def split: sum.splits prod.splits bool.splits)
qed

end

text \<open>
  C15. In a tree of bounded depth \<open>files/chmod\<close> and \<open>files/chown\<close> always return, and
  \<open>files/chown\<close> changes only objects that were reached over the requested path, and below it when
  the call is recursive, never through a symbolic link, with every descriptor closed at the end.
\<close>

theorem chown_ends_confined:
  assumes "bounded_fs K V height dents D" and "height (rootObj V) + D + 2 \<le> fuel"
  shows "(\<exists>r w'. Chmod fuel K raw w = Some (r, w')) \<and>
    (\<exists>r w'. Chown fuel K rf raw w = Some (r, w') \<and> fds V w' = fds V w \<and>
       (\<forall>x \<in> touched V w' - touched V w. \<exists>args cs. chown_parse raw = Inr args \<and> is_rooted (co_Path args) \<and>
          nofollow_path V w (rootObj V) (path_comps (co_Path args) @ cs) w' x \<and> (\<not> co_Recursive args \<longrightarrow> cs = [])))"
proof -
  obtain r w' where c: "Chown fuel K rf raw w = Some (r, w')" using bounded_fs.Chown_returns [OF assms] by fastforce
  obtain r1 w1 where m: "Chmod fuel K raw w = Some (r1, w1)" using bounded_fs.Chmod_returns [OF assms] by fastforce
  show ?thesis using c m linux_fs.Chown_in_place [OF bounded_fs.axioms(1) [OF assms(1)] c] by blast
qed

definition ex_chown :: json where
  "ex_chown = JObj [(''path'', JStr ''/srv''), (''owner'', JStr ''alice:''), (''recursive'', JBool True)]"

definition ex_passwd :: "string \<Rightarrow> string result" where
  "ex_passwd p = (if p = ''/etc/passwd'' then Inr (''root:x:0:0::/root:/bin/sh'' @ nl @ ''alice:x:1000:100::/home/alice:/bin/sh'' @ nl)
                  else Inr (''users:x:100:'' @ nl))"

lemma ex_chown_run:
  "map_option (\<lambda>(r, w'). (\<not> isl r, m_touched w', m_owners w')) (Chown 20 mem_kernel ex_passwd (Some ex_chown) ex_mem) =
   Some (True, [ex_file, ex_srv], [(ex_file, 1000, 100), (ex_srv, 1000, 100)])"
  by code_simp

theorem chown_ends_confined_witness:
  "\<exists>r w'. Chown 20 mem_kernel ex_passwd (Some ex_chown) ex_mem = Some (r, w') \<and> m_touched w' = [ex_file, ex_srv] \<and>
     map_of (m_owners w') ex_file = Some (1000, 100) \<and>
     (\<exists>cs. nofollow_path mem_view ex_mem m_root (''srv'' # cs) w' ex_file)"
proof -
  obtain r w' where c: "Chown 20 mem_kernel ex_passwd (Some ex_chown) ex_mem = Some (r, w')" "m_touched w' = [ex_file, ex_srv]"
    "m_owners w' = [(ex_file, 1000, 100), (ex_srv, 1000, 100)]"
    using ex_chown_run by auto
  have p: "chown_parse (Some ex_chown) = Inr \<lparr>co_Path = ''/srv'', co_Owner = ''alice:'', co_Recursive = True\<rparr>"
    "path_comps ''/srv'' = [''srv'']" by code_simp+
  have t: "ex_file \<in> touched mem_view w' - touched mem_view ex_mem" using c(2) by (simp add: ex_mem_def)
  have f: "fst (rootObj mem_view) + 1 + 2 \<le> 20" by (simp add: m_root_def)
  from chown_ends_confined [OF mem.bounded_fs_axioms f, of "Some ex_chown" ex_mem ex_passwd] c(1)
  have "\<forall>x \<in> touched mem_view w' - touched mem_view ex_mem. \<exists>args cs. chown_parse (Some ex_chown) = Inr args \<and>
      nofollow_path mem_view ex_mem (rootObj mem_view) (path_comps (co_Path args) @ cs) w' x" by fastforce
  with t have "\<exists>args cs. chown_parse (Some ex_chown) = Inr args \<and>
      nofollow_path mem_view ex_mem (rootObj mem_view) (path_comps (co_Path args) @ cs) w' ex_file" by blast
  then show ?thesis using p c by (intro exI [of _ r] exI [of _ w']) auto
qed

text \<open>
  An id is read as a 64-bit number and handed to a 32-bit interface: \<open>4294967296\<close> gives the file to
  root, while the report names the number.
\<close>

lemma owner_wraps:
  "ParseOwner rf ''4294967296'' pw gr = Inr (4294967296, - 1)"
  "map_of (m_fds w) fd = Some x \<Longrightarrow> map_of (m_owners w) x = Some (u, g) \<Longrightarrow>
   map_of (m_owners (snd (m_fchownat fd 4294967296 (- 1) w))) x = Some (0, g)"
proof -
  have "atoi ''4294967296'' = Some 4294967296"
    by (simp add: atoi_def has_prefix_def is_digit_def dec_val_def digit_val_def)
  moreover have "cut_at CHR '':'' ''4294967296'' = (''4294967296'', [], False)" by (simp add: cut_at_def)
  ultimately show "ParseOwner rf ''4294967296'' pw gr = Inr (4294967296, - 1)" by (simp add: ParseOwner_def lookup_id_def Let_def)
  show "map_of (m_fds w) fd = Some x \<Longrightarrow> map_of (m_owners w) x = Some (u, g) \<Longrightarrow>
    map_of (m_owners (snd (m_fchownat fd 4294967296 (- 1) w))) x = Some (0, g)"
    by (simp add: m_fchownat_def)
qed

end
