(* ===== verification/FileEdit.thy ===== *)
theory FileEdit
  imports MemFs GoJson
begin

text \<open>
  The tools that read and write file contents: \<open>files/create\<close>, \<open>files/update\<close>,
  \<open>files/read\<close>, \<open>files/content\<close> and \<open>files/stat\<close>
  (\<^verbatim>\<open>internal/tools/files/\<close>). The kernel of \<open>Fsafe\<close> is extended by the calls they make
  on open files and by those of package \<open>os\<close> that resolve a whole path, links included. The sniffing
  table of \<^verbatim>\<open>net/http\<close> and a file's mode and time texts are parameters.
\<close>

text \<open>
  \<open>f_open\<close>, \<open>f_mkdirall\<close> and \<open>f_chtimes\<close> take a path and follow links; the others work
  on a descriptor. \<open>f_read\<close> is one read of at most that many bytes, empty at the end of the file.
\<close>

record file_info =
  fi_size :: int
  fi_mode :: string
  fi_time :: string
  fi_dir :: bool

record 'w file_kernel = "'w kernel" +
  f_open :: "string \<Rightarrow> oflag list \<Rightarrow> 32 word \<Rightarrow> 'w \<Rightarrow> (goerr + int) \<times> 'w"
  f_mkdirall :: "string \<Rightarrow> 32 word \<Rightarrow> 'w \<Rightarrow> goerr option \<times> 'w"
  f_chtimes :: "string \<Rightarrow> 'w \<Rightarrow> 'w"
  f_stat :: "string \<Rightarrow> 'w \<Rightarrow> (goerr + file_info) \<times> 'w"
  f_stat_fd :: "int \<Rightarrow> 'w \<Rightarrow> (goerr + file_info) \<times> 'w"
  f_chtimes_fd :: "int \<Rightarrow> 'w \<Rightarrow> goerr option \<times> 'w"
  f_read :: "int \<Rightarrow> nat \<Rightarrow> 'w \<Rightarrow> (goerr + string) \<times> 'w"
  f_read_all :: "int \<Rightarrow> 'w \<Rightarrow> (goerr + string) \<times> 'w"
  f_seek :: "int \<Rightarrow> int \<Rightarrow> 'w \<Rightarrow> goerr option \<times> 'w"
  f_write :: "int \<Rightarrow> string \<Rightarrow> 'w \<Rightarrow> goerr option \<times> 'w"
  f_truncate :: "int \<Rightarrow> 'w \<Rightarrow> goerr option \<times> 'w"
  f_write_at :: "int \<Rightarrow> string \<Rightarrow> 'w \<Rightarrow> goerr option \<times> 'w"

definition line_feed :: char where
  "line_feed = CHR 0x0A"

definition opt_int :: "json list \<Rightarrow> int option" where
  "opt_int vs = foldl (\<lambda>a v. case v of JNull \<Rightarrow> None | JNum m e \<Rightarrow> Some (dec_int 0 [v]) | _ \<Rightarrow> a) None vs"

text \<open>The outcome of opening, with the error as text.\<close>

definition text_err :: "(fs_err + 'a) \<times> 'w \<Rightarrow> (goerr + 'a) \<times> 'w" where
  "text_err p = (case p of (Inl e, w) \<Rightarrow> (Inl (err_msg e), w) | (Inr x, w) \<Rightarrow> (Inr x, w))"

subsection \<open>files/create\<close>

record create_args =
  cf_Path :: string
  cf_Content :: string
  cf_NoFollow :: bool

definition create_fields :: "string list" where
  "create_fields = [''path'', ''content'', ''_no_follow'']"

definition create_parse :: "json option \<Rightarrow> create_args result" where
  "create_parse raw =
     (let v = (case raw of None \<Rightarrow> JNull | Some v \<Rightarrow> v); fv = (\<lambda>f. field_vals create_fields f v) in
      if raw \<noteq> None \<and> is_structdoc v \<and> list_all is_str (fv ''path'') \<and> list_all is_str (fv ''content'') \<and> list_all is_bool (fv ''_no_follow'')
      then Inr \<lparr>cf_Path = dec_string [] (fv ''path''), cf_Content = dec_string [] (fv ''content''),
                cf_NoFollow = dec_bool False (fv ''_no_follow'')\<rparr>
      else Inl ''invalid arguments'')"

definition createNoFollow :: "('w, 'z) file_kernel_scheme \<Rightarrow> create_args \<Rightarrow> 'w \<Rightarrow> string result \<times> 'w" where
  "createNoFollow K args w =
     (let flag = [O_WRONLY, O_CREATE] @ (if cf_Content args \<noteq> [] then [O_TRUNC] else []) in
      case CreateFile K (cf_Path args) flag 0x1A4 True w of
        (Inl e, w1) \<Rightarrow> (Inl (''failed to create file: '' @ err_msg e), w1)
      | (Inr fd, w1) \<Rightarrow>
          if cf_Content args = [] then
            (case f_chtimes_fd K fd w1 of
               (Some e, w2) \<Rightarrow> (Inl (''failed to touch file: '' @ e), k_close K fd w2)
             | (None, w2) \<Rightarrow> (Inr (''Successfully touched '' @ cf_Path args), k_close K fd w2))
          else
            (case f_write K fd (cf_Content args) w1 of
               (Some e, w2) \<Rightarrow> (Inl (''failed to write to file: '' @ e), k_close K fd w2)
             | (None, w2) \<Rightarrow> (Inr (''Successfully created and wrote to '' @ cf_Path args), k_close K fd w2)))"

text \<open>\<open>filepath.Dir\<close>.\<close>

definition dir_path :: "string \<Rightarrow> string" where
  "dir_path p = clean (fst (split_path p))"

definition Create :: "('w, 'z) file_kernel_scheme \<Rightarrow> json option \<Rightarrow> 'w \<Rightarrow> string result \<times> 'w" where
  "Create K raw w =
     (case create_parse raw of
        Inl e \<Rightarrow> (Inl e, w)
      | Inr args \<Rightarrow>
          if cf_Path args = [] then (Inl ''path argument is required'', w)
          else if cf_NoFollow args then createNoFollow K args w
          else case f_mkdirall K (dir_path (cf_Path args)) 0x1ED w of
            (Some e, w1) \<Rightarrow> (Inl (''failed to create parent directories: '' @ e), w1)
          | (None, w1) \<Rightarrow>
              if cf_Content args = [] then
                (case f_open K (cf_Path args) [O_CREATE, O_WRONLY] 0x1A4 w1 of
                   (Inl e, w2) \<Rightarrow> (Inl (''failed to touch file: '' @ e), w2)
                 | (Inr fd, w2) \<Rightarrow> (Inr (''Successfully touched '' @ cf_Path args), f_chtimes K (cf_Path args) (k_close K fd w2)))
              else
                (case f_open K (cf_Path args) [O_WRONLY, O_CREATE, O_TRUNC] 0x1A4 w1 of
                   (Inl e, w2) \<Rightarrow> (Inl (''failed to write to file: '' @ e), w2)
                 | (Inr fd, w2) \<Rightarrow>
                     (case f_write K fd (cf_Content args) w2 of
                        (Some e, w3) \<Rightarrow> (Inl (''failed to write to file: '' @ e), k_close K fd w3)
                      | (None, w3) \<Rightarrow> (Inr (''Successfully created and wrote to '' @ cf_Path args), k_close K fd w3))))"

subsection \<open>files/update\<close>

record update_args =
  up_Path :: string
  up_Content :: string
  up_Append :: bool
  up_StartLine :: "int option"
  up_EndLine :: "int option"
  up_NoFollow :: bool

definition update_fields :: "string list" where
  "update_fields = [''path'', ''content'', ''append'', ''start_line'', ''end_line'', ''_no_follow'']"

definition update_parse :: "json option \<Rightarrow> update_args result" where
  "update_parse raw =
     (let v = (case raw of None \<Rightarrow> JNull | Some v \<Rightarrow> v); fv = (\<lambda>f. field_vals update_fields f v) in
      if raw \<noteq> None \<and> is_structdoc v \<and> list_all is_str (fv ''path'') \<and> list_all is_str (fv ''content'') \<and> list_all is_bool (fv ''append'') \<and>
         list_all is_int (fv ''start_line'') \<and> list_all is_int (fv ''end_line'') \<and> list_all is_bool (fv ''_no_follow'')
      then Inr \<lparr>up_Path = dec_string [] (fv ''path''), up_Content = dec_string [] (fv ''content''),
                up_Append = dec_bool False (fv ''append''), up_StartLine = opt_int (fv ''start_line''),
                up_EndLine = opt_int (fv ''end_line''), up_NoFollow = dec_bool False (fv ''_no_follow'')\<rparr>
      else Inl ''invalid arguments'')"

text \<open>The new text of the file, from its old text and a range of lines.\<close>

definition replace_lines :: "int \<Rightarrow> int \<Rightarrow> string \<Rightarrow> string \<Rightarrow> string" where
  "replace_lines startLine endLine new data =
     (let hadTrailingNewline = has_suffix data [line_feed];
          lines = (if data \<noteq> [] then split_on line_feed (trim_suffix data [line_feed]) else []);
          startIdx = startLine - 1; endIdx = endLine - 1;
          lines' =
            (if int (length lines) \<le> startIdx then lines @ [trim_suffix new [line_feed]]
             else
               (let endIdx' = (if int (length lines) \<le> endIdx then int (length lines) - 1 else endIdx)
                in take (nat startIdx) lines @ split_on line_feed (trim_suffix new [line_feed]) @
                   (if endIdx' + 1 < int (length lines) then drop (nat (endIdx' + 1)) lines else [])));
          output = join_with [line_feed] lines'
      in if hadTrailingNewline \<or> data = [] then output @ [line_feed] else output)"

definition Update :: "('w, 'z) file_kernel_scheme \<Rightarrow> json option \<Rightarrow> 'w \<Rightarrow> string result \<times> 'w" where
  "Update K raw w =
     (case update_parse raw of
        Inl e \<Rightarrow> (Inl e, w)
      | Inr args \<Rightarrow>
     (if up_Path args = [] then (Inl ''path argument is required'', w)
      else if up_Append args then
        (case (if up_NoFollow args then text_err (CreateFile K (up_Path args) [O_APPEND, O_WRONLY, O_CREATE] 0x1A4 False w)
               else f_open K (up_Path args) [O_APPEND, O_WRONLY, O_CREATE] 0x1A4 w) of
           (Inl e, w1) \<Rightarrow> (Inl (''failed to open file for append: '' @ e), w1)
         | (Inr fd, w1) \<Rightarrow>
             (case f_write K fd (up_Content args) w1 of
                (Some e, w2) \<Rightarrow> (Inl (''failed to append to file: '' @ e), k_close K fd w2)
              | (None, w2) \<Rightarrow> (Inr (''Successfully appended to '' @ up_Path args), k_close K fd w2)))
      else case (up_StartLine args, up_EndLine args) of
        (Some s, Some e) \<Rightarrow>
          if s < 1 \<or> e < s then (Inl (''invalid line range: '' @ int_str s @ '' to '' @ int_str e), w)
          else
            (case (if up_NoFollow args then text_err (OpenFile K (up_Path args) [O_RDWR] w)
                   else f_open K (up_Path args) [O_RDWR] 0 w) of
               (Inl err, w1) \<Rightarrow> (Inl (''failed to open file: '' @ err), w1)
             | (Inr fd, w1) \<Rightarrow>
                 (case f_read_all K fd w1 of
                    (Inl err, w2) \<Rightarrow> (Inl (''failed to read file: '' @ err), k_close K fd w2)
                  | (Inr data, w2) \<Rightarrow>
                      (case f_truncate K fd w2 of
                         (Some err, w3) \<Rightarrow> (Inl (''failed to write updated file: '' @ err), k_close K fd w3)
                       | (None, w3) \<Rightarrow>
                           (case f_write_at K fd (replace_lines s e (up_Content args) data) w3 of
                              (Some err, w4) \<Rightarrow> (Inl (''failed to write updated file: '' @ err), k_close K fd w4)
                            | (None, w4) \<Rightarrow>
                                (Inr (''Successfully updated lines '' @ int_str s @ ''-'' @ int_str e @ '' in '' @ up_Path args),
                                 k_close K fd w4)))))
      | _ \<Rightarrow> (Inl (''must specify either 'append' or both 'start_line' and 'end_line'' @ [CHR 0x27]), w)))"

subsection \<open>files/read and files/content\<close>

text \<open>\<open>io.ReadFull\<close>: reads until that many bytes are there or the file ends.\<close>

function read_full :: "('w, 'z) file_kernel_scheme \<Rightarrow> int \<Rightarrow> nat \<Rightarrow> 'w \<Rightarrow> (goerr + string) \<times> 'w" where
  "read_full K fd n w =
     (if n = 0 then (Inr [], w)
      else case f_read K fd n w of
        (Inl e, w1) \<Rightarrow> (Inl e, w1)
      | (Inr [], w1) \<Rightarrow> (Inr [], w1)
      | (Inr (c # cs), w1) \<Rightarrow>
          (case read_full K fd (n - length (c # cs)) w1 of
             (Inl e, w2) \<Rightarrow> (Inl e, w2)
           | (Inr rest, w2) \<Rightarrow> (Inr ((c # cs) @ rest), w2)))"
  by pat_completeness auto

termination read_full
  by (relation "measure (\<lambda>(K, fd, n, w). n)") auto

declare read_full.simps [simp del]

text \<open>
  The first bytes decide whether the file is text: a type that is not text is believed only when a zero
  byte confirms it. Afterwards the file is read from its start again.
\<close>

definition sniff_file :: "(string \<Rightarrow> string) \<Rightarrow> ('w, 'z) file_kernel_scheme \<Rightarrow> int \<Rightarrow> 'w \<Rightarrow> goerr option \<times> 'w" where
  "sniff_file detect K fd w =
     (case f_read K fd 512 w of
        (Inl e, w1) \<Rightarrow> (Some (''failed to read file for type detection: '' @ e), w1)
      | (Inr buf, w1) \<Rightarrow>
          if buf = [] then (None, w1)
          else if \<not> has_prefix (detect buf) ''text/'' \<and> detect buf \<noteq> ''application/json'' \<and> CHR 0x00 \<in> set buf
          then (Some (''cannot read binary file (detected type: '' @ detect buf @ '')''), w1)
          else case f_seek K fd 0 w1 of
            (Some e, w2) \<Rightarrow> (Some (''failed to reset file pointer: '' @ e), w2)
          | (None, w2) \<Rightarrow> (None, w2))"

record read_args =
  rd_Path :: string
  rd_Offset :: "int option"
  rd_Limit :: "int option"
  rd_StartLine :: "int option"
  rd_EndLine :: "int option"
  rd_NoFollow :: bool

definition read_fields :: "string list" where
  "read_fields = [''path'', ''offset'', ''limit'', ''start_line'', ''end_line'', ''_no_follow'']"

definition read_parse :: "json option \<Rightarrow> read_args result" where
  "read_parse raw =
     (let v = (case raw of None \<Rightarrow> JNull | Some v \<Rightarrow> v); fv = (\<lambda>f. field_vals read_fields f v) in
      if raw \<noteq> None \<and> is_structdoc v \<and> list_all is_str (fv ''path'') \<and>
         list_all (\<lambda>f. list_all is_int (fv f)) [''offset'', ''limit'', ''start_line'', ''end_line''] \<and>
         list_all is_bool (fv ''_no_follow'')
      then Inr \<lparr>rd_Path = dec_string [] (fv ''path''), rd_Offset = opt_int (fv ''offset''), rd_Limit = opt_int (fv ''limit''),
                rd_StartLine = opt_int (fv ''start_line''), rd_EndLine = opt_int (fv ''end_line''),
                rd_NoFollow = dec_bool False (fv ''_no_follow'')\<rparr>
      else Inl ''invalid arguments'')"

definition maxSafeBytes :: nat where
  "maxSafeBytes = 10240"

text \<open>
  The loop over the scanner's lines, from the line with number \<open>n\<close>: the text collected and the
  number of lines seen. A line that does not fit the scanner's buffer of 64 KiB ends it with an error. An
  \<open>end1\<close> of -1 stands for no end.
\<close>

fun scan_range :: "int \<Rightarrow> int \<Rightarrow> int \<Rightarrow> string \<Rightarrow> string list \<Rightarrow> (string \<times> int) result" where
  "scan_range start end1 n acc [] = Inr (acc, n)"
| "scan_range start end1 n acc (l # ls) =
     (if 65536 \<le> length l then Inl ''bufio.Scanner: token too long''
      else if start \<le> n then
        (if end1 \<noteq> - 1 \<and> end1 < n then Inr (acc, n)
         else scan_range start end1 (n + 1) (acc @ drop_cr l @ [line_feed]) ls)
      else scan_range start end1 (n + 1) acc ls)"

definition read_range :: "int option \<Rightarrow> int option \<Rightarrow> string \<Rightarrow> string result" where
  "read_range startLine endLine data =
     (let start = (case startLine of Some s \<Rightarrow> if 0 < s then s else 1 | None \<Rightarrow> 1);
          end1 = (case endLine of Some e \<Rightarrow> if start \<le> e then e else - 1 | None \<Rightarrow> - 1)
      in case scan_range start end1 1 [] (raw_lines data) of
           Inl e \<Rightarrow> Inl (''error reading lines: '' @ e)
         | Inr (result, n) \<Rightarrow>
             if result = [] \<and> n - 1 < start
             then Inl (''start_line '' @ int_str start @ '' is past the end of the file ('' @ int_str (n - 1) @ '' lines)'')
             else Inr result)"

definition truncated_note :: "string \<Rightarrow> string" where
  "truncated_note hint = [line_feed, line_feed] @ ''[WARNING: File truncated at safe context limit. '' @ hint @ '']''"

definition read_capped :: "string \<Rightarrow> ('w, 'z) file_kernel_scheme \<Rightarrow> int \<Rightarrow> 'w \<Rightarrow> string result \<times> 'w" where
  "read_capped hint K fd w =
     (case read_full K fd maxSafeBytes w of
        (Inl e, w1) \<Rightarrow> (Inl (''read error: '' @ e), w1)
      | (Inr buf, w1) \<Rightarrow> (Inr (buf @ (if length buf = maxSafeBytes then truncated_note hint else [])), w1))"

definition read_open :: "('w, 'z) file_kernel_scheme \<Rightarrow> read_args \<Rightarrow> int \<Rightarrow> 'w \<Rightarrow> string result \<times> 'w" where
  "read_open K args fd w =
     (if rd_StartLine args \<noteq> None \<or> rd_EndLine args \<noteq> None then
        (case f_read_all K fd w of
           (Inl e, w1) \<Rightarrow> (Inl (''error reading lines: '' @ e), w1)
         | (Inr data, w1) \<Rightarrow> (read_range (rd_StartLine args) (rd_EndLine args) data, w1))
      else if rd_Offset args \<noteq> None \<or> rd_Limit args \<noteq> None then
        (let offset = (case rd_Offset args of Some i \<Rightarrow> if 0 < i then i else 0 | None \<Rightarrow> 0) in
         case f_seek K fd offset w of
           (Some e, w1) \<Rightarrow> (Inl (''failed to seek: '' @ e), w1)
         | (None, w1) \<Rightarrow>
             (case rd_Limit args of
                Some lim \<Rightarrow>
                  if 0 < lim then
                    (case read_full K fd (nat lim) w1 of
                       (Inl e, w2) \<Rightarrow> (Inl (''read error: '' @ e), w2)
                     | (Inr buf, w2) \<Rightarrow> (Inr buf, w2))
                  else read_capped ''Pass explicit limit to bypass.'' K fd w1
              | None \<Rightarrow> read_capped ''Pass explicit limit to bypass.'' K fd w1))
      else read_capped ''Use start_line/end_line or offset/limit for full file inspection.'' K fd w)"

definition Read :: "(string \<Rightarrow> string) \<Rightarrow> ('w, 'z) file_kernel_scheme \<Rightarrow> json option \<Rightarrow> 'w \<Rightarrow> string result \<times> 'w" where
  "Read detect K raw w =
     (case read_parse raw of
        Inl e \<Rightarrow> (Inl e, w)
      | Inr args \<Rightarrow>
          if rd_Path args = [] then (Inl ''path argument is required'', w)
          else case (if rd_NoFollow args then text_err (OpenFile K (rd_Path args) [O_RDONLY] w)
                     else f_open K (rd_Path args) [O_RDONLY] 0 w) of
            (Inl e, w1) \<Rightarrow> (Inl (''failed to open file: '' @ e), w1)
          | (Inr fd, w1) \<Rightarrow>
              (case sniff_file detect K fd w1 of
                 (Some e, w2) \<Rightarrow> (Inl e, k_close K fd w2)
               | (None, w2) \<Rightarrow> (let (r, w3) = read_open K args fd w2 in (r, k_close K fd w3))))"

definition content_fields :: "string list" where
  "content_fields = [''path'', ''_no_follow'']"

definition content_parse :: "json option \<Rightarrow> (string \<times> bool) result" where
  "content_parse raw =
     (let v = (case raw of None \<Rightarrow> JNull | Some v \<Rightarrow> v); fv = (\<lambda>f. field_vals content_fields f v) in
      if raw \<noteq> None \<and> is_structdoc v \<and> list_all is_str (fv ''path'') \<and> list_all is_bool (fv ''_no_follow'')
      then Inr (dec_string [] (fv ''path''), dec_bool False (fv ''_no_follow''))
      else Inl ''invalid arguments'')"

definition Content1 :: "(string \<Rightarrow> string) \<Rightarrow> ('w, 'z) file_kernel_scheme \<Rightarrow> json option \<Rightarrow> 'w \<Rightarrow> string result \<times> 'w" where
  "Content1 detect K raw w =
     (case content_parse raw of
        Inl e \<Rightarrow> (Inl e, w)
      | Inr (path, noFollow) \<Rightarrow>
          if path = [] then (Inl ''path argument is required'', w)
          else case (if noFollow then text_err (OpenFile K path [O_RDONLY] w) else f_open K path [O_RDONLY] 0 w) of
            (Inl e, w1) \<Rightarrow> (Inl (''failed to open file '' @ path @ '': '' @ e), w1)
          | (Inr fd, w1) \<Rightarrow>
              (case sniff_file detect K fd w1 of
                 (Some e, w2) \<Rightarrow> (Inl e, k_close K fd w2)
               | (None, w2) \<Rightarrow>
                   (case read_full K fd maxSafeBytes w2 of
                      (Inl e, w3) \<Rightarrow> (Inl (''failed to read file contents: '' @ e), k_close K fd w3)
                    | (Inr buf, w3) \<Rightarrow>
                        if length buf = maxSafeBytes then
                          (case f_read K fd 1 w3 of
                             (Inr (c # _), w4) \<Rightarrow>
                               (Inr (buf @ [line_feed, line_feed] @ ''[WARNING: File truncated at 10KB context limit]''), k_close K fd w4)
                           | (_, w4) \<Rightarrow> (Inr buf, k_close K fd w4))
                        else (Inr buf, k_close K fd w3))))"

subsection \<open>files/stat\<close>

definition Stat1 :: "('w, 'z) file_kernel_scheme \<Rightarrow> json option \<Rightarrow> 'w \<Rightarrow> json result \<times> 'w" where
  "Stat1 K raw w =
     (case content_parse raw of
        Inl e \<Rightarrow> (Inl e, w)
      | Inr (path, noFollow) \<Rightarrow>
          if path = [] then (Inl ''path argument is required'', w)
          else case (if noFollow then
                       (case text_err (Open K path w) of
                          (Inl e, w1) \<Rightarrow> (Inl e, w1)
                        | (Inr n, w1) \<Rightarrow> (let (r, w2) = f_stat_fd K (FD n) w1 in (r, k_close K (FD n) w2)))
                     else f_stat K path w) of
            (Inl e, w1) \<Rightarrow> (Inl (''failed to stat file '' @ path @ '': '' @ e), w1)
          | (Inr info, w1) \<Rightarrow>
              (Inr (JObj [(''name'', JStr (base_path path)), (''size'', JNum (fi_size info) 0), (''mode'', JStr (fi_mode info)),
                 (''modified_time'', JStr (fi_time info)), (''is_dir'', JBool (fi_dir info))]), w1))"

subsection \<open>Replacing lines\<close>

text \<open>The lines of a text, without the piece after a final newline.\<close>

definition text_lines :: "string \<Rightarrow> string list" where
  "text_lines data = (if data = [] then [] else split_on line_feed (trim_suffix data [line_feed]))"

definition ends_line :: "string \<Rightarrow> bool" where
  "ends_line data \<longleftrightarrow> data = [] \<or> has_suffix data [line_feed]"

lemma split_on_join_append:
  "\<forall>l \<in> set ls. c \<notin> set l \<Longrightarrow> split_on c (join_with [c] (ls @ [x])) = ls @ split_on c x"
proof (induction ls)
  case (Cons l ls)
  have "join_with [c] (l # ls @ [x]) = l @ c # join_with [c] (ls @ [x])" by (cases "ls @ [x]") auto
  then show ?case using Cons split_on_append [of c l] split_on_free [of c l] by simp
qed simp

lemma text_lines_clean: "l \<in> set (text_lines data) \<Longrightarrow> line_feed \<notin> set l"
  by (auto simp: text_lines_def split: if_splits dest: split_on_no_sep)

lemma replace_lines_pieces:
  assumes "1 \<le> s" and "s \<le> e"
  shows "split_on line_feed (replace_lines s e new data) =
    take (nat (s - 1)) (text_lines data) @ split_on line_feed (trim_suffix new [line_feed]) @ drop (nat e) (text_lines data) @
    (if ends_line data then [[]] else [])"
proof -
  define ls where "ls = text_lines data"
  define ps where "ps = split_on line_feed (trim_suffix new [line_feed])"
  define t where "t = (if ends_line data then [line_feed] else [])"
  have ends: "split_on line_feed (x @ t) = split_on line_feed x @ (if ends_line data then [[]] else [])" for x
    using split_on_append [of line_feed x "[]"] by (simp add: t_def)
  define e' where "e' = (if int (length ls) \<le> e - 1 then int (length ls) - 1 else e - 1)"
  have tl: "(if data \<noteq> [] then split_on line_feed (trim_suffix data [line_feed]) else []) = ls" by (simp add: ls_def text_lines_def)
  have r0: "replace_lines s e new data = join_with [line_feed] (if int (length ls) \<le> s - 1 then ls @ [trim_suffix new [line_feed]]
      else take (nat (s - 1)) ls @ ps @ (if e' + 1 < int (length ls) then drop (nat (e' + 1)) ls else [])) @ t"
    unfolding replace_lines_def Let_def tl ps_def [symmetric] e'_def [symmetric] by (auto simp: t_def ends_line_def)
  show ?thesis
  proof (cases "int (length ls) \<le> s - 1")
    case True
    then have "replace_lines s e new data = join_with [line_feed] (ls @ [trim_suffix new [line_feed]]) @ t" using r0 by simp
    moreover have "take (nat (s - 1)) ls = ls" "drop (nat e) ls = []" using True assms by auto
    ultimately show ?thesis using split_on_join_append [of ls line_feed "trim_suffix new [line_feed]"] text_lines_clean
      by (simp add: ends ls_def ps_def)
  next
    case False
    have "(if e' + 1 < int (length ls) then drop (nat (e' + 1)) ls else []) = drop (nat e) ls"
      using assms by (auto simp: e'_def)
    then have r: "replace_lines s e new data = join_with [line_feed] (take (nat (s - 1)) ls @ ps @ drop (nat e) ls) @ t"
      using False r0 by simp
    have "\<forall>l \<in> set (take (nat (s - 1)) ls @ ps @ drop (nat e) ls). line_feed \<notin> set l"
      using text_lines_clean split_on_no_sep by (auto simp: ls_def ps_def dest: in_set_takeD in_set_dropD)
    moreover have "ps \<noteq> []" by (simp add: ps_def)
    ultimately have "split_on line_feed (join_with [line_feed] (take (nat (s - 1)) ls @ ps @ drop (nat e) ls)) =
        take (nat (s - 1)) ls @ ps @ drop (nat e) ls" by (intro split_on_join) auto
    then show ?thesis by (simp add: r ends ls_def ps_def)
  qed
qed

definition line_out :: "string \<Rightarrow> string" where
  "line_out l = drop_cr l @ [line_feed]"

definition short_line :: "string \<Rightarrow> bool" where
  "short_line l \<longleftrightarrow> length l < 65536"

lemma scan_range_slice:
  assumes "list_all short_line ls" and "1 \<le> start" and "start \<le> end1" and "n \<le> end1 + 1"
  shows "\<exists>m. scan_range start end1 n acc ls =
    Inr (acc @ concat (map line_out (take (nat (end1 + 1 - max n start)) (drop (nat (start - n)) ls))), m)"
  using assms
proof (induction ls arbitrary: n acc)
  case (Cons l ls)
  have sh: "\<not> 65536 \<le> length l" "list_all short_line ls" using Cons.prems(1) by (auto simp: short_line_def list_all_iff)
  consider "n < start" | "start \<le> n" "n \<le> end1" | "n = end1 + 1" using Cons.prems by linarith
  then show ?case
  proof cases
    case 1
    then have "nat (start - n) = Suc (nat (start - (n + 1)))" "max (n + 1) start = max n start" by auto
    then show ?thesis using Cons.IH [of "n + 1" acc] Cons.prems sh 1 by simp
  next
    case 2
    then have "nat (end1 + 1 - max n start) = Suc (nat (end1 + 1 - max (n + 1) start))" "nat (start - n) = 0" "nat (start - (n + 1)) = 0"
      by auto
    then show ?thesis using Cons.IH [of "n + 1" "acc @ line_out l"] Cons.prems sh 2 by (auto simp: line_out_def)
  next
    case 3
    then show ?thesis using Cons.prems sh by simp
  qed
qed simp

lemma concat_lines: "ps \<noteq> [] \<Longrightarrow> concat (map (\<lambda>l. l @ [c]) ps) = join_with [c] ps @ [c]"
  by (induction "[c]" ps rule: join_with.induct) auto

lemma read_range_slice:
  assumes "list_all short_line (raw_lines data)" and "1 \<le> s" and "s \<le> e" and "s \<le> int (length (raw_lines data))"
  shows "read_range (Some s) (Some e) data =
    Inr (concat (map line_out (take (nat (e + 1 - s)) (drop (nat (s - 1)) (raw_lines data)))))"
proof -
  obtain m where m: "scan_range s e 1 [] (raw_lines data) =
      Inr (concat (map line_out (take (nat (e + 1 - s)) (drop (nat (s - 1)) (raw_lines data)))), m)"
    using scan_range_slice [OF assms(1-3), of 1 "[]"] assms(2,3) by (auto simp: max_def)
  have "nat (s - 1) < length (raw_lines data)" using assms(2,4) by linarith
  then obtain l ls where "drop (nat (s - 1)) (raw_lines data) = l # ls" by (metis Cons_nth_drop_Suc)
  moreover have "nat (e + 1 - s) \<noteq> 0" using assms(3) by simp
  ultimately have "concat (map line_out (take (nat (e + 1 - s)) (drop (nat (s - 1)) (raw_lines data)))) \<noteq> []"
    by (cases "nat (e + 1 - s)") (auto simp: line_out_def)
  then show ?thesis using m assms(2,3) by (simp add: read_range_def Let_def)
qed



subsection \<open>Writing without following links\<close>

text \<open>The calls on an open file change that file only.\<close>

locale file_fs = linux_fs K V
  for K :: "('w, 'z) file_kernel_scheme" and V :: "('w, 'o) fs_view" +
  assumes chtimes_fd: "fds V w fd = Some x \<Longrightarrow> changes_only V {x} w (snd (f_chtimes_fd K fd w))"
    and writes: "fds V w fd = Some x \<Longrightarrow> changes_only V {x} w (snd (f_write K fd txt1 w))"
    and truncates: "fds V w fd = Some x \<Longrightarrow> changes_only V {x} w (snd (f_truncate K fd w))"
    and writes_at: "fds V w fd = Some x \<Longrightarrow> changes_only V {x} w (snd (f_write_at K fd txt1 w))"
    and reads_all: "harmless V w (snd (f_read_all K fd w))"
begin

lemma edit_confined:
  assumes "later V w w1" and "touched V w \<subseteq> touched V w1" and "touched V w1 \<subseteq> touched V w \<union> along V w (rootObj V) (path_comps path) w1"
    and "fds V w fd = None" and "fds V w1 = (fds V w)(fd \<mapsto> x)" and "nofollow_path V w (rootObj V) (path_comps path) w1 x"
    and "changes_only V {x} w1 w2"
  shows "fds V (k_close K fd w2) = fds V w \<and>
    touched V (k_close K fd w2) \<subseteq> touched V w \<union> along V w (rootObj V) (path_comps path) (k_close K fd w2)"
proof -
  let ?w = "k_close K fd w2"
  have l: "later V w1 ?w" using assms(7) later_trans [OF _ close_simps(1)] by (simp add: changes_only_def)
  have "x \<in> along V w (rootObj V) (path_comps path) ?w" using nofollow_later [OF assms(6) l] by (auto simp: along_def)
  moreover have "along V w (rootObj V) (path_comps path) w1 \<subseteq> along V w (rootObj V) (path_comps path) ?w" by (rule along_later [OF l])
  moreover have "touched V ?w \<subseteq> touched V w1 \<union> {x}" using assms(7) by (simp add: changes_only_def)
  moreover have "fds V ?w = fds V w" using assms(4,5,7) by (auto simp: changes_only_def fun_eq_iff)
  ultimately show ?thesis using assms(3) by blast
qed

lemma created_confined:
  assumes "CreateFile K path flag perm mkdirs w = (Inr fd, w1)"
    and "\<And>x. fds V w1 fd = Some x \<Longrightarrow> changes_only V {x} w1 w2"
  shows "fds V (k_close K fd w2) = fds V w \<and>
    touched V (k_close K fd w2) \<subseteq> touched V w \<union> along V w (rootObj V) (path_comps path) (k_close K fd w2)"
proof -
  note sp = CreateFile_spec [OF assms(1), simplified]
  then obtain x where x: "fds V w fd = None" "fds V w1 = (fds V w)(fd \<mapsto> x)" "nofollow_path V w (rootObj V) (path_comps path) w1 x"
    by blast
  have "changes_only V {x} w1 w2" using assms(2) x(2) by simp
  then show ?thesis using edit_confined sp x by blast
qed

lemma opened_confined:
  assumes "OpenFile K path [O_RDWR] w = (Inr fd, w1)" and "\<And>x. fds V w1 fd = Some x \<Longrightarrow> changes_only V {x} w1 w2"
  shows "fds V (k_close K fd w2) = fds V w \<and>
    touched V (k_close K fd w2) \<subseteq> touched V w \<union> along V w (rootObj V) (path_comps path) (k_close K fd w2)"
proof -
  note sp = OpenFile_spec [OF assms(1), simplified]
  then obtain x where x: "fds V w fd = None" "fds V w1 = (fds V w)(fd \<mapsto> x)" "nofollow_path V w (rootObj V) (path_comps path) w1 x"
    "touched V w1 \<subseteq> touched V w" by blast
  have c: "changes_only V {x} w1 w2" using assms(2) x(2) by simp
  have "touched V w1 \<subseteq> touched V w \<union> along V w (rootObj V) (path_comps path) w1" using x(4) by blast
  then show ?thesis using edit_confined [OF _ _ _ x(1-3) c] sp by blast
qed

lemma failed_confined:
  "CreateFile K path flag perm mkdirs w = (Inl e, w1) \<Longrightarrow>
     fds V w1 = fds V w \<and> touched V w1 \<subseteq> touched V w \<union> along V w (rootObj V) (path_comps path) w1"
  "OpenFile K path flag w = (Inl e, w1) \<Longrightarrow>
     fds V w1 = fds V w \<and> touched V w1 \<subseteq> touched V w \<union> along V w (rootObj V) (path_comps path) w1"
  using CreateFile_spec [of path flag perm mkdirs w "Inl e" w1] OpenFile_spec [of path flag w "Inl e" w1] by auto

lemma createNoFollow_confined:
  assumes "createNoFollow K args w = (r, w')"
  shows "fds V w' = fds V w \<and> touched V w' \<subseteq> touched V w \<union> along V w (rootObj V) (path_comps (cf_Path args)) w'"
proof -
  define flag where "flag = [O_WRONLY, O_CREATE] @ (if cf_Content args \<noteq> [] then [O_TRUNC] else [])"
  obtain rc w1 where c: "CreateFile K (cf_Path args) flag 0x1A4 True w = (rc, w1)" by fastforce
  note a = assms [unfolded createNoFollow_def Let_def flag_def [symmetric] c]
  show ?thesis
  proof (cases rc)
    case (Inl e)
    then have "w' = w1" using a by simp
    then show ?thesis using failed_confined(1) c Inl by blast
  next
    case (Inr fd)
    define w2 where "w2 = (if cf_Content args = [] then snd (f_chtimes_fd K fd w1) else snd (f_write K fd (cf_Content args) w1))"
    have "w' = k_close K fd w2" using a Inr by (auto simp: w2_def split: prod.splits option.splits if_splits)
    then show ?thesis using created_confined [OF c [unfolded Inr], of w2] chtimes_fd writes by (simp add: w2_def)
  qed
qed

lemma Create_confined:
  assumes "Create K raw w = (r, w')" and "create_parse raw = Inr args" and "cf_NoFollow args"
  shows "fds V w' = fds V w \<and> touched V w' \<subseteq> touched V w \<union> along V w (rootObj V) (path_comps (cf_Path args)) w'"
proof (cases "cf_Path args = []")
  case True
  then show ?thesis using assms by (simp add: Create_def)
next
  case False
  then have "createNoFollow K args w = (r, w')" using assms by (simp add: Create_def)
  then show ?thesis by (rule createNoFollow_confined)
qed

lemma changes_again: "changes_only V xs w1 w2 \<Longrightarrow> changes_only V xs w2 w3 \<Longrightarrow> changes_only V xs w1 w3"
  using later_trans [of w1 w2 w3] by (auto simp: changes_only_def)

lemma harmless_changes: "harmless V w1 w2 \<Longrightarrow> changes_only V xs w1 w2"
  by (auto simp: harmless_def changes_only_def)

text \<open>Reading a file and writing it back: each step changes at most that file.\<close>

lemma rewrite_confined:
  assumes "fds V w1 fd = Some x"
    and "w2 = snd (f_read_all K fd w1)" and "w3 = snd (f_truncate K fd w2)" and "w4 = snd (f_write_at K fd out w3)"
    and "w5 \<in> {w2, w3, w4}"
  shows "changes_only V {x} w1 w5"
proof -
  have c2: "changes_only V {x} w1 w2" using reads_all assms(2) by (simp add: harmless_changes)
  then have "fds V w2 fd = Some x" using assms(1) by (simp add: changes_only_def)
  then have c3: "changes_only V {x} w1 w3" using truncates [of w2 fd x] assms(3) changes_again [OF c2] by simp
  then have "fds V w3 fd = Some x" using assms(1) by (simp add: changes_only_def)
  then have "changes_only V {x} w1 w4" using writes_at [of w3 fd x out] assms(4) changes_again [OF c3] by simp
  then show ?thesis using assms(5) c2 c3 by blast
qed

lemma Update_confined:
  assumes "Update K raw w = (r, w')" and "update_parse raw = Inr args" and "up_NoFollow args"
  shows "fds V w' = fds V w \<and> touched V w' \<subseteq> touched V w \<union> along V w (rootObj V) (path_comps (up_Path args)) w'"
proof -
  consider (empty) "up_Path args = []"
    | (bad) "up_Path args \<noteq> []" "\<not> up_Append args" "up_StartLine args = None \<or> up_EndLine args = None"
    | (range) s e where "up_Path args \<noteq> []" "\<not> up_Append args" "up_StartLine args = Some s" "up_EndLine args = Some e" "s < 1 \<or> e < s"
    | (app) "up_Path args \<noteq> []" "up_Append args"
    | (lines) s e where "up_Path args \<noteq> []" "\<not> up_Append args" "up_StartLine args = Some s" "up_EndLine args = Some e" "\<not> (s < 1 \<or> e < s)"
    by (metis option.exhaust)
  then show ?thesis
  proof cases
    case empty
    then show ?thesis using assms(1,2) by (simp add: Update_def)
  next
    case bad
    then have "w' = w" using assms(1,2) by (cases "up_StartLine args") (simp_all add: Update_def)
    then show ?thesis by simp
  next
    case (range s e)
    then have "w' = w" using assms(1,2) by (simp add: Update_def)
    then show ?thesis by simp
  next
    case app
    obtain rc w1 where c: "CreateFile K (up_Path args) [O_APPEND, O_WRONLY, O_CREATE] 0x1A4 False w = (rc, w1)" by fastforce
    show ?thesis
    proof (cases rc)
      case (Inl e)
      then have "w' = w1" using assms app c by (simp add: Update_def text_err_def)
      then show ?thesis using failed_confined(1) c Inl by blast
    next
      case (Inr fd)
      have "w' = k_close K fd (snd (f_write K fd (up_Content args) w1))"
        using assms app c Inr by (auto simp: Update_def text_err_def split: prod.splits option.splits)
      then show ?thesis using created_confined [OF c [unfolded Inr]] writes by simp
    qed
  next
    case (lines s e)
    obtain rc w1 where c: "OpenFile K (up_Path args) [O_RDWR] w = (rc, w1)" by fastforce
    show ?thesis
    proof (cases rc)
      case (Inl err)
      then have "w' = w1" using assms lines c by (auto simp: Update_def text_err_def)
      then show ?thesis using failed_confined(2) c Inl by blast
    next
      case (Inr fd)
      obtain rd w2 where d: "f_read_all K fd w1 = (rd, w2)" by fastforce
      obtain rt w3 where t: "f_truncate K fd w2 = (rt, w3)" by fastforce
      obtain w5 where w5: "w' = k_close K fd w5" "\<exists>out. w5 \<in> {w2, w3, snd (f_write_at K fd out w3)}"
      proof (cases "\<exists>data. rd = Inr data \<and> rt = None")
        case True
        then obtain data where dt: "rd = Inr data" "rt = None" by blast
        let ?out = "replace_lines s e (up_Content args) data"
        obtain rw w4 where wr: "f_write_at K fd ?out w3 = (rw, w4)" by fastforce
        have "w' = k_close K fd w4" using assms lines c Inr d t dt wr by (cases rw) (simp_all add: Update_def text_err_def)
        moreover have "w4 = snd (f_write_at K fd ?out w3)" using wr by simp
        ultimately show ?thesis using that by blast
      next
        case False
        then have "w' = k_close K fd w2 \<or> w' = k_close K fd w3"
          using assms lines c Inr d t by (cases rd; cases rt) (simp_all add: Update_def text_err_def)
        then show ?thesis using that by blast
      qed
      then obtain out where out: "w5 \<in> {w2, w3, snd (f_write_at K fd out w3)}" by blast
      have "changes_only V {x} w1 w5" if "fds V w1 fd = Some x" for x
        by (rule rewrite_confined [OF that _ _ refl out]) (simp_all add: d t)
      then show ?thesis using opened_confined [OF c [unfolded Inr]] w5(1) by simp
    qed
  qed
qed

end

text \<open>
  C16. With \<open>_no_follow\<close> set, whatever other processes do to the tree meanwhile, \<open>files/create\<close> and
  \<open>files/update\<close> change only the object reached over the requested path, or a directory on the way
  to it in which they made an entry, through real directories and never through a symbolic link. They leave
  no descriptor open.
\<close>

theorem file_writes_confined:
  assumes "file_fs K V"
  shows "(create_parse raw = Inr ca \<and> cf_NoFollow ca \<and> Create K raw w = (r, w') \<longrightarrow>
      fds V w' = fds V w \<and> touched V w' \<subseteq> touched V w \<union> along V w (rootObj V) (path_comps (cf_Path ca)) w') \<and>
    (update_parse raw = Inr ua \<and> up_NoFollow ua \<and> Update K raw w = (r, w') \<longrightarrow>
      fds V w' = fds V w \<and> touched V w' \<subseteq> touched V w \<union> along V w (rootObj V) (path_comps (up_Path ua)) w')"
  using file_fs.Create_confined [OF assms] file_fs.Update_confined [OF assms] by blast

subsection \<open>Files on the machine in memory\<close>

definition m_text :: "mem \<Rightarrow> obj \<Rightarrow> string" where
  "m_text w x = (case map_of (m_data w) x of Some s \<Rightarrow> s | None \<Rightarrow> [])"

definition m_set_text :: "int \<Rightarrow> (string \<Rightarrow> string) \<Rightarrow> mem \<Rightarrow> goerr option \<times> mem" where
  "m_set_text fd f w =
     (case map_of (m_fds w) fd of
        None \<Rightarrow> (Some ''bad file descriptor'', tick w)
      | Some x \<Rightarrow> (None, tick (w\<lparr>m_data := map_put x (f (m_text w x)) (m_data w), m_touched := x # m_touched w\<rparr>)))"

definition m_read_at :: "int \<Rightarrow> nat option \<Rightarrow> mem \<Rightarrow> (goerr + string) \<times> mem" where
  "m_read_at fd n w =
     (case map_of (m_fds w) fd of
        None \<Rightarrow> (Inl ''bad file descriptor'', tick w)
      | Some x \<Rightarrow>
          (let p = (case map_of (m_pos w) fd of Some p \<Rightarrow> p | None \<Rightarrow> 0); rest = drop p (m_text w x);
               s = (case n of None \<Rightarrow> rest | Some k \<Rightarrow> take k rest)
           in (Inr s, tick (w\<lparr>m_pos := map_put fd (p + length s) (m_pos w)\<rparr>))))"

text \<open>Resolving a path the way the kernel does for package \<open>os\<close>: links are followed.\<close>

fun m_path :: "mem \<Rightarrow> obj \<Rightarrow> string list \<Rightarrow> obj option" where
  "m_path w x [] = Some x"
| "m_path w x (c # cs) =
     (case m_lookup w x c of
        None \<Rightarrow> None
      | Some y \<Rightarrow> m_path w (case map_of (m_links w) y of Some z \<Rightarrow> z | None \<Rightarrow> y) cs)"

definition m_os_open :: "string \<Rightarrow> oflag list \<Rightarrow> 32 word \<Rightarrow> mem \<Rightarrow> (goerr + int) \<times> mem" where
  "m_os_open path flags perm w =
     (case m_path w m_root (path_comps path) of
        None \<Rightarrow> (Inl (''open '' @ path @ '': no such file or directory''), tick w)
      | Some x \<Rightarrow> (let (fd, w1) = alloc_fd x w in (Inr fd, tick w1)))"

definition mem_files :: "mem file_kernel" where
  "mem_files =
     \<lparr>k_open_root = ret_fd m_root, k_openat = m_openat, k_fstat = m_fstat, k_close = m_close, k_reopen = m_reopen,
      k_getdents = m_getdents, k_chmod = m_chmod, k_fchownat = m_fchownat, k_mkdirat = m_mkdirat, k_create = m_create,
      f_open = m_os_open, f_mkdirall = (\<lambda>_ _ w. (None, tick w)), f_chtimes = (\<lambda>_ w. tick w),
      f_stat = (\<lambda>_ w. (Inl ''no such file or directory'', tick w)), f_stat_fd = (\<lambda>_ w. (Inl ''bad file descriptor'', tick w)),
      f_chtimes_fd = (\<lambda>fd. m_set_text fd (\<lambda>s. s)), f_read = (\<lambda>fd n. m_read_at fd (Some n)), f_read_all = (\<lambda>fd. m_read_at fd None),
      f_seek = (\<lambda>fd p w. (None, tick (w\<lparr>m_pos := map_put fd (nat p) (m_pos w)\<rparr>))),
      f_write = (\<lambda>fd t. m_set_text fd (\<lambda>s. s @ t)), f_truncate = (\<lambda>fd. m_set_text fd (\<lambda>_. [])),
      f_write_at = (\<lambda>fd t. m_set_text fd (\<lambda>_. t))\<rparr>"

lemma mem_set_text: "map_of (m_fds w) fd = Some x \<Longrightarrow> changes_only mem_view {x} w (snd (m_set_text fd f w))"
  by (auto simp: m_set_text_def changes_only_def)

lemma mem_read_at: "harmless mem_view w (snd (m_read_at fd n w))"
  by (auto simp: m_read_at_def harmless_def Let_def split: option.splits)

lemma mem_files_linux: "linux_fs mem_files mem_view"
proof -
  have "k_open_root mem_files = k_open_root mem_kernel" "k_openat mem_files = k_openat mem_kernel"
    "k_fstat mem_files = k_fstat mem_kernel" "k_close mem_files = k_close mem_kernel" "k_reopen mem_files = k_reopen mem_kernel"
    "k_getdents mem_files = k_getdents mem_kernel" "k_chmod mem_files = k_chmod mem_kernel" "k_fchownat mem_files = k_fchownat mem_kernel"
    "k_mkdirat mem_files = k_mkdirat mem_kernel" "k_create mem_files = k_create mem_kernel"
    by (simp_all add: mem_files_def mem_kernel_def)
  then show ?thesis using mem.linux_fs_axioms unfolding linux_fs_def by simp
qed

interpretation memf: file_fs mem_files mem_view
proof (rule file_fs.intro [OF mem_files_linux], unfold_locales, goal_cases)
  case (5 w fd)
  show ?case using mem_read_at by (simp add: mem_files_def)
qed (use mem_set_text in \<open>auto simp: mem_files_def\<close>)

text \<open>
  A link planted where the file should be: with \<open>_no_follow\<close> the update is refused, without it the
  file the link points to is rewritten.
\<close>

definition ex_text_mem :: mem where
  "ex_text_mem = ex_mem\<lparr>m_data := [(ex_file, ''one'' @ [line_feed] @ ''two'' @ [line_feed]), (ex_sub, ''secret'')],
     m_links := [(ex_link, ex_sub)], m_script := []\<rparr>"

definition ex_update :: "string \<Rightarrow> bool \<Rightarrow> json" where
  "ex_update path noFollow = JObj [(''path'', JStr path), (''content'', JStr ''new''), (''start_line'', JNum 1 0),
     (''end_line'', JNum 1 0), (''_no_follow'', JBool noFollow)]"

lemma ex_update_run:
  "(let (r, w') = Update mem_files (Some (ex_update ''/srv/a'' True)) ex_text_mem
    in (isl r, set (m_touched w'), map_of (m_data w') ex_file)) =
   (False, {ex_file}, Some (''new'' @ [line_feed] @ ''two'' @ [line_feed]))"
  by code_simp

lemma ex_update_link:
  "(let (r, w') = Update mem_files (Some (ex_update ''/srv/l'' True)) ex_text_mem in (isl r, m_touched w')) = (True, [])"
  "(let (r, w') = Update mem_files (Some (ex_update ''/srv/l'' False)) ex_text_mem in (isl r, set (m_touched w'))) = (False, {ex_sub})"
  by code_simp+

theorem file_writes_confined_witness:
  "\<exists>r w'. Update mem_files (Some (ex_update ''/srv/a'' True)) ex_text_mem = (Inr r, w') \<and> m_touched w' \<noteq> [] \<and>
     set (m_touched w') \<subseteq> along mem_view ex_text_mem m_root [''srv'', ''a''] w'"
proof -
  obtain r w' where u: "Update mem_files (Some (ex_update ''/srv/a'' True)) ex_text_mem = (r, w')" by fastforce
  then have r: "\<not> isl r" "set (m_touched w') = {ex_file}" using ex_update_run by auto
  have p: "update_parse (Some (ex_update ''/srv/a'' True)) =
      Inr \<lparr>up_Path = ''/srv/a'', up_Content = ''new'', up_Append = False, up_StartLine = Some 1, up_EndLine = Some 1, up_NoFollow = True\<rparr>"
    "path_comps ''/srv/a'' = [''srv'', ''a'']" by code_simp+
  define ua where "ua = \<lparr>up_Path = ''/srv/a'', up_Content = ''new'', up_Append = False, up_StartLine = Some 1, up_EndLine = Some 1, up_NoFollow = True\<rparr>"
  have a: "update_parse (Some (ex_update ''/srv/a'' True)) = Inr ua" "up_NoFollow ua" "path_comps (up_Path ua) = [''srv'', ''a'']"
    using p by (simp_all add: ua_def)
  have "touched mem_view w' \<subseteq> touched mem_view ex_text_mem \<union> along mem_view ex_text_mem (rootObj mem_view) (path_comps (up_Path ua)) w'"
    using file_writes_confined [OF memf.file_fs_axioms, THEN conjunct2] a(1,2) u by blast
  moreover have "m_touched ex_text_mem = []" by (simp add: ex_text_mem_def ex_mem_def)
  ultimately have "set (m_touched w') \<subseteq> along mem_view ex_text_mem m_root [''srv'', ''a''] w'" using a(3) by simp
  moreover have "m_touched w' \<noteq> []" using r(2) by auto
  ultimately show ?thesis using u r(1) by (cases r) auto
qed

end
