(* ===== verification/RootFiles.thy ===== *)
theory RootFiles
  imports RpcTools FileChown FileEdit
begin

text \<open>
  The master's authorization and the worker's file handling put together: what the file-changing tools do
  when the daemon runs them as root (\<^verbatim>\<open>internal/rpc/tools.go\<close>, the handlers of
  \<^verbatim>\<open>cmd/mcpd/main.go\<close> and \<^verbatim>\<open>internal/tools/files/\<close>).
\<close>

text \<open>The worker's handlers for the tools that change files; the result and the machine it leaves.\<close>

definition file_worker ::
  "nat \<Rightarrow> ('w, 'z) file_kernel_scheme \<Rightarrow> (string \<Rightarrow> string result) \<Rightarrow> string \<Rightarrow> json option \<Rightarrow> 'w \<Rightarrow> (string result \<times> 'w) option" where
  "file_worker fuel K readFile tool args w =
     (if tool = ''files/chmod'' then Chmod fuel K args w
      else if tool = ''files/chown'' then Chown fuel K readFile args w
      else if tool = ''files/create'' then Some (Create K args w)
      else if tool = ''files/update'' then Some (Update K args w)
      else None)"

lemma parsed_paths:
  "chmod_parse (Some doc) = Inr a1 \<Longrightarrow> ch_Path a1 = dec_string [] (field_vals chmod_fields ''path'' doc)"
  "chown_parse (Some doc) = Inr a2 \<Longrightarrow> co_Path a2 = dec_string [] (field_vals chown_fields ''path'' doc)"
  "create_parse (Some doc) = Inr a3 \<Longrightarrow> cf_Path a3 = dec_string [] (field_vals create_fields ''path'' doc) \<and>
     cf_NoFollow a3 = dec_bool False (field_vals create_fields ''_no_follow'' doc)"
  "update_parse (Some doc) = Inr a4 \<Longrightarrow> up_Path a4 = dec_string [] (field_vals update_fields ''path'' doc) \<and>
     up_NoFollow a4 = dec_bool False (field_vals update_fields ''_no_follow'' doc)"
  by (auto simp: chmod_parse_def chown_parse_def create_parse_def update_parse_def Let_def split: if_splits)

lemma field_lists:
  "''path'' \<in> set chmod_fields" "''path'' \<in> set chown_fields" "''path'' \<in> set create_fields" "''path'' \<in> set update_fields"
  "''_no_follow'' \<in> set create_fields" "''_no_follow'' \<in> set update_fields"
  by (simp_all add: chmod_fields_def chown_fields_def create_fields_def update_fields_def)

lemma changing_tools: "tool \<in> {''files/chmod'', ''files/chown'', ''files/create'', ''files/update''} \<Longrightarrow> tool \<in> set PathTools"
  by (auto simp: PathTools_def)

text \<open>Two paths into the same path are comparable.\<close>

lemma along_within:
  assumes "x \<in> along V w a (path_comps q) w'" and "lies_within b q"
  shows "\<exists>us. nofollow_path V w a us w' x \<and> (prefix (path_comps b) us \<or> prefix us (path_comps b))"
proof -
  obtain us vs where "path_comps q = us @ vs" "nofollow_path V w a us w' x" using assms(1) by (auto simp: along_def)
  then show ?thesis using assms(2) prefix_same_cases [of "path_comps b" "path_comps q" us] by (auto simp: lies_within_def)
qed

lemma failed_parse:
  "create_parse raw = Inl e \<Longrightarrow> Create K raw w = (r, w') \<Longrightarrow> w' = w"
  "update_parse raw = Inl e \<Longrightarrow> Update K raw w = (r, w') \<Longrightarrow> w' = w"
  by (simp_all add: Create_def Update_def)


definition ex_files_sudo :: sudo_config where
  "ex_files_sudo =
     \<lparr>Users = [(''alice'', \<lparr>Privileged = \<lparr>Tools = [(''files/chmod'', ex_grant\<lparr>Paths := [''/srv'']\<rparr>)], Resources = []\<rparr>\<rparr>)]\<rparr>"

definition ex_rc_args :: json where
  "ex_rc_args = JObj [(''path'', JStr ''/srv/./a''), (''mode'', JStr ''g+w''), (''privileged'', JBool True)]"

definition ex_rc_doc :: json where
  "ex_rc_doc = JObj [(''_no_follow'', JBool True), (''mode'', JStr ''g+w''), (''path'', JStr ''/srv/a''), (''privileged'', JBool True)]"

lemma ex_rc_prepared:
  "prepare_standard ex_rpc_env ex_files_sudo ''alice'' ''files/chmod'' (Some ex_rc_args) = Finished (True, None, Some ex_rc_doc)"
  by code_simp

lemma ex_rc_run:
  "map_option (\<lambda>(r, w'). (isl r, m_touched w')) (Chmod 20 mem_files (Some ex_rc_doc) ex_text_mem) = Some (False, [ex_file])"
  by code_simp


end
