(* ===== verification/CommandTools.thy ===== *)
theory CommandTools
  imports GoJson GoText DockerAllow "HOL-Library.Word"
begin

text \<open>
  The tools that run one external program or send one signal: \<open>logs/journal-control\<close>,
  \<open>logs/dmesg\<close>, \<open>logs/logins\<close>, \<open>network/trace-path\<close>, \<open>disks/health\<close> and
  \<open>processes/delete\<close> (\<^verbatim>\<open>internal/tools/\<close>). A program's run is a parameter: what it
  printed and how it ended. The caller's text becomes words of an argument vector, so what matters is
  how the program reads the vector; a reference reader of command lines in the style of \<open>getopt\<close> states
  that, and the theorem says that each program reads exactly the options the tool meant.
\<close>

subsection \<open>Running a program\<close>

datatype run_error = ExitErr string | NotFoundErr string | OtherRunErr string

fun run_error_text :: "run_error \<Rightarrow> string" where
  "run_error_text (ExitErr t) = t"
| "run_error_text (NotFoundErr t) = t"
| "run_error_text (OtherRunErr t) = t"

record run_out =
  r_stdout :: string
  r_stderr :: string
  r_combined :: string
  r_combined_doc :: "json option"
  r_err :: "run_error option"

type_synonym runner = "string \<Rightarrow> string list \<Rightarrow> run_out"

text \<open>Every command is recorded next to the answer: the program and its arguments.\<close>

type_synonym command = "string \<times> string list"

definition cmd_doc :: "json option \<Rightarrow> json" where
  "cmd_doc raw = (case raw of None \<Rightarrow> JNull | Some v \<Rightarrow> v)"

subsection \<open>logs/journal-control\<close>

record journal_args =
  jc_Unit :: string
  jc_Lines :: int
  jc_Since :: string
  jc_Until :: string
  jc_Reverse :: bool
  jc_Boot :: bool
  jc_BootOffset :: int
  jc_OutputFormat :: string

definition journal_fields :: "string list" where
  "journal_fields = [''unit'', ''lines'', ''since'', ''until'', ''reverse'', ''boot'', ''boot_offset'', ''output_format'']"

definition journal_parse :: "json option \<Rightarrow> journal_args result" where
  "journal_parse raw =
     (let v = cmd_doc raw; fv = (\<lambda>f. field_vals journal_fields f v) in
      if is_structdoc v \<and> list_all is_str (fv ''unit'') \<and> list_all is_int (fv ''lines'') \<and> list_all is_str (fv ''since'') \<and>
         list_all is_str (fv ''until'') \<and> list_all is_bool (fv ''reverse'') \<and> list_all is_bool (fv ''boot'') \<and>
         list_all is_int (fv ''boot_offset'') \<and> list_all is_str (fv ''output_format'')
      then Inr \<lparr>jc_Unit = dec_string [] (fv ''unit''), jc_Lines = dec_int 0 (fv ''lines''), jc_Since = dec_string [] (fv ''since''),
                jc_Until = dec_string [] (fv ''until''), jc_Reverse = dec_bool False (fv ''reverse''),
                jc_Boot = dec_bool False (fv ''boot''), jc_BootOffset = dec_int 0 (fv ''boot_offset''),
                jc_OutputFormat = dec_string [] (fv ''output_format'')\<rparr>
      else Inl ''invalid arguments'')"

definition journal_argv :: "journal_args \<Rightarrow> string list" where
  "journal_argv args =
     [''-n'', int_str (if jc_Lines args \<le> 0 then 100 else jc_Lines args), ''--no-pager''] @
     (if jc_Unit args \<noteq> [] then [''-u'', jc_Unit args] else []) @
     (if jc_Since args \<noteq> [] then [''--since'', jc_Since args] else []) @
     (if jc_Until args \<noteq> [] then [''--until'', jc_Until args] else []) @
     (if jc_Reverse args then [''--reverse''] else []) @
     (if jc_BootOffset args \<noteq> 0 then [''-b'', int_str (jc_BootOffset args)] else if jc_Boot args then [''-b''] else []) @
     (if jc_OutputFormat args = ''json'' then [''-o'', ''json''] else [])"

definition JournalControl :: "runner \<Rightarrow> json option \<Rightarrow> string result \<times> command list" where
  "JournalControl run raw =
     (case journal_parse raw of
        Inl e \<Rightarrow> (Inl e, [])
      | Inr args \<Rightarrow>
          (let r = run ''journalctl'' (journal_argv args) in
           (case r_err r of
              Some e \<Rightarrow> Inl (''journalctl error: '' @ run_error_text e @ '', stderr: '' @ r_stderr r)
            | None \<Rightarrow> Inr (r_stdout r), [(''journalctl'', journal_argv args)])))"

subsection \<open>logs/dmesg\<close>

definition dmesg_levels :: "string list" where
  "dmesg_levels = [''emerg'', ''alert'', ''crit'', ''err'', ''warn'', ''notice'', ''info'', ''debug'']"

definition validLevels :: "string \<Rightarrow> bool" where
  "validLevels s \<longleftrightarrow> list_all (\<lambda>l. l \<in> set dmesg_levels) (split_on CHR '','' s)"

definition dmesg_fields :: "string list" where
  "dmesg_fields = [''level'', ''output_format'']"

definition dmesg_argv :: "string \<Rightarrow> string list" where
  "dmesg_argv level = [''--human''] @ (if level \<noteq> [] then [''--level'', level] else [])"

definition dmesg_cut :: "string \<Rightarrow> string" where
  "dmesg_cut s =
     (if 30720 < length s
      then ''[WARNING: Output truncated to last 30KB]'' @ [CHR 0x0A] @ ''...'' @ [CHR 0x0A] @ drop (length s - 30720) s
      else s)"

definition Dmesg :: "runner \<Rightarrow> json option \<Rightarrow> string result \<times> command list" where
  "Dmesg run raw =
     (let v = cmd_doc raw; fv = (\<lambda>f. field_vals dmesg_fields f v); level = dec_string [] (fv ''level'') in
      if \<not> (is_structdoc v \<and> list_all is_str (fv ''level'') \<and> list_all is_str (fv ''output_format''))
      then (Inl ''invalid arguments'', [])
      else if level \<noteq> [] \<and> \<not> validLevels level
      then (Inl (''invalid level '' @ quoted level @ '': expected comma-separated emerg,alert,crit,err,warn,notice,info,debug''), [])
      else
        (let r = run ''dmesg'' (dmesg_argv level) in
         (case r_err r of
            Some e \<Rightarrow> Inl (''dmesg error: '' @ run_error_text e @ '', stderr: '' @ r_stderr r)
          | None \<Rightarrow> Inr (dmesg_cut (r_stdout r)), [(''dmesg'', dmesg_argv level)])))"

subsection \<open>logs/logins\<close>

record logins_args =
  lo_Type :: string
  lo_Limit :: int
  lo_User :: string

definition logins_fields :: "string list" where
  "logins_fields = [''type'', ''limit'', ''user'', ''privileged'']"

definition logins_parse :: "json option \<Rightarrow> logins_args result" where
  "logins_parse raw =
     (let v = cmd_doc raw; fv = (\<lambda>f. field_vals logins_fields f v) in
      if is_structdoc v \<and> list_all is_str (fv ''type'') \<and> list_all is_int (fv ''limit'') \<and> list_all is_str (fv ''user'') \<and>
         list_all is_bool (fv ''privileged'')
      then Inr \<lparr>lo_Type = dec_string [] (fv ''type''), lo_Limit = dec_int 0 (fv ''limit''), lo_User = dec_string [] (fv ''user'')\<rparr>
      else Inl ''invalid arguments'')"

fun validUsername :: "string \<Rightarrow> bool" where
  "validUsername [] = False"
| "validUsername (c # s) = ((alnum c \<or> c = CHR ''_'') \<and> list_all (\<lambda>x. alnum x \<or> x \<in> {CHR ''_'', CHR ''.'', CHR ''-''}) s)"

definition logins_argv :: "logins_args \<Rightarrow> string list" where
  "logins_argv args =
     (if 0 < lo_Limit args then [''-n'', int_str (lo_Limit args)] else []) @ (if lo_User args \<noteq> [] then [lo_User args] else [])"

definition drop_summary :: "string list \<Rightarrow> string list" where
  "drop_summary ls =
     (if ls \<noteq> [] \<and> (has_prefix (last ls) ''wtmp begins'' \<or> has_prefix (last ls) ''btmp begins'') then butlast ls else ls)"

definition logins_List :: "runner \<Rightarrow> json option \<Rightarrow> string result \<times> command list" where
  "logins_List run raw =
     (case logins_parse raw of
        Inl e \<Rightarrow> (Inl e, [])
      | Inr args \<Rightarrow>
          if lo_Type args \<notin> {[], ''success'', ''failed''}
          then (Inl (''invalid type '' @ quoted (lo_Type args) @ '': must be '' @ quoted ''success'' @ '' or '' @ quoted ''failed''), [])
          else if lo_User args \<noteq> [] \<and> \<not> validUsername (lo_User args) then (Inl (''invalid user '' @ quoted (lo_User args)), [])
          else
            (let bin = (if lo_Type args = ''failed'' then ''lastb'' else ''last''); r = run bin (logins_argv args) in
             (case r_err r of
                Some e \<Rightarrow>
                  Inl (if r_stderr r \<noteq> [] then bin @ '' failed: '' @ run_error_text e @ '': '' @ trim_space (r_stderr r)
                       else bin @ '' failed: '' @ run_error_text e)
              | None \<Rightarrow> Inr (join_with [CHR 0x0A] (drop_summary (split_on CHR 0x0A (trim_right_chars (r_stdout r) [CHR 0x0A]))) @ [CHR 0x0A]),
              [(bin, logins_argv args)])))"

subsection \<open>network/trace-path\<close>

fun validHost :: "string \<Rightarrow> bool" where
  "validHost [] = False"
| "validHost (c # s) = (alnum c \<and> list_all (\<lambda>x. alnum x \<or> x \<in> {CHR ''.'', CHR '':'', CHR ''_'', CHR ''-''}) s)"

definition trace_fields :: "string list" where
  "trace_fields = [''host'', ''max_hops'']"

definition trace_argv :: "string \<Rightarrow> int \<Rightarrow> string list" where
  "trace_argv h hops0 =
     (let hops = (if 255 < hops0 then 255 else hops0) in (if 0 < hops then [''-m'', int_str hops] else []) @ [h])"

definition TracePath :: "runner \<Rightarrow> json option \<Rightarrow> string result \<times> command list" where
  "TracePath run raw =
     (case raw of
        None \<Rightarrow> (Inl ''missing arguments: host is required'', [])
      | Some v \<Rightarrow>
          (let fv = (\<lambda>f. field_vals trace_fields f v); h = dec_string [] (fv ''host''); hops = dec_int 0 (fv ''max_hops'') in
           if \<not> (is_structdoc v \<and> list_all is_str (fv ''host'') \<and> list_all is_int (fv ''max_hops'')) then (Inl ''invalid arguments'', [])
           else if h = [] then (Inl ''host parameter is required'', [])
           else if \<not> validHost h then (Inl (''invalid host '' @ quoted h @ '': expected a hostname or IP address''), [])
           else
             (let r = run ''traceroute'' (trace_argv h hops) in
              (case r_err r of
                 Some e \<Rightarrow> Inl (''traceroute failed: '' @ run_error_text e @ '', output: '' @ r_combined r)
               | None \<Rightarrow> Inr (r_combined r), [(''traceroute'', trace_argv h hops)]))))"

subsection \<open>disks/health\<close>

fun validDevice :: "string \<Rightarrow> bool" where
  "validDevice [] = False"
| "validDevice (c # s) = (alnum c \<and> list_all (\<lambda>x. alnum x \<or> x \<in> {CHR ''_'', CHR ''-''}) s)"

definition health_fields :: "string list" where
  "health_fields = [''device'', ''privileged'']"

definition health_argv :: "string \<Rightarrow> string list" where
  "health_argv dev = [''-j'', ''-a'', ''/dev/'' @ dev]"

text \<open>The output is decoded into a map, which an object or \<open>null\<close> can be.\<close>

definition Health :: "runner \<Rightarrow> json option \<Rightarrow> string result \<times> command list" where
  "Health run raw =
     (case raw of
        None \<Rightarrow> (Inl ''missing arguments: device is required'', [])
      | Some v \<Rightarrow>
          (let fv = (\<lambda>f. field_vals health_fields f v); dev = dec_string [] (fv ''device'') in
           if \<not> (is_structdoc v \<and> list_all is_str (fv ''device'') \<and> list_all is_bool (fv ''privileged'')) then (Inl ''invalid arguments'', [])
           else if dev = [] then (Inl ''device parameter is required'', [])
           else if \<not> validDevice dev
           then (Inl (''invalid device '' @ quoted dev @ '': expected a block device name like sda or nvme0n1''), [])
           else
             (let r = run ''smartctl'' (health_argv dev) in
              (case r_err r of
                 Some (NotFoundErr _) \<Rightarrow> Inl ''smartctl is not installed on this host - install the smartmontools package (in containerized deployments, privileged calls run in the host's filesystem, so it must be installed on the host)''
               | Some (OtherRunErr t) \<Rightarrow> Inl (''failed to run smartctl: '' @ t)
               | _ \<Rightarrow>
                   (case unmarshal_map (r_combined_doc r) of
                      Inl _ \<Rightarrow> Inl (''smartctl failed or returned invalid json: '' @ r_combined r)
                    | Inr _ \<Rightarrow> Inr (r_combined r)), [(''smartctl'', health_argv dev)]))))"


subsection \<open>processes/delete\<close>

text \<open>
  \<open>strings.ToUpper\<close> as far as its result can be ASCII: besides the small letters, the long s (C5 BF) and
  the dotless i (C4 B1) have ASCII capitals.
\<close>

fun to_upper :: "string \<Rightarrow> string" where
  "to_upper [] = []"
| "to_upper (a # s) =
     (if a = CHR 0xC5 \<and> take 1 s = [CHR 0xBF] then CHR ''S'' # to_upper (drop 1 s)
      else if a = CHR 0xC4 \<and> take 1 s = [CHR 0xB1] then CHR ''I'' # to_upper (drop 1 s)
      else upper_char a # to_upper s)"

text \<open>The worker's own pid, its parent's, and \<open>kill(2)\<close>, whose process id is 32 bits wide.\<close>

datatype kill_errno = ESRCH | EPERM | OtherKill string

record proc_env =
  Getpid :: int
  Getppid :: int
  sys_kill :: "32 word \<Rightarrow> nat \<Rightarrow> kill_errno option"

definition validSignals :: "(string \<times> nat) list" where
  "validSignals = [(''SIGTERM'', 15), (''SIGKILL'', 9), (''SIGHUP'', 1), (''SIGINT'', 2), (''SIGQUIT'', 3), (''SIGUSR1'', 10),
     (''SIGUSR2'', 12), (''SIGSTOP'', 19), (''SIGCONT'', 18), (''SIGABRT'', 6)]"

record delete_args =
  dp_PID :: int
  dp_Signal :: string

definition delete_fields :: "string list" where
  "delete_fields = [''output_format'', ''pid'', ''signal'', ''privileged'']"

definition delete_parse :: "json option \<Rightarrow> delete_args result" where
  "delete_parse raw =
     (let v = cmd_doc raw; fv = (\<lambda>f. field_vals delete_fields f v) in
      if is_structdoc v \<and> list_all is_str (fv ''output_format'') \<and> list_all is_int (fv ''pid'') \<and> list_all is_str (fv ''signal'') \<and>
         list_all is_bool (fv ''privileged'')
      then Inr \<lparr>dp_PID = dec_int 0 (fv ''pid''), dp_Signal = dec_string [] (fv ''signal'')\<rparr>
      else Inl ''invalid arguments'')"

definition signal_name :: "string \<Rightarrow> string" where
  "signal_name sg =
     (if sg = [] then ''SIGTERM''
      else let s = to_upper (trim_space sg) in if has_prefix s ''SIG'' then s else ''SIG'' @ s)"

text \<open>The second component lists what \<open>kill\<close> was called with.\<close>

definition Delete :: "proc_env \<Rightarrow> json option \<Rightarrow> string result \<times> (32 word \<times> nat) list" where
  "Delete env raw =
     (case delete_parse raw of
        Inl e \<Rightarrow> (Inl e, [])
      | Inr args \<Rightarrow>
          (let pid = dp_PID args; signal = signal_name (dp_Signal args) in
           if pid \<le> 0 then (Inl ''invalid PID specified'', [])
           else if pid = 1 \<or> pid = Getppid env \<or> pid = Getpid env
           then (Inl (''refusing to signal protected PID '' @ int_str pid @ '' (init or the mcpd daemon itself)''), [])
           else
             (case map_of validSignals signal of
                None \<Rightarrow> (Inl (''invalid signal '' @ quoted (dp_Signal args) @ '' (e.g. SIGTERM, SIGKILL, SIGHUP, SIGINT)''), [])
              | Some sig \<Rightarrow>
                  (case sys_kill env (word_of_int pid) sig of
                     Some ESRCH \<Rightarrow> Inl (''no such process: '' @ int_str pid)
                   | Some EPERM \<Rightarrow> Inl (''not permitted to signal process '' @ int_str pid @
                       '' (owned by another user - retry with privileged: true if authorized)'')
                   | Some (OtherKill t) \<Rightarrow> Inl (''failed to send '' @ signal @ '' to process '' @ int_str pid @ '': '' @ t)
                   | None \<Rightarrow> Inr (''Successfully sent signal '' @ signal @ '' to process '' @ int_str pid),
                   [(word_of_int pid, sig)]))))"

subsection \<open>Facts\<close>

text \<open>The workers that run a program.\<close>

definition command_worker :: "string \<Rightarrow> runner \<Rightarrow> json option \<Rightarrow> string result \<times> command list" where
  "command_worker tool run raw =
     (if tool = ''logs/journal-control'' then JournalControl run raw
      else if tool = ''logs/dmesg'' then Dmesg run raw
      else if tool = ''logs/logins'' then logins_List run raw
      else if tool = ''network/trace-path'' then TracePath run raw
      else Health run raw)"

text \<open>
  The options a tool itself writes, and those among them whose next word is their argument. The argument
  of \<open>-b\<close>, like that of \<open>-n\<close> and \<open>-m\<close>, is a number the tool prints.
\<close>

definition own_options :: "string \<Rightarrow> string list" where
  "own_options prog =
     (if prog = ''journalctl'' then [''-n'', ''--no-pager'', ''-u'', ''--since'', ''--until'', ''--reverse'', ''-b'', ''-o'']
      else if prog = ''dmesg'' then [''--human'', ''--level'']
      else if prog = ''traceroute'' then [''-m'']
      else if prog = ''smartctl'' then [''-j'', ''-a'']
      else [''-n''])"

definition text_options :: "string list" where
  "text_options = [''-u'', ''--since'', ''--until'']"

definition number_text :: "string \<Rightarrow> bool" where
  "number_text w \<longleftrightarrow> w \<noteq> [] \<and> list_all is_digit (if hd w = CHR ''-'' then tl w else w)"

fun options_meant :: "string list \<Rightarrow> string list \<Rightarrow> bool" where
  "options_meant own [] = True"
| "options_meant own (w # ws) =
     (if w \<in> set own \<and> w \<in> set text_options then ws \<noteq> [] \<and> options_meant own (tl ws)
      else if w = ''-b'' \<and> ws \<noteq> [] \<and> number_text (hd ws) then options_meant own (tl ws)
      else (has_prefix w ''-'' \<longrightarrow> w \<in> set own) \<and> options_meant own ws)"

lemma nat_str_not_Nil: "nat_str n \<noteq> []"
  by (simp add: nat_str.simps [of n])

lemma nat_str_hd: "\<exists>c s. nat_str n = c # s \<and> is_digit c"
  using nat_str_digits [of n] nat_str_not_Nil [of n] by (cases "nat_str n") auto

lemma number_text_int_str: "number_text (int_str n)"
  using nat_str_digits [of "nat n"] nat_str_digits [of "nat (- n)"] nat_str_hd [of "nat n"]
  by (auto simp: number_text_def int_str_def nat_str_not_Nil is_digit_def)

text \<open>How the vectors are read, word by word.\<close>

lemma options_meant_plain:
  assumes "\<not> has_prefix w ''-''"
  shows "options_meant own (w # ws) = options_meant own ws"
  using assms by (auto simp: text_options_def has_prefix_def)

lemma options_meant_own:
  "w \<in> set own \<Longrightarrow> w \<notin> {''-u'', ''--since'', ''--until'', ''-b''} \<Longrightarrow> options_meant own (w # ws) = options_meant own ws"
  by (auto simp: text_options_def)

lemma options_meant_text:
  "w \<in> set own \<Longrightarrow> w \<in> {''-u'', ''--since'', ''--until''} \<Longrightarrow> options_meant own (w # x # ws) = options_meant own ws"
  by (auto simp: text_options_def)

lemma options_meant_number:
  "options_meant own (''-b'' # int_str i # ws) = options_meant own ws"
  by (simp add: number_text_int_str text_options_def)

declare options_meant.simps [simp del]

lemma options_meant_Nil: "options_meant own []"
  by (simp add: options_meant.simps)

lemma alnum_no_dash: "alnum c \<Longrightarrow> \<not> has_prefix (c # s) ''-''"
  by (auto simp: alnum_def has_prefix_def)

lemma positive_no_dash: "0 < n \<Longrightarrow> \<not> has_prefix (int_str n) ''-''"
  using nat_str_hd [of "nat n"] by (auto simp: int_str_def has_prefix_def is_digit_def)

lemma journal_options: "options_meant (own_options ''journalctl'') (journal_argv args)"
proof -
  let ?own = "own_options ''journalctl''" and ?l = "int_str (if jc_Lines args \<le> 0 then 100 else jc_Lines args)"
  have n: "options_meant ?own (''-n'' # ?l # ''--no-pager'' # ws) = options_meant ?own ws" for ws
  proof -
    have "\<not> has_prefix ?l ''-''" by (rule positive_no_dash) simp
    then show ?thesis
      using options_meant_own [of "''-n''" ?own] options_meant_plain [of ?l ?own] options_meant_own [of "''--no-pager''" ?own]
      by (simp add: own_options_def)
  qed
  have t: "options_meant ?own (o1 # x # ws) = options_meant ?own ws" if "o1 \<in> {''-u'', ''--since'', ''--until''}" for o1 x ws
    using that by (intro options_meant_text) (auto simp: own_options_def)
  have r: "options_meant ?own (''--reverse'' # ws) = options_meant ?own ws" for ws
    by (intro options_meant_own) (simp_all add: own_options_def)
  have j: "options_meant ?own [''-o'', ''json'']" "options_meant ?own [''-b'']" "options_meant ?own [''-b'', ''-o'', ''json'']"
    by (simp_all add: own_options_def text_options_def has_prefix_def number_text_def is_digit_def options_meant.simps)
  show ?thesis
    unfolding journal_argv_def by (simp add: n t r options_meant_number j options_meant_Nil)
qed

lemma numbered_options:
  assumes "o1 \<in> {''-n'', ''-m''}" and "0 < i"
  shows "options_meant [o1] (o1 # int_str i # ws) = options_meant [o1] ws"
  using assms options_meant_own [of o1 "[o1]"] options_meant_plain [OF positive_no_dash [OF assms(2)]] by auto

lemma logins_options:
  assumes "lo_User args = [] \<or> validUsername (lo_User args)"
  shows "options_meant [''-n''] (logins_argv args)"
proof -
  have u: "\<not> has_prefix (lo_User args) ''-''"
    using assms by (cases "lo_User args") (auto simp: has_prefix_def alnum_def)
  show ?thesis
    by (simp add: logins_argv_def numbered_options options_meant_plain [OF u] options_meant_Nil)
qed

lemma trace_options:
  assumes "validHost h"
  shows "options_meant [''-m''] (trace_argv h hops)"
proof -
  have u: "\<not> has_prefix h ''-''" using assms alnum_no_dash by (cases h) auto
  show ?thesis by (simp add: trace_argv_def Let_def numbered_options options_meant_plain [OF u] options_meant_Nil)
qed

lemma dmesg_options:
  assumes "level = [] \<or> validLevels level"
  shows "options_meant (own_options ''dmesg'') (dmesg_argv level)"
proof -
  have "\<not> has_prefix level ''-''"
  proof
    assume "has_prefix level ''-''"
    then obtain s where s: "level = CHR ''-'' # s" by (cases level) (auto simp: has_prefix_def)
    then have "hd (split_on CHR '','' level) \<in> set dmesg_levels" "hd (hd (split_on CHR '','' level)) = CHR ''-''"
      using assms by (auto simp: validLevels_def list_all_iff split: list.splits)
    then show False by (auto simp: dmesg_levels_def)
  qed
  moreover have "options_meant (own_options ''dmesg'') (''--human'' # ws) = options_meant (own_options ''dmesg'') ws"
    "options_meant (own_options ''dmesg'') (''--level'' # ws) = options_meant (own_options ''dmesg'') ws" for ws
    by (intro options_meant_own; simp add: own_options_def)+
  ultimately show ?thesis by (simp add: dmesg_argv_def options_meant_plain options_meant_Nil)
qed

lemma health_options:
  assumes "validDevice dev"
  shows "options_meant (own_options ''smartctl'') (health_argv dev) \<and> path_comps (''/dev/'' @ dev) = [''dev'', dev]"
proof -
  have "plain_comp dev" using assms by (cases dev) (auto simp: plain_comp_def alnum_def list_all_iff)
  then have "path_comps (CHR ''/'' # join_with ''/'' [''dev'', dev]) = [''dev'', dev]"
    by (intro path_comps_render) (auto simp: plain_comp_def)
  then show ?thesis by (simp add: health_argv_def own_options_def text_options_def has_prefix_def options_meant.simps)
qed

lemma logins_commands:
  assumes "logins_List run raw = (r, cmds)"
  shows "cmds = [] \<or> (\<exists>args bin. (lo_User args = [] \<or> validUsername (lo_User args)) \<and> bin \<in> {''last'', ''lastb''} \<and>
    cmds = [(bin, logins_argv args)])"
proof (cases "logins_parse raw")
  case (Inr args)
  consider "lo_Type args \<notin> {[], ''success'', ''failed''}" | "lo_User args \<noteq> [] \<and> \<not> validUsername (lo_User args)"
    | "lo_Type args \<in> {[], ''success'', ''failed''}" "lo_User args = [] \<or> validUsername (lo_User args)" by blast
  then show ?thesis
  proof cases
    case 3
    then have "cmds = [(if lo_Type args = ''failed'' then ''lastb'' else ''last'', logins_argv args)]"
      using assms Inr by (auto simp: logins_List_def Let_def)
    then show ?thesis using 3(2) by (intro disjI2 exI [of _ args] exI [of _ "if lo_Type args = ''failed'' then ''lastb'' else ''last''"]) simp
  qed (use assms Inr in \<open>auto simp: logins_List_def split: if_splits\<close>)
qed (use assms in \<open>simp add: logins_List_def\<close>)

lemma dmesg_commands:
  assumes "Dmesg run raw = (r, cmds)"
  shows "cmds = [] \<or> (\<exists>level. (level = [] \<or> validLevels level) \<and> cmds = [(''dmesg'', dmesg_argv level)])"
proof -
  let ?l = "dec_string [] (field_vals dmesg_fields ''level'' (cmd_doc raw))"
  consider "?l \<noteq> [] \<and> \<not> validLevels ?l" | "?l = [] \<or> validLevels ?l" by blast
  then show ?thesis
    by cases (use assms in \<open>auto simp: Dmesg_def Let_def split: if_split_asm\<close>)
qed

lemma trace_commands:
  "TracePath run raw = (r, cmds) \<Longrightarrow> cmds = [] \<or> (\<exists>h hops. validHost h \<and> cmds = [(''traceroute'', trace_argv h hops)])"
  by (auto simp: TracePath_def Let_def split: option.splits if_split_asm)

lemma health_commands:
  "Health run raw = (r, cmds) \<Longrightarrow> cmds = [] \<or> (\<exists>dev. validDevice dev \<and> cmds = [(''smartctl'', health_argv dev)])"
  by (auto simp: Health_def Let_def split: option.splits if_split_asm)

text \<open>
  C21. The program a tool runs sees only the options the tool wrote: in the argument vector every word that
  starts with a dash is one of the tool's own options or the argument of \<open>-u\<close>, \<open>--since\<close>,
  \<open>--until\<close> or \<open>-b\<close>, however the caller chose host, user, device, unit, times and level. At most
  one program is run, and \<open>smartctl\<close> is pointed at an entry of \<open>/dev\<close> itself.
\<close>

theorem no_option_injected:
  assumes "command_worker tool run raw = (r, cmds)" and "(prog, argv) \<in> set cmds"
  shows "cmds = [(prog, argv)] \<and> options_meant (own_options prog) argv \<and>
    prog \<in> {''journalctl'', ''dmesg'', ''last'', ''lastb'', ''traceroute'', ''smartctl''} \<and>
    (prog = ''smartctl'' \<longrightarrow> (\<exists>dev. argv = [''-j'', ''-a'', ''/dev/'' @ dev] \<and> path_comps (''/dev/'' @ dev) = [''dev'', dev]))"
proof -
  consider (journal) "JournalControl run raw = (r, cmds)" | (dmesg) "Dmesg run raw = (r, cmds)" | (logins) "logins_List run raw = (r, cmds)"
    | (trace) "TracePath run raw = (r, cmds)" | (health) "Health run raw = (r, cmds)"
    using assms(1) by (auto simp: command_worker_def split: if_splits)
  then show ?thesis
  proof cases
    case journal
    then show ?thesis using assms(2) journal_options by (auto simp: JournalControl_def Let_def split: sum.splits)
  next
    case dmesg
    obtain level where l: "level = [] \<or> validLevels level" "cmds = [(''dmesg'', dmesg_argv level)]"
      using dmesg_commands [OF dmesg] assms(2) by auto
    then show ?thesis using assms(2) dmesg_options [OF l(1)] by simp
  next
    case logins
    obtain args bin where a: "lo_User args = [] \<or> validUsername (lo_User args)" and b: "bin \<in> {''last'', ''lastb''}"
      and c: "cmds = [(bin, logins_argv args)]"
      using logins_commands [OF logins] assms(2) by fastforce
    have "own_options bin = [''-n'']" using b by (auto simp: own_options_def)
    then show ?thesis using assms(2) b c logins_options [OF a] by auto
  next
    case trace
    obtain h hops where h: "validHost h" "cmds = [(''traceroute'', trace_argv h hops)]"
      using trace_commands [OF trace] assms(2) by auto
    then show ?thesis using assms(2) trace_options [OF h(1), of hops] by (simp add: own_options_def)
  next
    case health
    obtain dev where d: "validDevice dev" "cmds = [(''smartctl'', health_argv dev)]"
      using health_commands [OF health] assms(2) by auto
    then show ?thesis using assms(2) health_options [OF d(1)] by (simp add: health_argv_def)
  qed
qed


definition ex_login_args :: json where
  "ex_login_args = JObj [(''user'', JStr ''al.ice''), (''limit'', JNum 5 0)]"

theorem no_option_injected_witness:
  "\<exists>r. command_worker ''logs/logins'' (\<lambda>_ _. \<lparr>r_stdout = ''al.ice pts/0'', r_stderr = [], r_combined = [], r_combined_doc = None, r_err = None\<rparr>)
       (Some ex_login_args) = (r, [(''last'', [''-n'', ''5'', ''al.ice''])]) \<and> options_meant (own_options ''last'') [''-n'', ''5'', ''al.ice'']"
proof -
  let ?run = "\<lambda>_ _. \<lparr>r_stdout = ''al.ice pts/0'', r_stderr = [], r_combined = [], r_combined_doc = None, r_err = None\<rparr> :: run_out"
  have "snd (command_worker ''logs/logins'' ?run (Some ex_login_args)) = [(''last'', [''-n'', ''5'', ''al.ice''])]" by code_simp
  then obtain r where r: "command_worker ''logs/logins'' ?run (Some ex_login_args) = (r, [(''last'', [''-n'', ''5'', ''al.ice''])])"
    by (metis prod.collapse)
  have "options_meant (own_options ''last'') [''-n'', ''5'', ''al.ice'']"
    using no_option_injected [OF r, of "''last''" "[''-n'', ''5'', ''al.ice'']"] by simp
  then show ?thesis using r by blast
qed

text \<open>
  C22. A request to end a process sends one of the ten allowed signals at most once, and for a process id that
  fits 31 bits only to that one process, which is neither init nor the daemon nor the worker itself: never
  to a group of processes.
\<close>

theorem Delete_one_process:
  assumes "Delete env raw = (r, ks)" and "(t, sig) \<in> set ks"
  shows "\<exists>args. delete_parse raw = Inr args \<and> ks = [(t, sig)] \<and> sig \<in> snd ` set validSignals \<and> 0 < dp_PID args \<and>
    dp_PID args \<notin> {1, Getpid env, Getppid env} \<and>
    (dp_PID args < 2 ^ 31 \<longrightarrow> sint t = dp_PID args \<and> 1 < sint t)"
proof -
  obtain args where a: "delete_parse raw = Inr args" using assms by (auto simp: Delete_def split: sum.splits)
  have p: "0 < dp_PID args" "dp_PID args \<notin> {1, Getpid env, Getppid env}" "ks = [(t, sig)]"
    and t: "t = word_of_int (dp_PID args)" and s: "map_of validSignals (signal_name (dp_Signal args)) = Some sig"
    using assms a by (auto simp: Delete_def Let_def not_le split: if_splits option.splits)
  have "sint t = dp_PID args" if "dp_PID args < 2 ^ 31"
  proof -
    have "signed_take_bit 31 (dp_PID args) = dp_PID args"
      using that p(1) by (intro signed_take_bit_int_eq_self) auto
    then show ?thesis unfolding t by (simp add: sint_uint uint_word_of_int_eq signed_take_bit_take_bit min_def)
  qed
  moreover have "sig \<in> snd ` set validSignals" using map_of_SomeD [OF s] by force
  ultimately show ?thesis using a p by auto
qed

definition ex_proc_env :: proc_env where
  "ex_proc_env = \<lparr>Getpid = 900, Getppid = 800, sys_kill = (\<lambda>_ _. None)\<rparr>"

theorem Delete_one_process_witness:
  "\<exists>r. Delete ex_proc_env (Some (JObj [(''pid'', JNum 4242 0), (''signal'', JStr ''kill'')])) = (r, [(4242, 9)]) \<and>
     sint (4242 :: 32 word) = 4242"
proof -
  let ?raw = "Some (JObj [(''pid'', JNum 4242 0), (''signal'', JStr ''kill'')])"
  have p: "delete_parse ?raw = Inr \<lparr>dp_PID = 4242, dp_Signal = ''kill''\<rparr>" by code_simp
  have s: "map_of validSignals (signal_name ''kill'') = Some 9" by code_simp
  obtain r where r: "Delete ex_proc_env ?raw = (r, [(4242, 9)])"
    by (simp add: Delete_def p s ex_proc_env_def)
  show ?thesis using r Delete_one_process [OF r] p by auto
qed

text \<open>
  Beyond 31 bits the checks see another number than the kernel: process id 4294967295 passes them and
  reaches \<open>kill\<close> as \<open>-1\<close>, every process the worker may signal; 4294967297 reaches init.
\<close>

lemma kill_pid_wraps:
  "snd (Delete ex_proc_env (Some (JObj [(''pid'', JNum 4294967295 0)]))) = [(- 1, 15)]"
  "snd (Delete ex_proc_env (Some (JObj [(''pid'', JNum 4294967297 0)]))) = [(1, 15)]"
proof -
  have p: "delete_parse (Some (JObj [(''pid'', JNum n 0)])) = Inr \<lparr>dp_PID = n, dp_Signal = []\<rparr>" if "0 < n" "n < 2 ^ 63" for n
  proof -
    have f: "json_field delete_fields ''pid'' = Some ''pid''" by code_simp
    show ?thesis
      using that by (simp add: delete_parse_def cmd_doc_def Let_def field_vals_def members_def f is_structdoc_def is_int_def dec_int_def dec_string_def)
  qed
  have s: "map_of validSignals (signal_name []) = Some 15" by code_simp
  show "snd (Delete ex_proc_env (Some (JObj [(''pid'', JNum 4294967295 0)]))) = [(- 1, 15)]"
    "snd (Delete ex_proc_env (Some (JObj [(''pid'', JNum 4294967297 0)]))) = [(1, 15)]"
    by (simp_all add: Delete_def p s ex_proc_env_def)
qed

end
