(* ===== verification/NetTools.thy ===== *)
theory NetTools
  imports RpcGuards CommandTools
begin

text \<open>
  The workers \<open>network/ping\<close>, \<open>network/curl\<close> and \<open>network/nslookup\<close>
  (\<^verbatim>\<open>internal/tools/network/\<close>). Names are resolved and connections opened by a
  parameter. The HTTP client of \<^verbatim>\<open>net/http\<close> is one too: a function that, given how the
  connections so far came out, says which address it dials next or with what it ends, so that redirects
  and retries can be anything. Every dial goes through the policy's \<open>DialContext\<close> and is recorded
  with the addresses it connected to.
\<close>

record curl_conf =
  cc_Method :: string
  cc_URL :: string
  cc_Headers :: "(string \<times> string) list"
  cc_Body :: "string option"
  cc_Insecure :: bool
  cc_Timeout :: int
  cc_Proxy :: bool

record http_reply =
  re_StatusCode :: int
  re_Status :: string
  re_Header :: "(string \<times> string list) list"
  re_Body :: string
  re_Fail :: "goerr option"

record 'c net_env =
  n_lookup :: "string \<Rightarrow> ip list result"
  n_dial :: "ip \<Rightarrow> string \<Rightarrow> 'c result"
  n_dial_host :: "string \<Rightarrow> 'c result"
  n_latency :: json
  n_new_request :: "string \<Rightarrow> string \<Rightarrow> unit result"
  n_http :: "curl_conf \<Rightarrow> 'c result list \<Rightarrow> string + http_reply result"

text \<open>A dial: the address asked for, and what was connected to for it.\<close>

type_synonym dial_log = "(string \<times> ip list) list"

definition is_policy :: "json \<Rightarrow> bool" where
  "is_policy v \<longleftrightarrow> is_structdoc v \<and> list_all is_bool (field_vals policy_fields ''deny_private'' v) \<and>
     list_all is_strs (field_vals policy_fields ''allow'' v) \<and> list_all is_strs (field_vals policy_fields ''deny'' v)"

subsection \<open>network/ping\<close>

record ping_args =
  pi_Host :: string
  pi_Port :: int
  pi_Timeout :: int
  pi_Policy :: "policy option"

definition ping_parse :: "json option \<Rightarrow> ping_args result" where
  "ping_parse raw =
     (let v = cmd_doc raw; fv = (\<lambda>f. field_vals ping_fields f v) in
      if raw \<noteq> None \<and> is_structdoc v \<and> list_all is_str (fv ''host'') \<and> list_all is_int (fv ''port'') \<and> list_all is_int (fv ''timeout'') \<and>
         list_all is_str (fv ''output_format'') \<and> list_all is_policy (fv ''_network_policy'')
      then Inr \<lparr>pi_Host = dec_string [] (fv ''host''), pi_Port = dec_int 0 (fv ''port''), pi_Timeout = dec_int 0 (fv ''timeout''),
                pi_Policy = worker_Policy ping_fields v\<rparr>
      else Inl ''invalid arguments'')"

text \<open>\<open>net.JoinHostPort\<close>.\<close>

definition JoinHostPort :: "string \<Rightarrow> string \<Rightarrow> string" where
  "JoinHostPort h port = (if CHR '':'' \<in> set h then ''['' @ h @ '']:'' @ port else h @ '':'' @ port)"

definition ping_reply :: "string \<Rightarrow> int \<Rightarrow> json \<Rightarrow> 'c result \<Rightarrow> json" where
  "ping_reply h port latency r =
     JObj ([(''host'', JStr h), (''port'', JNum port 0), (''success'', JBool (\<not> isl r)), (''latency_ms'', latency)] @
           (case r of Inl e \<Rightarrow> (if e = [] then [] else [(''error'', JStr e)]) | Inr _ \<Rightarrow> []))"

definition Ping :: "('c, 'z) net_env_scheme \<Rightarrow> json option \<Rightarrow> json result \<times> dial_log" where
  "Ping N raw =
     (case ping_parse raw of
        Inl e \<Rightarrow> (Inl e, [])
      | Inr args \<Rightarrow>
          (let h = trim_space (pi_Host args); port = (if pi_Port args \<le> 0 then 80 else pi_Port args); addr = JoinHostPort h (int_str port) in
           if h = [] then (Inl ''host argument is required'', [])
           else case DialContext (pi_Policy args) (n_lookup N) (n_dial N) (n_dial_host N) addr of
                  (r, ds) \<Rightarrow> (Inr (ping_reply h port (n_latency N) r), [(addr, ds)])))"

subsection \<open>network/curl\<close>

record curl_args =
  cu_URL :: string
  cu_Method :: string
  cu_Headers :: "(string \<times> string) list"
  cu_Body :: string
  cu_Data :: string
  cu_Insecure :: bool
  cu_Timeout :: int
  cu_MaxBody :: int
  cu_Policy :: "policy option"

text \<open>A \<open>map[string]string\<close>: \<open>null\<close> makes it nil, an object adds its members, and \<open>null\<close> for a value is the empty string.\<close>

definition dec_string_map :: "json list \<Rightarrow> (string \<times> string) list" where
  "dec_string_map vs =
     foldl (\<lambda>a v. case v of JNull \<Rightarrow> [] | JObj ms \<Rightarrow> foldl (\<lambda>m e. map_put (fst e) (dec_string [] [snd e]) m) a ms | _ \<Rightarrow> a) [] vs"

definition is_string_map :: "json \<Rightarrow> bool" where
  "is_string_map v = (case v of JObj ms \<Rightarrow> list_all (\<lambda>e. is_str (snd e)) ms | JNull \<Rightarrow> True | _ \<Rightarrow> False)"

definition curl_parse :: "json option \<Rightarrow> curl_args result" where
  "curl_parse raw =
     (let v = cmd_doc raw; fv = (\<lambda>f. field_vals curl_fields f v) in
      if raw \<noteq> None \<and> is_structdoc v \<and> list_all is_str (fv ''url'') \<and> list_all is_str (fv ''method'') \<and> list_all is_string_map (fv ''headers'') \<and>
         list_all is_str (fv ''body'') \<and> list_all is_str (fv ''data'') \<and> list_all is_bool (fv ''insecure'') \<and>
         list_all is_str (fv ''output_format'') \<and> list_all is_int (fv ''timeout'') \<and> list_all is_int (fv ''max_body'') \<and>
         list_all is_policy (fv ''_network_policy'')
      then Inr \<lparr>cu_URL = dec_string [] (fv ''url''), cu_Method = dec_string [] (fv ''method''), cu_Headers = dec_string_map (fv ''headers''),
                cu_Body = dec_string [] (fv ''body''), cu_Data = dec_string [] (fv ''data''), cu_Insecure = dec_bool False (fv ''insecure''),
                cu_Timeout = dec_int 0 (fv ''timeout''), cu_MaxBody = dec_int 0 (fv ''max_body''),
                cu_Policy = worker_Policy curl_fields v\<rparr>
      else Inl ''invalid arguments'')"

definition curl_conf_of :: "curl_args \<Rightarrow> curl_conf" where
  "curl_conf_of args =
     (let method = to_upper (trim_space (cu_Method args)); payload = (if cu_Body args = [] then cu_Data args else cu_Body args) in
      \<lparr>cc_Method = (if method = [] then ''GET'' else method), cc_URL = trim_space (cu_URL args), cc_Headers = cu_Headers args,
       cc_Body = (if payload = [] then None else Some payload), cc_Insecure = cu_Insecure args,
       cc_Timeout = (if cu_Timeout args \<le> 0 then 10 else cu_Timeout args), cc_Proxy = (cu_Policy args = None)\<rparr>)"

text \<open>\<open>client.Do\<close>: the client dials until it ends; \<open>None\<close> when it has not ended within the fuel.\<close>

fun http_run ::
  "nat \<Rightarrow> ('c result list \<Rightarrow> string + http_reply result) \<Rightarrow> (string \<Rightarrow> 'c result \<times> ip list) \<Rightarrow> 'c result list \<Rightarrow>
   http_reply result option \<times> dial_log" where
  "http_run 0 nxt dialer past = (None, [])"
| "http_run (Suc n) nxt dialer past =
     (case nxt past of
        Inr a \<Rightarrow> (Some a, [])
      | Inl addr \<Rightarrow>
          (case dialer addr of
             (c, ds) \<Rightarrow> (case http_run n nxt dialer (past @ [c]) of (r, l) \<Rightarrow> (r, (addr, ds) # l))))"

definition max_body :: "int \<Rightarrow> nat" where
  "max_body m = (if 0 < m then nat (min m 10485760) else 1048576)"

definition curl_reply :: "nat \<Rightarrow> http_reply \<Rightarrow> json result" where
  "curl_reply limit re =
     (let bytes = take (limit + 1) (re_Body re); truncated = limit < length bytes;
          body = (if truncated then take limit bytes else bytes) in
      case (if length (re_Body re) < limit + 1 then re_Fail re else None) of
        Some e \<Rightarrow> Inl (''failed to read response body: '' @ e)
      | None \<Rightarrow>
          Inr (JObj ([(''status_code'', JNum (re_StatusCode re) 0), (''status'', JStr (re_Status re)),
                      (''headers'', marshal_map (map (\<lambda>(k, v). (k, JStr (join_with '', '' v))) (re_Header re))),
                      (''body'', JStr body)] @ (if truncated then [(''truncated'', JBool True)] else []))))"

definition Curl :: "('c, 'z) net_env_scheme \<Rightarrow> nat \<Rightarrow> json option \<Rightarrow> json result option \<times> dial_log" where
  "Curl N fuel raw =
     (case curl_parse raw of
        Inl e \<Rightarrow> (Some (Inl e), [])
      | Inr args \<Rightarrow>
          (let conf = curl_conf_of args in
           if cc_URL conf = [] then (Some (Inl ''url argument is required''), [])
           else case n_new_request N (cc_Method conf) (cc_URL conf) of
                  Inl e \<Rightarrow> (Some (Inl (''failed to create request: '' @ e)), [])
                | Inr _ \<Rightarrow>
                    (case http_run fuel (n_http N conf) (DialContext (cu_Policy args) (n_lookup N) (n_dial N) (n_dial_host N)) [] of
                       (None, l) \<Rightarrow> (None, l)
                     | (Some (Inl e), l) \<Rightarrow> (Some (Inl (''http request failed: '' @ e)), l)
                     | (Some (Inr re), l) \<Rightarrow> (Some (curl_reply (max_body (cu_MaxBody args)) re), l))))"


subsection \<open>The policy holds for every connection\<close>

definition net_worker :: "string \<Rightarrow> ('c, 'z) net_env_scheme \<Rightarrow> nat \<Rightarrow> json option \<Rightarrow> json result option \<times> dial_log" where
  "net_worker tool N fuel raw =
     (if tool = ''network/curl'' then Curl N fuel raw else case Ping N raw of (r, l) \<Rightarrow> (Some r, l))"

definition net_fields :: "string \<Rightarrow> string list" where
  "net_fields tool = (if tool = ''network/curl'' then curl_fields else ping_fields)"

lemma http_run_dialled:
  "http_run n nxt dialer past = (r, l) \<Longrightarrow> (addr, ds) \<in> set l \<Longrightarrow> ds = snd (dialer addr)"
proof (induction n nxt dialer past arbitrary: r l rule: http_run.induct)
  case (2 n nxt dialer past)
  show ?case
  proof (cases "nxt past")
    case (Inl a)
    obtain c es where d: "dialer a = (c, es)" by fastforce
    obtain r' l' where h: "http_run n nxt dialer (past @ [c]) = (r', l')" by fastforce
    have "l = (a, es) # l'" using 2(2) Inl d h by simp
    then show ?thesis using 2(1) [OF Inl d [symmetric] h] 2(3) d by auto
  next
    case (Inr a)
    then show ?thesis using 2(2,3) by simp
  qed
qed simp

lemma net_worker_dials:
  assumes "net_worker tool N fuel raw = (r, l)" and "(addr, ds) \<in> set l" and "tool \<in> {''network/curl'', ''network/ping''}"
  shows "\<exists>c. DialContext (worker_Policy (net_fields tool) (cmd_doc raw)) (n_lookup N) (n_dial N) (n_dial_host N) addr = (c, ds)"
proof (cases "tool = ''network/curl''")
  case True
  obtain args where args: "curl_parse raw = Inr args" using assms True by (auto simp: net_worker_def Curl_def split: sum.splits)
  then have p: "cu_Policy args = worker_Policy curl_fields (cmd_doc raw)"
    by (auto simp: curl_parse_def Let_def split: if_splits)
  let ?nxt = "n_http N (curl_conf_of args)" and ?d = "DialContext (cu_Policy args) (n_lookup N) (n_dial N) (n_dial_host N)"
  obtain q where "http_run fuel ?nxt ?d [] = (q, l)"
    using assms args True
    by (auto simp: net_worker_def Curl_def Let_def split: sum.splits prod.splits option.splits if_splits)
  from http_run_dialled [OF this assms(2)] have "ds = snd (?d addr)" .
  then show ?thesis using True p by (metis net_fields_def prod.collapse)
next
  case False
  obtain args where args: "ping_parse raw = Inr args" using assms False by (auto simp: net_worker_def Ping_def split: sum.splits prod.splits)
  then have "pi_Policy args = worker_Policy ping_fields (cmd_doc raw)"
    by (auto simp: ping_parse_def Let_def split: if_splits)
  then show ?thesis
    using assms args False by (auto simp: net_worker_def Ping_def Let_def net_fields_def split: prod.splits if_splits)
qed

text \<open>What removing a member and decoding leave of the names a caller sent.\<close>

lemma withoutKey_names:
  "\<exists>ms'. withoutKey (Some (JObj ms)) k = Some (JObj ms') \<and> (nums_ok_members ms \<longrightarrow> nums_ok_members ms') \<and> fst ` set ms' \<subseteq> fst ` set ms"
proof (cases "map_of (fill_map ms) k = None")
  case True
  then show ?thesis by (simp add: withoutKey_def unmarshal_raw_map_def)
next
  case False
  then have "withoutKey (Some (JObj ms)) k = Some (JObj (sort_key fst (map_del k (fill_map ms))))"
    by (auto simp: withoutKey_def unmarshal_raw_map_def marshal_map_def Let_def)
  moreover have "set (map_del k (fill_map ms)) \<subseteq> set ms"
    using set_fill_map_subset [of ms] by (auto simp: map_del_def)
  ultimately show ?thesis by (auto simp: nums_ok_members_iff)
qed

lemma through_iface_names: "fst ` set (through_iface_members ms) = fst ` set ms"
proof (induction ms)
  case (Cons e ms)
  then show ?case by (cases e) simp
qed simp

lemma net_prepared:
  assumes "prepare_standard e c user tool (Some (JObj ms)) = Finished (priv, None, args')"
    and "tool \<in> {''network/curl'', ''network/ping''}" and "nums_ok_members ms" and "spelled_exactly (net_fields tool) ms"
  shows "\<exists>doc. args' = Some doc \<and> worker_Policy (net_fields tool) doc = NetworkPolicy c user tool"
proof -
  have g: "tool \<notin> set DockerTools" "tool \<notin> set PathTools"
    using assms(2) by (auto simp: DockerTools_def PathTools_def)
  obtain args1 args3 where d: "step_docker e c user tool (Some (JObj ms)) = (None, args1)"
    and p: "step_paths c user tool priv (base_Path (Some (JObj ms))) (None, withoutKey args1 ''_no_follow'') = Finished (None, args3)"
    and n: "step_network c user tool args3 = Finished args'"
    using prepare_standard_ok [OF assms(1)] by metis
  have "args1 = Some (JObj ms)" using d g by (simp add: step_docker_def)
  then have a3: "args3 = withoutKey (Some (JObj ms)) ''_no_follow''" using p g by (simp add: step_paths_def)
  obtain ms' where ms': "args3 = Some (JObj ms')" "nums_ok_members ms'" "fst ` set ms' \<subseteq> fst ` set ms"
    using withoutKey_names [of ms "''_no_follow''"] assms(3) a3 by auto
  define m where "m = fill_map (through_iface_members ms')"
  have m: "unmarshal_map args3 = Inr (Some m)" using ms' by (simp add: unmarshal_map_def m_def)
  have "fst ` set m \<subseteq> fst ` set ms" using ms'(3) by (simp add: m_def set_fill_map through_iface_names)
  then have sp: "spelled_exactly (net_fields tool) m"
    using assms(4) by (fastforce simp: spelled_exactly_def list_all_iff)
  obtain doc where doc: "args' = Some doc"
    using n m assms(2) by (auto simp: step_network_def split: option.splits)
  then show ?thesis
    using network_policy_injected [OF _ assms(2) m _ sp] n by (auto simp: net_fields_def)
qed



text \<open>A web server that answers a redirect: the client dials a name, then an address.\<close>

definition ex_net :: "unit net_env" where
  "ex_net =
     \<lparr>n_lookup = (\<lambda>h. if h = ''x'' then Inr [[93, 184, 216, 34]] else Inl ''no such host''), n_dial = (\<lambda>_ _. Inr ()), n_dial_host = (\<lambda>_. Inr ()),
      n_latency = JNum 1 0, n_new_request = (\<lambda>_ _. Inr ()),
      n_http = (\<lambda>conf past.
        if past = [] then Inl ''x:80'' else if length past = 1 then Inl ''10.0.0.1:80''
        else Inr (Inl ''connection refused by policy''))\<rparr>"

definition ex_curl_doc :: json where
  "ex_curl_doc = JObj [(''_network_policy'', JObj [(''deny_private'', JBool True)]), (''privileged'', JBool True), (''url'', JStr ''http://x'')]"

lemma ex_curl_policy: "worker_Policy curl_fields ex_curl_doc = Some \<lparr>DenyPrivate = True, Allow = [], Deny = []\<rparr>"
  by code_simp

lemma ex_curl_parse:
  "\<exists>args. curl_parse (Some ex_curl_doc) = Inr args \<and> cu_Policy args = Some \<lparr>DenyPrivate = True, Allow = [], Deny = []\<rparr> \<and>
     cu_URL args = ''http://x''"
proof -
  have f: "json_field curl_fields ''_network_policy'' = Some ''_network_policy''" "json_field curl_fields ''url'' = Some ''url''"
    by (simp_all add: json_field_def curl_fields_def)
  have n: "json_field curl_fields ''privileged'' = None" by code_simp
  have p: "is_policy (JObj [(''deny_private'', JBool True)])" by code_simp
  show ?thesis
    by (simp add: curl_parse_def cmd_doc_def Let_def ex_curl_policy)
      (simp add: ex_curl_doc_def field_vals_def members_def f n p is_structdoc_def is_str_def dec_string_def)
qed


lemma ex_curl_run:
  "\<exists>r. net_worker ''network/curl'' ex_net 5 (Some ex_curl_doc) = (r, [(''x:80'', [[93, 184, 216, 34]]), (''10.0.0.1:80'', [])])"
proof -
  let ?d = "DialContext (Some \<lparr>DenyPrivate = True, Allow = [], Deny = []\<rparr>) (n_lookup ex_net) (n_dial ex_net) (n_dial_host ex_net)"
  obtain args where args: "curl_parse (Some ex_curl_doc) = Inr args" "cu_Policy args = Some \<lparr>DenyPrivate = True, Allow = [], Deny = []\<rparr>"
    "cu_URL args = ''http://x''" using ex_curl_parse by blast
  have u: "trim_space ''http://x'' \<noteq> []" by code_simp
  have d: "?d ''x:80'' = (Inr (), [[93, 184, 216, 34]])" by code_simp
  have "snd (?d ''10.0.0.1:80'') = []" by code_simp
  then obtain c where e: "?d ''10.0.0.1:80'' = (c, [])" by (metis prod.collapse)
  have n: "n_http ex_net conf [] = Inl ''x:80''" "n_http ex_net conf [a] = Inl ''10.0.0.1:80''"
    "n_http ex_net conf [a, b] = Inr (Inl ''connection refused by policy'')" "n_new_request ex_net m url = Inr ()" for conf a b m url
    by (simp_all add: ex_net_def)
  have h: "http_run 5 (n_http ex_net conf) ?d [] =
      (Some (Inl ''connection refused by policy''), [(''x:80'', [[93, 184, 216, 34]]), (''10.0.0.1:80'', [])])" for conf
    using d e n by (simp add: numeral_eq_Suc)
  show ?thesis
    by (simp add: net_worker_def Curl_def args h n Let_def curl_conf_of_def u)
qed


text \<open>
  The body \<open>network/curl\<close> returns is a prefix of what the server sent, of at most the limit, which is never
  more than 10 MiB, and it is marked as truncated exactly when something is missing.
\<close>

lemma curl_reply_bounded:
  assumes "curl_reply limit re = Inr v"
  shows "\<exists>body. map_of (members v) ''body'' = Some (JStr body) \<and> prefix body (re_Body re) \<and> length body \<le> limit \<and>
    (map_of (members v) ''truncated'' = Some (JBool True) \<longleftrightarrow> body \<noteq> re_Body re)"
  using assms
  by (auto simp: curl_reply_def members_def Let_def take_is_prefix min_def split: option.splits if_splits)

lemma max_body_bound: "max_body m \<le> 10485760"
  by (simp add: max_body_def nat_le_iff)

end
