(* ===== verification/HostTools.thy ===== *)
theory HostTools
  imports CommandTools GoNet
begin

text \<open>
  The workers \<open>services/manage\<close> and \<open>services/status\<close>
  (\<^verbatim>\<open>internal/tools/services/\<close>), which talk to systemd over D-Bus, and
  \<open>network/nslookup\<close> (\<^verbatim>\<open>internal/tools/network/nslookup\<close>). The bus connection of
  \<^verbatim>\<open>go-systemd\<close> and the resolver are parameters; the calls made on the bus are recorded.
\<close>

subsection \<open>systemd\<close>

datatype bus_call = UnitJob string string string | EnableFiles "string list" bool bool | DisableFiles "string list" bool
  | ListUnits "string list" | GetProperties string

record unit_status =
  us_Name :: string
  us_LoadState :: string
  us_ActiveState :: string
  us_SubState :: string

text \<open>
  What the connection answers: a job's number and the status that arrives on its channel, \<open>None\<close> when
  none ever does; whether an enabled unit carries install information, and how many links changed.
\<close>

record bus =
  bus_connect :: "unit result"
  bus_job :: "string \<Rightarrow> string \<Rightarrow> string \<Rightarrow> (int \<times> string option) result"
  bus_enable :: "string list \<Rightarrow> bool \<Rightarrow> bool \<Rightarrow> (bool \<times> nat) result"
  bus_disable :: "string list \<Rightarrow> bool \<Rightarrow> nat result"
  bus_list :: "string list \<Rightarrow> unit_status list result"
  bus_props :: "string \<Rightarrow> (string \<times> json) list result"

record service_args =
  sm_Service :: string
  sm_Action :: string

definition service_fields :: "string list" where
  "service_fields = [''service'', ''action'']"

definition service_parse :: "json option \<Rightarrow> service_args result" where
  "service_parse raw =
     (let v = cmd_doc raw; fv = (\<lambda>f. field_vals service_fields f v) in
      if raw \<noteq> None \<and> is_structdoc v \<and> list_all is_str (fv ''service'') \<and> list_all is_str (fv ''action'')
      then Inr \<lparr>sm_Service = dec_string [] (fv ''service''), sm_Action = dec_string [] (fv ''action'')\<rparr>
      else Inl ''invalid arguments'')"

definition service_unit :: "string \<Rightarrow> string" where
  "service_unit s = (if has_suffix s ''.service'' then s else s @ ''.service'')"

text \<open>The methods \<open>StartUnit\<close>, \<open>StopUnit\<close>, \<open>RestartUnit\<close> and \<open>ReloadUnit\<close> of the bus.\<close>

definition unit_methods :: "(string \<times> string) list" where
  "unit_methods = [(''start'', ''StartUnit''), (''stop'', ''StopUnit''), (''restart'', ''RestartUnit''), (''reload'', ''ReloadUnit'')]"

definition bool_text :: "bool \<Rightarrow> string" where
  "bool_text b = (if b then ''true'' else ''false'')"

text \<open>The result is \<open>None\<close> when the tool waits for a job that never ends.\<close>

definition service_Manage :: "bus \<Rightarrow> json option \<Rightarrow> string result option \<times> bus_call list" where
  "service_Manage B raw =
     (case service_parse raw of
        Inl e \<Rightarrow> (Some (Inl e), [])
      | Inr args \<Rightarrow>
          (let svc = service_unit (sm_Service args); act = sm_Action args in
           if sm_Service args = [] then (Some (Inl ''service argument is required''), [])
           else if act = [] then (Some (Inl ''action argument is required''), [])
           else case bus_connect B of
             Inl e \<Rightarrow> (Some (Inl (''failed to connect to systemd dbus: '' @ e)), [])
           | Inr _ \<Rightarrow>
               (case map_of unit_methods act of
                  Some m \<Rightarrow>
                    (case bus_job B m svc ''replace'' of
                       Inl e \<Rightarrow> (Some (Inl (''failed to initiate '' @ act @ '' job: '' @ e)), [UnitJob m svc ''replace''])
                     | Inr (jid, None) \<Rightarrow> (None, [UnitJob m svc ''replace''])
                     | Inr (jid, Some st) \<Rightarrow>
                         (Some (Inr (''Job '' @ int_str jid @ '' completed with status: '' @ st)), [UnitJob m svc ''replace'']))
                | None \<Rightarrow>
                    if act = ''enable'' then
                      (case bus_enable B [svc] False True of
                         Inl e \<Rightarrow> (Some (Inl (''failed to enable unit: '' @ e)), [EnableFiles [svc] False True])
                       | Inr (inst, n) \<Rightarrow>
                           (Some (Inr (''Enabled '' @ svc @ '' (install: '' @ bool_text inst @ '', changes: '' @ nat_str n @ '')'')),
                            [EnableFiles [svc] False True]))
                    else if act = ''disable'' then
                      (case bus_disable B [svc] False of
                         Inl e \<Rightarrow> (Some (Inl (''failed to disable unit: '' @ e)), [DisableFiles [svc] False])
                       | Inr n \<Rightarrow>
                           (Some (Inr (''Disabled '' @ svc @ '' (changes: '' @ nat_str n @ '')'')), [DisableFiles [svc] False]))
                    else (Some (Inl (''unsupported action: '' @ act)), []))))"

definition status_parse :: "json option \<Rightarrow> string result" where
  "status_parse raw =
     (let v = cmd_doc raw; vs = field_vals [''service''] ''service'' v in
      if raw \<noteq> None \<and> is_structdoc v \<and> list_all is_str vs then Inr (dec_string [] vs) else Inl ''invalid arguments'')"

definition prop_string :: "(string \<times> json) list \<Rightarrow> string \<Rightarrow> string" where
  "prop_string ps k = (case map_of ps k of Some (JStr s) \<Rightarrow> s | _ \<Rightarrow> [])"

definition service_Status :: "bus \<Rightarrow> json option \<Rightarrow> json result \<times> bus_call list" where
  "service_Status B raw =
     (case status_parse raw of
        Inl e \<Rightarrow> (Inl e, [])
      | Inr s \<Rightarrow>
          (let svc = service_unit s in
           if s = [] then (Inl ''service argument is required'', [])
           else case bus_connect B of
             Inl e \<Rightarrow> (Inl (''failed to connect to systemd dbus: '' @ e), [])
           | Inr _ \<Rightarrow>
               (case bus_list B [svc] of
                  Inl e \<Rightarrow> (Inl (''failed to list units: '' @ e), [ListUnits [svc]])
                | Inr [] \<Rightarrow> (Inl (''service not found: '' @ svc), [ListUnits [svc]])
                | Inr (u # _) \<Rightarrow>
                    (case bus_props B svc of
                       Inl e \<Rightarrow> (Inl (''failed to get properties: '' @ e), [ListUnits [svc], GetProperties svc])
                     | Inr ps \<Rightarrow>
                         (Inr (JObj [(''name'', JStr (us_Name u)), (''description'', JStr (prop_string ps ''Description'')),
                                     (''load_state'', JStr (us_LoadState u)), (''active_state'', JStr (us_ActiveState u)),
                                     (''sub_state'', JStr (us_SubState u)), (''fragment_path'', JStr (prop_string ps ''FragmentPath''))]),
                          [ListUnits [svc], GetProperties svc])))))"

text \<open>The units a call changes.\<close>

fun changed_units :: "bus_call \<Rightarrow> string list" where
  "changed_units (UnitJob m u mode) = [u]"
| "changed_units (EnableFiles us rt frc) = us"
| "changed_units (DisableFiles us rt) = us"
| "changed_units _ = []"

lemma service_unit_suffix: "has_suffix (service_unit s) ''.service''"
  by (simp add: service_unit_def has_suffix_def has_prefix_def)

text \<open>
  \<open>services/manage\<close> makes at most one call, for the one unit the caller named, and that is always a service:
  no mount, socket, timer or target can be reached. A status query changes nothing.
\<close>

lemma services_only:
  assumes "service_Manage B raw = (r, cs)" and "c \<in> set cs"
  shows "cs = [c] \<and> (\<exists>args. service_parse raw = Inr args \<and> changed_units c = [service_unit (sm_Service args)] \<and>
    has_suffix (service_unit (sm_Service args)) ''.service'')"
  using assms service_unit_suffix
  by (auto simp: service_Manage_def Let_def split: sum.splits option.splits if_splits)

lemma status_reads_only: "service_Status B raw = (r, cs) \<Longrightarrow> c \<in> set cs \<Longrightarrow> changed_units c = []"
  by (auto simp: service_Status_def Let_def split: sum.splits list.splits if_splits)

subsection \<open>network/nslookup\<close>

datatype dns_err = DnsErr bool string

record dns =
  LookupCNAME :: "string \<Rightarrow> dns_err + string"
  LookupIP :: "string \<Rightarrow> dns_err + ip list"
  LookupTXT :: "string \<Rightarrow> dns_err + string list"
  LookupMX :: "string \<Rightarrow> dns_err + (nat \<times> string) list"
  LookupNS :: "string \<Rightarrow> dns_err + string list"
  LookupHost :: "string \<Rightarrow> dns_err + string list"
  ip_text :: "ip \<Rightarrow> string"

definition record_types :: "string list" where
  "record_types = [''A'', ''AAAA'', ''CNAME'', ''TXT'', ''MX'', ''NS'', ''ANY'']"

text \<open>One lookup: its records, and whether it said that there is no such name.\<close>

definition dns_part :: "bool \<Rightarrow> (dns_err + 'a) \<Rightarrow> ('a \<Rightarrow> (string \<times> string) list) \<Rightarrow> (string \<times> string) list \<times> bool" where
  "dns_part asked r f =
     (if \<not> asked then ([], False) else case r of Inl (DnsErr nf t) \<Rightarrow> ([], nf) | Inr x \<Rightarrow> (f x, False))"

definition ip_type :: "ip \<Rightarrow> string" where
  "ip_type p = (if to4 p = None then ''AAAA'' else ''A'')"

definition dns_parts :: "dns \<Rightarrow> string \<Rightarrow> string \<Rightarrow> ((string \<times> string) list \<times> bool) list" where
  "dns_parts D rtype h =
     [dns_part (rtype \<in> {''CNAME'', ''ANY''}) (LookupCNAME D h) (\<lambda>c. if c = [] then [] else [(''CNAME'', c)]),
      dns_part (rtype \<in> {''A'', ''AAAA'', ''ANY''}) (LookupIP D h)
        (\<lambda>ips. map (\<lambda>p. (ip_type p, ip_text D p)) (filter (\<lambda>p. rtype = ''ANY'' \<or> rtype = ip_type p) ips)),
      dns_part (rtype \<in> {''TXT'', ''ANY''}) (LookupTXT D h) (map (\<lambda>t. (''TXT'', t))),
      dns_part (rtype \<in> {''MX'', ''ANY''}) (LookupMX D h) (map (\<lambda>(pref, x). (''MX'', nat_str pref @ '' '' @ x))),
      dns_part (rtype \<in> {''NS'', ''ANY''}) (LookupNS D h) (map (\<lambda>x. (''NS'', x)))]"

definition nslookup_fields :: "string list" where
  "nslookup_fields = [''host'', ''record_type'', ''output_format'']"

definition Nslookup :: "dns \<Rightarrow> json option \<Rightarrow> (string \<times> (string \<times> string) list) result" where
  "Nslookup D raw =
     (let v = cmd_doc raw; fv = (\<lambda>f. field_vals nslookup_fields f v);
          h = trim_space (dec_string [] (fv ''host'')); t0 = dec_string [] (fv ''record_type'');
          t1 = to_upper (trim_space t0); rtype = (if t1 = [] then ''ANY'' else t1) in
      if \<not> (raw \<noteq> None \<and> is_structdoc v \<and> list_all is_str (fv ''host'') \<and> list_all is_str (fv ''record_type'') \<and>
             list_all is_str (fv ''output_format''))
      then Inl ''invalid arguments''
      else if h = [] then Inl ''host argument is required''
      else if rtype \<notin> set record_types
      then Inl (''unsupported record type '' @ quoted t0 @ '' (A, AAAA, CNAME, TXT, MX, NS or ANY)'')
      else
        (let ps = dns_parts D rtype h; results = concat (map fst ps); notFound = list_ex snd ps in
         if results = [] \<and> notFound \<and> isl (LookupHost D h) then Inl (h @ '': no such host'')
         else Inr (h, results)))"

text \<open>The answer holds only records of the type asked for.\<close>

lemma nslookup_type:
  assumes "(k, x) \<in> set (concat (map fst (dns_parts D rtype h)))" and "rtype \<noteq> ''ANY''"
  shows "k = rtype"
proof -
  have part: "asked \<and> (\<exists>y. (k, x) \<in> set (f y))" if "(k, x) \<in> set (fst (dns_part asked r f))"
    for asked and r :: "dns_err + 'b" and f
    using that by (auto simp: dns_part_def split: if_splits sum.splits dns_err.splits)
  from assms(1) show ?thesis
    unfolding dns_parts_def using assms(2) by (auto dest!: part split: if_splits)
qed

end
